(* ===== verification/Prelude.thy ===== *)
theory Prelude
  imports Complex_Main "HOL-Library.Word"
begin

text \<open>
  What every component theory shares: names for the machine integers of the source, Rust's
  \<open>Result\<close>, ASCII strings, the bounded histories kept in \<open>VecDeque\<close>s, and the collections of facts
  the component proofs pass to the simplifier.

  Integers.  \<open>u8\<close>, \<open>u32\<close> and \<open>u64\<close> are words: \<open>fetch_add\<close> wraps at the width, and so do \<open>+\<close> and
  \<open>-\<close> in the release profile of Cargo.toml, which leaves \<open>overflow-checks\<close> off.  \<open>usize\<close> lengths and
  indices are \<open>nat\<close>: they are bounded by memory.  Strings are lists of bytes, and the case
  conversions are those of ASCII, which is what exchange and symbol names are made of.
\<close>

section \<open>Machine integers\<close>

type_synonym u8 = "8 word"
type_synonym u32 = "32 word"
type_synonym u64 = "64 word"
type_synonym usize = nat

section \<open>Result\<close>

datatype ('a, 'e) result = Ok 'a | Err 'e

fun is_ok :: "('a, 'e) result \<Rightarrow> bool" where
  "is_ok (Ok _) = True"
| "is_ok (Err _) = False"

fun map_err :: "('e \<Rightarrow> 'f) \<Rightarrow> ('a, 'e) result \<Rightarrow> ('a, 'f) result" where
  "map_err f (Ok x) = Ok x"
| "map_err f (Err e) = Err (f e)"

text \<open>Sequencing of steps that update a state and may return early, as \<open>?\<close> does.\<close>

definition and_then ::
  "'s \<times> ('a, 'e) result \<Rightarrow> ('s \<Rightarrow> 'a \<Rightarrow> 's \<times> ('b, 'e) result) \<Rightarrow> 's \<times> ('b, 'e) result" where
  "and_then p f = (case p of (s, Ok x) \<Rightarrow> f s x | (s, Err e) \<Rightarrow> (s, Err e))"

section \<open>Strings\<close>

definition lower_char :: "char \<Rightarrow> char" where
  "lower_char c = (let n = (of_char c :: nat) in if 65 \<le> n \<and> n \<le> 90 then char_of (n + 32) else c)"

definition upper_char :: "char \<Rightarrow> char" where
  "upper_char c = (let n = (of_char c :: nat) in if 97 \<le> n \<and> n \<le> 122 then char_of (n - 32) else c)"

definition to_lowercase :: "string \<Rightarrow> string" where
  "to_lowercase s = map lower_char s"

definition to_uppercase :: "string \<Rightarrow> string" where
  "to_uppercase s = map upper_char s"

text \<open>Byte-wise lexicographic \<open><\<close> of \<open>str\<close>.\<close>

fun str_less :: "string \<Rightarrow> string \<Rightarrow> bool" where
  "str_less [] [] = False"
| "str_less [] (_ # _) = True"
| "str_less (_ # _) [] = False"
| "str_less (c # s) (d # t) =
     (let m = (of_char c :: nat); n = of_char d in m < n \<or> (m = n \<and> str_less s t))"

text \<open>Decimal digits of a number, as \<open>format!\<close> prints an integer.\<close>

fun nat_str :: "nat \<Rightarrow> string" where
  "nat_str n = (if n < 10 then [char_of (48 + n)] else nat_str (n div 10) @ [char_of (48 + n mod 10)])"

declare nat_str.simps [simp del]

section \<open>Time\<close>

text \<open>An \<open>Instant\<close> is a number of nanoseconds of the monotonic clock; \<open>duration_since\<close> saturates at
  zero.\<close>

type_synonym instant = nat

definition duration_since :: "instant \<Rightarrow> instant \<Rightarrow> nat" where
  "duration_since later t = later - t"

definition as_millis :: "nat \<Rightarrow> nat" where
  "as_millis d = d div 1000000"

definition from_millis :: "nat \<Rightarrow> nat" where
  "from_millis ms = ms * 1000000"

section \<open>Bounded histories\<close>

text \<open>\<open>push_back\<close> followed by one \<open>pop_front\<close> when the length passes \<open>cap\<close>.\<close>

definition push_bounded :: "nat \<Rightarrow> 'a list \<Rightarrow> 'a \<Rightarrow> 'a list" where
  "push_bounded cap xs x = (let ys = xs @ [x] in if cap < length ys then tl ys else ys)"

text \<open>\<open>lastn n xs\<close> is the suffix of at most \<open>n\<close> elements.\<close>

definition lastn :: "nat \<Rightarrow> 'a list \<Rightarrow> 'a list" where
  "lastn n xs = drop (length xs - n) xs"

section \<open>Fact collections\<close>

named_theorems queue_simps \<open>what the queue operations do to contents and counters\<close>
named_theorems store_simps \<open>reads after writes of the market data store\<close>
named_theorems f64_defs \<open>definitions of the arithmetic of f64\<close>

section \<open>Shared lemmas\<close>

lemma result_case_cong: "is_ok r \<longleftrightarrow> (\<exists>x. r = Ok x)"
  by (cases r) auto

lemma case_result_mono [partial_function_mono]:
  assumes "\<And>x. monotone orda ordb (\<lambda>f. g f x)" "\<And>e. monotone orda ordb (\<lambda>f. h f e)"
  shows "monotone orda ordb (\<lambda>f. case r of Ok x \<Rightarrow> g f x | Err e \<Rightarrow> h f e)"
  using assms by (cases r) simp_all

lemma lower_char_idem [simp]: "lower_char (lower_char c) = lower_char c"
proof (cases "65 \<le> (of_char c :: nat) \<and> (of_char c :: nat) \<le> 90")
  case True
  then have "(of_char (char_of ((of_char c :: nat) + 32)) :: nat) = of_char c + 32"
    by (subst of_char_of) (auto simp: mod_less)
  with True show ?thesis by (simp add: lower_char_def Let_def)
qed (auto simp: lower_char_def Let_def)

lemma to_lowercase_idem [simp]: "to_lowercase (to_lowercase s) = to_lowercase s"
  by (simp add: to_lowercase_def)

lemma str_less_irrefl: "\<not> str_less s s"
  by (induction s) (auto simp: Let_def)

lemma str_less_asym: "str_less s t \<Longrightarrow> \<not> str_less t s"
  by (induction s t rule: str_less.induct) (auto simp: Let_def)

lemma str_less_total: "s \<noteq> t \<Longrightarrow> str_less s t \<or> str_less t s"
proof (induction s t rule: str_less.induct)
  case (4 c s d t)
  have "(of_char c :: nat) = of_char d \<longleftrightarrow> c = d" by (simp add: of_char_eq_iff)
  with 4 show ?case by (auto simp: Let_def neq_iff)
qed auto

lemma unat_succ_of_less:
  fixes n m :: "'a::len word"
  assumes "n < m" shows "unat (n + 1) = unat n + 1" and "n + 1 \<le> m"
proof -
  have b: "unat n + 1 < 2 ^ LENGTH('a)"
    using assms unsigned_less[of m, where 'a = nat] unfolding word_less_nat_alt by linarith
  then show e: "unat (n + 1) = unat n + 1" by (simp add: unat_word_ariths)
  show "n + 1 \<le> m" using assms by (simp add: word_le_nat_alt e word_less_nat_alt)
qed

lemma word_less_succ_iff:
  fixes n :: "'a::len word"
  assumes "n + 1 \<noteq> 0" shows "i < n + 1 \<longleftrightarrow> i \<le> n"
proof -
  have "unat (n + 1) = Suc (unat n)" using unatSuc[of n] assms by (simp add: add.commute)
  then show ?thesis by (simp add: word_less_nat_alt word_le_nat_alt less_Suc_eq_le)
qed

lemma length_lastn [simp]: "length (lastn n xs) = min n (length xs)"
  by (auto simp: lastn_def)

lemma lastn_all: "length xs \<le> n \<Longrightarrow> lastn n xs = xs"
  by (simp add: lastn_def)

lemma lastn_append_long: "n \<le> length ys \<Longrightarrow> lastn n (xs @ ys) = lastn n ys"
  by (simp add: lastn_def)

lemma lastn_append: "lastn n (xs @ ys) = lastn n (lastn n xs @ ys)"
proof (cases "length xs \<le> n")
  case False
  let ?k = "length xs - n"
  have "lastn n (xs @ ys) = lastn n (take ?k xs @ (drop ?k xs @ ys))"
    by (metis append.assoc append_take_drop_id)
  also have "\<dots> = lastn n (drop ?k xs @ ys)"
    using False by (intro lastn_append_long) simp
  finally show ?thesis by (simp add: lastn_def)
qed (simp add: lastn_all)

lemma push_bounded_lastn:
  assumes "length xs \<le> cap" shows "push_bounded cap xs x = lastn cap (xs @ [x])"
  using assms by (cases xs) (auto simp: push_bounded_def lastn_def Let_def drop_Suc Suc_diff_le)

lemma length_push_bounded: "length xs \<le> cap \<Longrightarrow> length (push_bounded cap xs x) \<le> cap"
  by (simp add: push_bounded_lastn)

text \<open>A history built by bounded pushes is the window of the last \<open>cap\<close> values pushed.\<close>

lemma foldl_push_bounded:
  "length xs \<le> cap \<Longrightarrow> foldl (push_bounded cap) xs ys = lastn cap (xs @ ys)"
proof (induction ys arbitrary: xs)
  case Nil
  then show ?case by (simp add: lastn_all)
next
  case (Cons y ys)
  have "foldl (push_bounded cap) (lastn cap (xs @ [y])) ys = lastn cap (lastn cap (xs @ [y]) @ ys)"
    by (rule Cons.IH) simp
  also have "\<dots> = lastn cap ((xs @ [y]) @ ys)" by (simp only: lastn_append[symmetric])
  finally show ?case using Cons.prems by (simp add: push_bounded_lastn)
qed

end
