(* ===== verification/F64.thy ===== *)
theory F64
  imports Prelude "HOL-Library.Log_Nat"
begin

text \<open>
  The Rust type \<open>f64\<close>, IEEE 754 binary64 with round-to-nearest, ties-to-even, as an
  executable model.  Every component that the source writes over \<open>f64\<close> is modelled over this
  type, so its theorems hold of the rounded arithmetic the program computes with, NaN,
  infinities, signed zeros, overflow and gradual underflow included.

  A finite non-zero value (and \<open>+0.0\<close>) is \<open>Fin r\<close> for its exact rational value \<open>r\<close>; \<open>-0.0\<close> is
  the separate constructor \<open>NZero\<close>.  \<open>is_f64\<close> says that \<open>r\<close> is one of the binary64 values; every
  operation returns such a value, and the order lemmas below do not need it.
\<close>

section \<open>Rounding a rational to binary64\<close>

text \<open>\<open>ilog2 r\<close> is the binary exponent of \<open>r > 0\<close>: \<open>2 powi ilog2 r \<le> r < 2 powi (ilog2 r + 1)\<close>.\<close>

definition ilog2 :: "rat \<Rightarrow> int" where
  "ilog2 r = (if 1 \<le> r then bitlen \<lfloor>r\<rfloor> - 1 else - bitlen (\<lceil>1 / r\<rceil> - 1))"

text \<open>Round to an integer, ties to even.\<close>

definition rne :: "rat \<Rightarrow> int" where
  "rne x = (let n = \<lfloor>x\<rfloor>; d = x - of_int n in
     if d < 1 / 2 then n else if 1 / 2 < d then n + 1 else if even n then n else n + 1)"

text \<open>The distance of neighbouring binary64 values around \<open>r\<close>: 53 significant bits, and never
  below \<open>2 powi -1074\<close> (gradual underflow).\<close>

definition qexp :: "rat \<Rightarrow> int" where
  "qexp r = max (ilog2 \<bar>r\<bar> - 52) (- 1074)"

definition quantum :: "rat \<Rightarrow> rat" where
  "quantum r = 2 powi qexp r"

definition rnd :: "rat \<Rightarrow> rat" where
  "rnd r = (if r = 0 then 0 else of_int (rne (r / quantum r)) * quantum r)"

section \<open>The type and its operations\<close>

datatype f64 = NaN | PInf | NInf | NZero | Fin rat

text \<open>\<open>mk s r\<close> is the correctly rounded \<open>r\<close>; a zero result takes the sign \<open>s\<close>.\<close>

definition mk :: "bool \<Rightarrow> rat \<Rightarrow> f64" where
  "mk s r = (let v = rnd r in
     if v = 0 then (if s then NZero else Fin 0)
     else if 1024 \<le> ilog2 \<bar>v\<bar> then (if v < 0 then NInf else PInf)
     else Fin v)"

fun val :: "f64 \<Rightarrow> rat" where
  "val (Fin r) = r"
| "val _ = 0"

fun is_finite :: "f64 \<Rightarrow> bool" where
  "is_finite (Fin r) = True"
| "is_finite NZero = True"
| "is_finite _ = False"

fun is_nan :: "f64 \<Rightarrow> bool" where
  "is_nan NaN = True"
| "is_nan _ = False"

fun sign_bit :: "f64 \<Rightarrow> bool" where
  "sign_bit (Fin r) = (r < 0)"
| "sign_bit NZero = True"
| "sign_bit NInf = True"
| "sign_bit PInf = False"
| "sign_bit NaN = False"

text \<open>The binary64 values.\<close>

fun is_f64 :: "f64 \<Rightarrow> bool" where
  "is_f64 (Fin r) = (rnd r = r \<and> (r = 0 \<or> ilog2 \<bar>r\<bar> < 1024))"
| "is_f64 _ = True"

text \<open>A source literal such as \<open>0.0001\<close> denotes the rounded value.\<close>

definition lit :: "rat \<Rightarrow> f64" where
  "lit r = mk False r"

instantiation f64 :: "{zero, one, plus, minus, uminus, times, inverse, ord, abs}"
begin

definition zero_f64 :: f64 where
  "zero_f64 = Fin 0"

definition one_f64 :: f64 where
  "one_f64 = Fin 1"

fun uminus_f64 :: "f64 \<Rightarrow> f64" where
  "uminus_f64 (Fin r) = (if r = 0 then NZero else Fin (- r))"
| "uminus_f64 NZero = Fin 0"
| "uminus_f64 PInf = NInf"
| "uminus_f64 NInf = PInf"
| "uminus_f64 NaN = NaN"

fun abs_f64 :: "f64 \<Rightarrow> f64" where
  "abs_f64 (Fin r) = Fin \<bar>r\<bar>"
| "abs_f64 NZero = Fin 0"
| "abs_f64 PInf = PInf"
| "abs_f64 NInf = PInf"
| "abs_f64 NaN = NaN"

fun plus_f64 :: "f64 \<Rightarrow> f64 \<Rightarrow> f64" where
  "plus_f64 NaN _ = NaN"
| "plus_f64 _ NaN = NaN"
| "plus_f64 PInf NInf = NaN"
| "plus_f64 NInf PInf = NaN"
| "plus_f64 PInf _ = PInf"
| "plus_f64 NInf _ = NInf"
| "plus_f64 _ PInf = PInf"
| "plus_f64 _ NInf = NInf"
| "plus_f64 x y = mk (x = NZero \<and> y = NZero) (val x + val y)"

definition minus_f64 :: "f64 \<Rightarrow> f64 \<Rightarrow> f64" where
  "minus_f64 x y = x + (- y)"

definition times_f64 :: "f64 \<Rightarrow> f64 \<Rightarrow> f64" where
  "times_f64 x y =
     (let s = (sign_bit x \<noteq> sign_bit y) in
      if is_nan x \<or> is_nan y then NaN
      else if is_finite x \<and> is_finite y then mk s (val x * val y)
      else if (is_finite x \<and> val x = 0) \<or> (is_finite y \<and> val y = 0) then NaN
      else if s then NInf else PInf)"

definition divide_f64 :: "f64 \<Rightarrow> f64 \<Rightarrow> f64" where
  "divide_f64 x y =
     (let s = (sign_bit x \<noteq> sign_bit y) in
      if is_nan x \<or> is_nan y then NaN
      else if is_finite y then
        (if is_finite x then
           (if val y = 0 then (if val x = 0 then NaN else if s then NInf else PInf)
            else mk s (val x / val y))
         else if s then NInf else PInf)
      else if is_finite x then (if s then NZero else Fin 0)
      else NaN)"

definition inverse_f64 :: "f64 \<Rightarrow> f64" where
  "inverse_f64 x = divide 1 x"

fun less_f64 :: "f64 \<Rightarrow> f64 \<Rightarrow> bool" where
  "less_f64 NaN _ = False"
| "less_f64 _ NaN = False"
| "less_f64 PInf _ = False"
| "less_f64 _ NInf = False"
| "less_f64 NInf _ = True"
| "less_f64 _ PInf = True"
| "less_f64 x y = (val x < val y)"

fun less_eq_f64 :: "f64 \<Rightarrow> f64 \<Rightarrow> bool" where
  "less_eq_f64 NaN _ = False"
| "less_eq_f64 _ NaN = False"
| "less_eq_f64 NInf _ = True"
| "less_eq_f64 _ PInf = True"
| "less_eq_f64 PInf _ = False"
| "less_eq_f64 _ NInf = False"
| "less_eq_f64 x y = (val x \<le> val y)"

instance ..

end

text \<open>Rust's \<open>==\<close> on \<open>f64\<close>: NaN differs from everything, the two zeros are equal.\<close>

definition feq :: "f64 \<Rightarrow> f64 \<Rightarrow> bool" where
  "feq x y \<longleftrightarrow> x \<le> y \<and> y \<le> x"

text \<open>\<open>f64::min\<close>, \<open>f64::max\<close> (a NaN argument is ignored) and \<open>f64::clamp\<close> (a NaN stays).  Which
  zero \<open>min\<close> and \<open>max\<close> return for a pair of zeros is left open by Rust; here it is the first.\<close>

definition fmin :: "f64 \<Rightarrow> f64 \<Rightarrow> f64" where
  "fmin x y = (if is_nan x then y else if y < x then y else x)"

definition fmax :: "f64 \<Rightarrow> f64 \<Rightarrow> f64" where
  "fmax x y = (if is_nan x then y else if x < y then y else x)"

definition fclamp :: "f64 \<Rightarrow> f64 \<Rightarrow> f64 \<Rightarrow> f64" where
  "fclamp x lo hi = (if x < lo then lo else if hi < x then hi else x)"

fun ffloor :: "f64 \<Rightarrow> f64" where
  "ffloor (Fin r) = Fin (of_int \<lfloor>r\<rfloor>)"
| "ffloor x = x"

text \<open>Casts.  \<open>f64 as uN\<close> truncates towards zero and saturates, NaN gives 0; \<open>uN as f64\<close> rounds.\<close>

definition trunc_rat :: "rat \<Rightarrow> int" where
  "trunc_rat r = (if 0 \<le> r then \<lfloor>r\<rfloor> else \<lceil>r\<rceil>)"

fun to_unsigned :: "nat \<Rightarrow> f64 \<Rightarrow> int" where
  "to_unsigned w (Fin r) = max 0 (min (trunc_rat r) (2 ^ w - 1))"
| "to_unsigned w PInf = 2 ^ w - 1"
| "to_unsigned w _ = 0"

definition f64_as_u8 :: "f64 \<Rightarrow> u8" where
  "f64_as_u8 x = of_int (to_unsigned 8 x)"

definition f64_as_u32 :: "f64 \<Rightarrow> u32" where
  "f64_as_u32 x = of_int (to_unsigned 32 x)"

definition f64_as_u64 :: "f64 \<Rightarrow> u64" where
  "f64_as_u64 x = of_int (to_unsigned 64 x)"

definition nat_as_f64 :: "nat \<Rightarrow> f64" where
  "nat_as_f64 n = mk False (of_nat n)"

definition int_as_f64 :: "int \<Rightarrow> f64" where
  "int_as_f64 n = mk False (of_int n)"

text \<open>\<open>iter().sum::<f64>()\<close>.\<close>

definition fsum :: "f64 list \<Rightarrow> f64" where
  "fsum xs = foldl (+) 0 xs"

section \<open>Rounding: exponent, ties, monotonicity, exactness\<close>

lemma ilog2_bounds:
  assumes "0 < r"
  shows "2 powi (ilog2 r) \<le> r" and "r < 2 powi (ilog2 r + 1)"
proof -
  have "2 powi (ilog2 r) \<le> r \<and> r < 2 powi (ilog2 r + 1)"
  proof (cases "1 \<le> r")
    case True
    define n where "n = \<lfloor>r\<rfloor>"
    have n: "1 \<le> n" using True by (simp add: n_def)
    have b: "2 ^ nat (bitlen n - 1) \<le> n" "n < 2 ^ nat (bitlen n)"
      using bitlen_bounds[of n] n by auto
    have bp: "1 \<le> bitlen n" using n bitlen_nonneg[of n] bitlen_eq_zero_iff[of n] by linarith
    have "rat_of_int (2 ^ nat (bitlen n - 1)) \<le> r"
      using b(1) unfolding n_def by (simp only: le_floor_iff)
    moreover have "r < rat_of_int (2 ^ nat (bitlen n))"
      using b(2) unfolding n_def by (simp only: floor_less_iff)
    ultimately show ?thesis
      using True bp by (simp add: ilog2_def n_def power_int_nonneg_exp)
  next
    case False
    define n where "n = \<lceil>1 / r\<rceil> - 1"
    have i: "1 < 1 / r" using False assms by simp
    have n: "1 \<le> n" using i by (simp add: n_def)
    have b: "2 ^ nat (bitlen n - 1) \<le> n" "n < 2 ^ nat (bitlen n)"
      using bitlen_bounds[of n] n by auto
    have bp: "1 \<le> bitlen n" using n bitlen_nonneg[of n] bitlen_eq_zero_iff[of n] by linarith
    have "\<lceil>1 / r\<rceil> \<le> 2 ^ nat (bitlen n)" using b(2) by (simp add: n_def)
    then have "1 / r \<le> rat_of_int (2 ^ nat (bitlen n))" by (simp only: ceiling_le_iff)
    then have 1: "2 powi (- bitlen n) \<le> r"
      using assms bp by (simp add: power_int_minus power_int_nonneg_exp field_simps)
    have "2 ^ nat (bitlen n - 1) < \<lceil>1 / r\<rceil>" using b(1) by (simp add: n_def)
    then have "rat_of_int (2 ^ nat (bitlen n - 1)) < 1 / r" by (simp only: less_ceiling_iff)
    then have "r < inverse (2 powi (bitlen n - 1))"
      using assms bp by (simp add: power_int_nonneg_exp field_simps)
    then have 2: "r < 2 powi (- bitlen n + 1)"
      using power_int_minus[of "2::rat" "bitlen n - 1"] by simp
    show ?thesis using 1 2 False by (simp add: ilog2_def n_def)
  qed
  then show "2 powi (ilog2 r) \<le> r" and "r < 2 powi (ilog2 r + 1)" by auto
qed

lemma powi2_less_iff: "(2::rat) powi a < 2 powi b \<longleftrightarrow> a < b"
  by (metis linorder_not_le one_less_numeral_iff order_less_imp_le power_int_increasing
      power_int_strict_increasing semiring_norm(76))

lemma powi2_le_iff: "(2::rat) powi a \<le> 2 powi b \<longleftrightarrow> a \<le> b"
  by (simp add: linorder_not_less[symmetric] powi2_less_iff)

lemma powi2_pos [simp]: "0 < (2::rat) powi a"
  by (simp add: zero_less_power_int)

lemma ilog2_ge: "0 < r \<Longrightarrow> 2 powi k \<le> r \<Longrightarrow> k \<le> ilog2 r"
  using ilog2_bounds(2)[of r] powi2_less_iff[of k "ilog2 r + 1"] by linarith

lemma ilog2_less: "0 < r \<Longrightarrow> r < 2 powi k \<Longrightarrow> ilog2 r < k"
  using ilog2_bounds(1)[of r] powi2_less_iff[of "ilog2 r" k] by linarith

lemma ilog2_mono: "0 < r \<Longrightarrow> r \<le> s \<Longrightarrow> ilog2 r \<le> ilog2 s"
  using ilog2_bounds(1)[of r] by (intro ilog2_ge) auto

lemma rne_of_int [simp]: "rne (of_int n) = n"
  by (simp add: rne_def)

lemma rne_0 [simp]: "rne 0 = 0"
  using rne_of_int[of 0] by simp

lemma rne_floor: "\<lfloor>x\<rfloor> \<le> rne x" "rne x \<le> \<lfloor>x\<rfloor> + 1"
  by (auto simp: rne_def Let_def)

lemma rne_mono:
  assumes "x \<le> y" shows "rne x \<le> rne y"
proof (cases "\<lfloor>x\<rfloor> = \<lfloor>y\<rfloor>")
  case True
  with assms show ?thesis by (auto simp: rne_def Let_def)
next
  case False
  with floor_mono[OF assms] have "\<lfloor>x\<rfloor> + 1 \<le> \<lfloor>y\<rfloor>" by linarith
  with rne_floor(2)[of x] rne_floor(1)[of y] show ?thesis by linarith
qed

lemma rne_minus: "rne (- x) = - rne x"
proof (cases "x = of_int \<lfloor>x\<rfloor>")
  case True
  then obtain n where "x = of_int n" by blast
  then show ?thesis by (metis of_int_minus rne_of_int)
next
  case False
  then have x: "of_int \<lfloor>x\<rfloor> < x" using of_int_floor_le[of x] by linarith
  have "\<lfloor>- x\<rfloor> = - \<lfloor>x\<rfloor> - 1"
    using x by (intro floor_unique) (auto, linarith)
  then show ?thesis by (auto simp: rne_def Let_def)
qed

lemma rne_close: "\<bar>of_int (rne x) - x\<bar> \<le> 1 / 2"
  using of_int_floor_le[of x] by (auto simp: rne_def Let_def abs_if) linarith+

lemma rnd_0 [simp]: "rnd 0 = 0"
  by (simp add: rnd_def)

lemma rnd_minus [simp]: "rnd (- r) = - rnd r"
  by (simp add: rnd_def quantum_def qexp_def rne_minus)

lemma rnd_fixed:
  assumes "r = of_int n * 2 powi k" and "qexp r \<le> k"
  shows "rnd r = r"
proof -
  have "r / quantum r = of_int n * 2 powi (k - qexp r)"
    by (simp add: assms(1) quantum_def power_int_diff del: power_int_add_numeral)
  also have "\<dots> = of_int (n * 2 ^ nat (k - qexp r))"
    using assms(2) by (simp add: power_int_nonneg_exp)
  finally have "rne (r / quantum r) = n * 2 ^ nat (k - qexp r)" and
    "r / quantum r = of_int (n * 2 ^ nat (k - qexp r))" by (simp_all only: rne_of_int)
  then show ?thesis by (simp add: rnd_def quantum_def field_simps)
qed

lemma rnd_exact_less:
  assumes "r = of_int n * 2 powi k" and "\<bar>n\<bar> < 2 ^ 53" and "- 1074 \<le> k"
  shows "rnd r = r"
proof (cases "n = 0")
  case False
  have r0: "0 < \<bar>r\<bar>" using False assms(1) by auto
  have "\<bar>rat_of_int n\<bar> < 2 ^ 53"
    using assms(2) by (metis of_int_abs of_int_less_iff of_int_numeral of_int_power)
  then have "\<bar>r\<bar> < 2 ^ 53 * 2 powi k"
    by (simp add: assms(1) abs_mult)
  also have "\<dots> = 2 powi (53 + k)"
    by (simp add: power_int_add)
  finally have "ilog2 \<bar>r\<bar> < 53 + k" using r0 by (intro ilog2_less)
  then have "qexp r \<le> k" using assms(3) by (simp add: qexp_def)
  with assms(1) show ?thesis by (rule rnd_fixed)
qed (simp add: assms(1))

lemma rnd_exact:
  assumes "r = of_int n * 2 powi k" and "\<bar>n\<bar> \<le> 2 ^ 53" and "- 1074 \<le> k"
  shows "rnd r = r"
proof (cases "\<bar>n\<bar> < 2 ^ 53")
  case True
  with assms show ?thesis by (intro rnd_exact_less)
next
  case False
  with assms(2) have n: "n = 2 ^ 53 \<or> n = - (2 ^ 53)" by linarith
  then obtain m where m: "n = 2 * m" "\<bar>m\<bar> < 2 ^ 53"
    by (elim disjE) (rule that[of "2 ^ 52"], simp, simp, rule that[of "- (2 ^ 52)"], simp, simp)
  have "r = of_int m * 2 powi (k + 1)"
    by (simp add: assms(1) m(1) power_int_add)
  with m(2) assms(3) show ?thesis by (intro rnd_exact_less[of r m "k + 1"]) auto
qed

lemma rnd_int_exact: "\<bar>n\<bar> \<le> 2 ^ 53 \<Longrightarrow> rnd (of_int n) = of_int n"
  by (rule rnd_exact[of _ n 0]) simp_all

lemma rnd_powi_le:
  assumes "0 < r" "r \<le> 2 powi k" "qexp r \<le> k"
  shows "rnd r \<le> 2 powi k"
proof -
  have "r / quantum r \<le> 2 powi (k - qexp r)"
    using assms by (simp add: quantum_def power_int_diff divide_right_mono del: power_int_add_numeral)
  also have "\<dots> = of_int (2 ^ nat (k - qexp r))"
    using assms(3) by (simp add: power_int_nonneg_exp)
  finally have "rne (r / quantum r) \<le> 2 ^ nat (k - qexp r)"
    using rne_mono rne_of_int by metis
  then have "rat_of_int (rne (r / quantum r)) \<le> 2 powi (k - qexp r)"
    using assms(3) by (simp add: power_int_nonneg_exp)
  then show ?thesis using assms(1)
    by (simp add: rnd_def quantum_def power_int_diff field_simps)
qed

lemma rnd_powi_ge:
  assumes "0 < r" "2 powi k \<le> r" "qexp r \<le> k"
  shows "2 powi k \<le> rnd r"
proof -
  have "of_int (2 ^ nat (k - qexp r)) = 2 powi (k - qexp r)"
    using assms(3) by (simp add: power_int_nonneg_exp)
  also have "\<dots> \<le> r / quantum r"
    using assms by (simp add: quantum_def power_int_diff divide_right_mono del: power_int_add_numeral)
  finally have "2 ^ nat (k - qexp r) \<le> rne (r / quantum r)"
    using rne_mono rne_of_int by metis
  then have "2 powi (k - qexp r) \<le> rat_of_int (rne (r / quantum r))"
    using assms(3) by (simp add: power_int_nonneg_exp)
  then show ?thesis using assms(1)
    by (simp add: rnd_def quantum_def power_int_diff field_simps)
qed

lemma rnd_mono_pos:
  assumes "0 < r" "r \<le> s"
  shows "rnd r \<le> rnd s"
proof (cases "qexp r = qexp s")
  case True
  have "rne (r / quantum r) \<le> rne (s / quantum s)"
    using assms True by (intro rne_mono) (simp add: quantum_def divide_right_mono)
  then show ?thesis
    using assms True by (simp add: rnd_def quantum_def mult_right_mono)
next
  case False
  have il: "ilog2 r \<le> ilog2 s" using assms by (rule ilog2_mono)
  with False assms have k: "qexp s = ilog2 s - 52" "qexp r < qexp s"
    by (auto simp: qexp_def)
  then have "ilog2 r < ilog2 s" using assms by (auto simp: qexp_def)
  then have "r \<le> 2 powi ilog2 s"
    using ilog2_bounds(2)[of r] powi2_le_iff[of "ilog2 r + 1" "ilog2 s"] assms(1) by linarith
  then have "rnd r \<le> 2 powi ilog2 s"
    using assms k by (intro rnd_powi_le) auto
  also have "\<dots> \<le> rnd s"
    using assms k ilog2_bounds(1)[of s] by (intro rnd_powi_ge) auto
  finally show ?thesis .
qed

lemma rnd_nonneg: "0 \<le> r \<Longrightarrow> 0 \<le> rnd r"
proof (cases "r = 0")
  case False
  assume "0 \<le> r"
  then have "0 \<le> r / quantum r" by (simp add: quantum_def less_imp_le)
  then have "0 \<le> rne (r / quantum r)" using rne_mono[of 0] by simp
  then show ?thesis by (simp add: rnd_def quantum_def less_imp_le)
qed simp

lemma rnd_mono: "r \<le> s \<Longrightarrow> rnd r \<le> rnd s"
proof -
  assume rs: "r \<le> s"
  consider "0 < r" | "r \<le> 0" "0 \<le> s" | "s < 0" by linarith
  then show ?thesis
  proof cases
    case 2
    then show ?thesis using rnd_nonneg[of s] rnd_nonneg[of "- r"] by simp
  next
    case 3
    then have "rnd (- s) \<le> rnd (- r)" using rs by (intro rnd_mono_pos) auto
    then show ?thesis by simp
  qed (use rs rnd_mono_pos in auto)
qed

lemma rnd_pos_iff_small: "0 < r \<Longrightarrow> 2 powi (- 1074) \<le> r \<Longrightarrow> 0 < rnd r"
proof -
  assume r: "0 < r" "2 powi (- 1074) \<le> r"
  then have "- 1074 \<le> ilog2 r" by (intro ilog2_ge)
  then have "2 powi ilog2 r \<le> rnd r"
    using r ilog2_bounds(1)[of r] by (intro rnd_powi_ge) (auto simp: qexp_def)
  then show ?thesis using powi2_pos[of "ilog2 r"] by linarith
qed

lemma rnd_rnd [simp]: "rnd (rnd r) = rnd r"
proof (cases "r = 0")
  case False
  let ?n = "rne (r / quantum r)"
  have "\<bar>r\<bar> < 2 powi (ilog2 \<bar>r\<bar> + 1)" using False by (intro ilog2_bounds) simp
  also have "\<dots> \<le> 2 powi (qexp r + 53)"
    by (simp only: powi2_le_iff) (simp add: qexp_def)
  finally have "\<bar>r / quantum r\<bar> \<le> of_int (2 ^ 53)"
    by (simp add: quantum_def power_int_add field_simps)
  then have "r / quantum r \<le> of_int (2 ^ 53)" "of_int (- (2 ^ 53)) \<le> r / quantum r"
    by (auto simp: abs_le_iff minus_le_iff simp del: abs_divide)
  then have "?n \<le> 2 ^ 53" "- (2 ^ 53) \<le> ?n"
    by (metis rne_mono rne_of_int)+
  then have "\<bar>?n\<bar> \<le> 2 ^ 53" by linarith
  moreover have "rnd r = of_int ?n * 2 powi qexp r"
    using False by (simp add: rnd_def quantum_def)
  ultimately show ?thesis by (intro rnd_exact) (auto simp: qexp_def)
qed simp


section \<open>Order and monotonicity of the operations\<close>

lemma mk_simps: "mk s r = (if rnd r = 0 then (if s then NZero else Fin 0)
   else if 1024 \<le> ilog2 \<bar>rnd r\<bar> then (if rnd r < 0 then NInf else PInf) else Fin (rnd r))"
  by (simp add: mk_def Let_def)

lemma mk_not_nan [simp]: "mk s r \<noteq> NaN" "\<not> is_nan (mk s r)"
  by (auto simp: mk_simps)

lemma is_nan_iff: "is_nan x \<longleftrightarrow> x = NaN"
  by (cases x) auto

lemma is_finite_cases: "is_finite x \<Longrightarrow> x = NZero \<or> (\<exists>r. x = Fin r)"
  by (cases x) auto

lemma mk_mono:
  assumes "r \<le> s" shows "mk a r \<le> mk b s"
proof -
  have m: "rnd r \<le> rnd s" using assms by (rule rnd_mono)
  have p: "ilog2 (rnd r) \<le> ilog2 (rnd s)" if "0 < rnd r" using that m by (rule ilog2_mono)
  have n: "ilog2 (- rnd s) \<le> ilog2 (- rnd r)" if "rnd s < 0" using that m by (intro ilog2_mono) auto
  show ?thesis
    by (cases "0 < rnd r"; cases "rnd s < 0") (use m p n in \<open>auto simp: mk_simps\<close>)
qed

lemma f_le_refl: "x \<noteq> NaN \<Longrightarrow> x \<le> (x::f64)"
  by (cases x) auto

lemma f_le_trans: "x \<le> y \<Longrightarrow> y \<le> z \<Longrightarrow> x \<le> (z::f64)"
  by (cases x; cases y; cases z) auto

lemma f_less_le_trans: "x < y \<Longrightarrow> y \<le> z \<Longrightarrow> x < (z::f64)"
  by (cases x; cases y; cases z) auto

lemma f_le_less_trans: "x \<le> y \<Longrightarrow> y < z \<Longrightarrow> x < (z::f64)"
  by (cases x; cases y; cases z) auto

lemma f_less_trans: "x < y \<Longrightarrow> y < z \<Longrightarrow> x < (z::f64)"
  by (cases x; cases y; cases z) auto

lemma f_less_imp_le: "x < y \<Longrightarrow> x \<le> (y::f64)"
  by (cases x; cases y) auto

lemma f_not_less: "x \<noteq> NaN \<Longrightarrow> y \<noteq> NaN \<Longrightarrow> \<not> x < (y::f64) \<longleftrightarrow> y \<le> x"
  by (cases x; cases y) auto

lemma f_not_le: "x \<noteq> NaN \<Longrightarrow> y \<noteq> NaN \<Longrightarrow> \<not> x \<le> (y::f64) \<longleftrightarrow> y < x"
  by (cases x; cases y) auto

lemma f_le_not_nan: "x \<le> (y::f64) \<Longrightarrow> x \<noteq> NaN \<and> y \<noteq> NaN"
  by (cases x; cases y) auto

lemma f_less_not_nan: "x < (y::f64) \<Longrightarrow> x \<noteq> NaN \<and> y \<noteq> NaN"
  by (cases x; cases y) auto

lemma f_less_irrefl [simp]: "\<not> x < (x::f64)"
  by (cases x) auto

lemma f_less_not_le: "x < y \<Longrightarrow> \<not> y \<le> (x::f64)"
  by (cases x; cases y) auto

lemma NInf_le [simp]: "NInf \<le> x \<longleftrightarrow> x \<noteq> NaN"
  by (cases x) auto

lemma le_PInf [simp]: "x \<le> PInf \<longleftrightarrow> x \<noteq> NaN"
  by (cases x) auto

lemma add_finite: "is_finite x \<Longrightarrow> is_finite y \<Longrightarrow>
   x + y = mk (x = NZero \<and> y = NZero) (val x + val y)"
  by (cases x; cases y) auto

lemma add_not_nan: "x \<noteq> NaN \<Longrightarrow> is_finite c \<Longrightarrow> x + c \<noteq> NaN"
  by (cases x; cases c) auto

lemma add_mono_left:
  assumes "x \<le> y" "is_finite c" shows "x + c \<le> y + (c::f64)"
  using assms by (cases x; cases y; cases c) (auto intro!: mk_mono)

lemma add_commute_f64: "x + y = y + (x::f64)"
  by (cases x; cases y) (auto simp: add.commute conj_commute)

lemma add_mono_right: "x \<le> y \<Longrightarrow> is_finite c \<Longrightarrow> c + x \<le> c + (y::f64)"
  by (metis add_commute_f64 add_mono_left)

lemma add_mono_f64:
  assumes "a \<le> b" "c \<le> d" "a + c \<noteq> NaN" "b + d \<noteq> NaN" shows "a + c \<le> b + (d::f64)"
  using assms by (cases a; cases b; cases c; cases d) (auto intro!: mk_mono f_le_refl add_mono)

lemma uminus_le_iff: "- x \<le> - y \<longleftrightarrow> y \<le> (x::f64)"
  by (cases x; cases y) auto

lemma sub_mono_left: "x \<le> y \<Longrightarrow> is_finite c \<Longrightarrow> x - c \<le> y - (c::f64)"
  unfolding minus_f64_def by (rule add_mono_left) (cases c; auto)+

lemma sub_mono_right: "x \<le> y \<Longrightarrow> is_finite c \<Longrightarrow> c - y \<le> c - (x::f64)"
  unfolding minus_f64_def by (rule add_mono_right) (auto simp: uminus_le_iff)


lemma mul_not_nan: "x \<noteq> NaN \<Longrightarrow> 0 < c \<Longrightarrow> is_finite c \<Longrightarrow> x * c \<noteq> NaN"
  by (cases x; cases c) (auto simp: times_f64_def zero_f64_def Let_def is_nan_iff)

lemma mul_mono_left:
  assumes "x \<le> y" "is_finite c" "0 < c" shows "x * c \<le> y * (c::f64)"
  using assms
  by (cases x; cases y; cases c)
     (auto simp: times_f64_def zero_f64_def Let_def intro!: mk_mono mult_right_mono
        elim!: order_trans[OF mult_nonpos_nonneg] mult_nonneg_nonneg)

lemma mul_commute_f64: "x * y = y * (x::f64)"
  by (cases x; cases y) (auto simp: times_f64_def Let_def mult.commute intro!: arg_cong2[where f = mk])

lemma mul_mono_right: "x \<le> y \<Longrightarrow> is_finite c \<Longrightarrow> 0 < c \<Longrightarrow> c * x \<le> c * (y::f64)"
  by (metis mul_commute_f64 mul_mono_left)

lemma div_not_nan: "x \<noteq> NaN \<Longrightarrow> 0 < c \<Longrightarrow> is_finite c \<Longrightarrow> x / c \<noteq> NaN"
  by (cases x; cases c) (auto simp: divide_f64_def zero_f64_def Let_def is_nan_iff)

lemma div_mono_left:
  assumes "x \<le> y" "is_finite c" "0 < c" shows "x / c \<le> y / (c::f64)"
  using assms
  by (cases x; cases y; cases c)
     (auto simp: divide_f64_def zero_f64_def Let_def divide_right_mono divide_nonpos_pos intro!: mk_mono)

lemma f_abs_nonneg: "x \<noteq> NaN \<Longrightarrow> 0 \<le> \<bar>x :: f64\<bar>"
  by (cases x) (auto simp: zero_f64_def)

lemma f_abs_not_nan [simp]: "\<bar>x :: f64\<bar> = NaN \<longleftrightarrow> x = NaN"
  by (cases x) auto

lemma f_abs_uminus [simp]: "\<bar>- x\<bar> = \<bar>x :: f64\<bar>"
  by (cases x) auto

lemma fmin_le1: "x \<noteq> NaN \<Longrightarrow> fmin x y \<le> x"
  by (auto simp: fmin_def is_nan_iff f_le_refl intro: f_less_imp_le)

lemma fmin_le2: "y \<noteq> NaN \<Longrightarrow> fmin x y \<le> y"
  by (auto simp: fmin_def is_nan_iff f_le_refl f_not_less)

lemma fmin_greatest: "z \<le> x \<Longrightarrow> z \<le> y \<Longrightarrow> z \<le> fmin x y"
  by (auto simp: fmin_def)

lemma fmax_ge1: "x \<noteq> NaN \<Longrightarrow> x \<le> fmax x y"
  by (auto simp: fmax_def is_nan_iff f_le_refl intro: f_less_imp_le)

lemma fmax_ge2: "y \<noteq> NaN \<Longrightarrow> y \<le> fmax x y"
  by (auto simp: fmax_def is_nan_iff f_le_refl f_not_less)

lemma fmax_least: "x \<le> z \<Longrightarrow> y \<le> z \<Longrightarrow> fmax x y \<le> z"
  by (auto simp: fmax_def)

lemma fmin_not_nan: "y \<noteq> NaN \<Longrightarrow> fmin x y \<noteq> NaN"
  by (auto simp: fmin_def is_nan_iff)

lemma trunc_rat_mono: "r \<le> s \<Longrightarrow> trunc_rat r \<le> trunc_rat s"
  by (auto simp: trunc_rat_def floor_mono ceiling_mono)
     (metis ceiling_le_zero dual_order.trans le_cases zero_le_floor)

lemma trunc_rat_nonpos: "r \<le> 0 \<Longrightarrow> trunc_rat r \<le> 0"
  using trunc_rat_mono[of r 0] by (simp add: trunc_rat_def)

lemma to_unsigned_mono: "x \<le> y \<Longrightarrow> to_unsigned w x \<le> to_unsigned w y"
  by (cases x; cases y) (auto simp: trunc_rat_mono trunc_rat_nonpos min.coboundedI1 max.coboundedI2)

lemma to_unsigned_bound: "0 \<le> to_unsigned w x \<and> to_unsigned w x \<le> 2 ^ w - 1"
  by (cases x) auto

section \<open>Representability and exact values\<close>

lemma is_f64_mk [simp]: "is_f64 (mk s r)"
  by (auto simp: mk_simps)

lemma is_f64_uminus [simp]: "is_f64 (- x) = is_f64 x"
  by (cases x) auto

lemma is_f64_add [simp]: "is_f64 (x + y)"
  by (cases x; cases y) auto

lemma is_f64_sub [simp]: "is_f64 (x - y)"
  by (simp add: minus_f64_def)

lemma is_f64_mul [simp]: "is_f64 (x * y)"
  by (simp add: times_f64_def Let_def)

lemma is_f64_div [simp]: "is_f64 (x / y)"
  by (simp add: divide_f64_def Let_def)

lemma mk_Fin: "is_f64 (Fin r) \<Longrightarrow> r \<noteq> 0 \<Longrightarrow> mk s r = Fin r"
  by (auto simp: mk_simps)

lemma mk_0: "mk s 0 = (if s then NZero else Fin 0)"
  by (simp add: mk_simps)

lemma mk_int: "\<bar>n\<bar> \<le> 2 ^ 53 \<Longrightarrow> n \<noteq> 0 \<Longrightarrow> mk s (of_int n) = Fin (of_int n)"
proof -
  assume n: "\<bar>n\<bar> \<le> 2 ^ 53" "n \<noteq> 0"
  have "\<bar>rat_of_int n\<bar> \<le> 2 ^ 53"
    using n by (metis of_int_abs of_int_le_iff of_int_numeral of_int_power)
  then have "\<bar>rat_of_int n\<bar> < 2 powi 1024"
    by (rule order.strict_trans1) simp
  then have "ilog2 \<bar>rat_of_int n\<bar> < 1024" using n by (intro ilog2_less) auto
  then show ?thesis using n rnd_int_exact[of n] by (intro mk_Fin) auto
qed

lemma lit_mono: "r \<le> s \<Longrightarrow> lit r \<le> lit s"
  by (simp add: lit_def mk_mono)

lemma lit_not_nan [simp]: "lit r \<noteq> NaN"
  by (simp add: lit_def)

lemma lit_0 [simp]: "lit 0 = 0"
  by (simp add: lit_def mk_0 zero_f64_def)

lemma lit_int: "\<bar>n\<bar> \<le> 2 ^ 53 \<Longrightarrow> lit (of_int n) = Fin (of_int n)"
  by (cases "n = 0") (simp_all add: lit_def mk_int mk_0)

lemma lit_numeral [simp]: "numeral n \<le> (2 ^ 53 :: int) \<Longrightarrow> lit (numeral n) = Fin (numeral n)"
  using lit_int[of "numeral n"] by simp

lemma lit_1 [simp]: "lit 1 = 1"
  using lit_int[of 1] by (simp add: one_f64_def)

lemma one_not_nan [simp]: "(1 :: f64) \<noteq> NaN" "NaN \<noteq> (1 :: f64)"
  by (simp_all add: one_f64_def)

lemma zero_not_nan [simp]: "(0 :: f64) \<noteq> NaN" "NaN \<noteq> (0 :: f64)"
  by (simp_all add: zero_f64_def)

lemma fmin_mono: "x \<le> y \<Longrightarrow> c \<noteq> NaN \<Longrightarrow> fmin x c \<le> fmin y c"
  by (cases x; cases y; cases c) (auto simp: fmin_def)

lemma fclamp_mono:
  assumes "x \<le> y" "lo \<le> hi" shows "fclamp x lo hi \<le> fclamp y lo hi"
proof -
  have n: "x \<noteq> NaN" "y \<noteq> NaN" "lo \<noteq> NaN" "hi \<noteq> NaN" using assms f_le_not_nan by blast+
  show ?thesis
    using assms n by (auto simp: fclamp_def f_not_less f_le_refl
        dest: f_less_imp_le f_less_le_trans f_le_less_trans)
qed

lemma f64_as_u8_mono:
  assumes "x \<le> y" shows "f64_as_u8 x \<le> f64_as_u8 y"
proof -
  have "to_unsigned 8 x \<le> to_unsigned 8 y" "0 \<le> to_unsigned 8 x" "to_unsigned 8 y < 256"
    using to_unsigned_mono[OF assms, of 8] to_unsigned_bound[of 8 x] to_unsigned_bound[of 8 y]
    by auto
  then show ?thesis by (simp add: f64_as_u8_def word_le_def uint_word_of_int)
qed

lemma uminus_mk: "- mk s r = mk (\<not> s) (- r)"
  by (auto simp: mk_simps)

lemma sub_finite:
  assumes "is_finite x" "is_finite y"
  shows "\<exists>s. x - y = mk s (val x - val y)"
proof -
  have "is_finite (- y)" "val (- y) = - val y" using assms(2) by (cases y; simp)+
  with assms(1) show ?thesis unfolding minus_f64_def by (auto simp: add_finite)
qed

lemma mk_False_Fin: "is_f64 (Fin r) \<Longrightarrow> mk False r = Fin r"
  by (cases "r = 0") (auto simp: mk_0 mk_Fin simp del: is_f64.simps)

lemma sub_zero: "is_f64 x \<Longrightarrow> is_finite x \<Longrightarrow> x - 0 = x"
  by (cases x) (auto simp: minus_f64_def zero_f64_def mk_0 mk_False_Fin simp del: is_f64.simps)

lemma zero_sub: "is_f64 x \<Longrightarrow> is_finite x \<Longrightarrow> feq (0 - x) (- x)"
proof (cases x)
  case (Fin r)
  assume "is_f64 x"
  with Fin have "mk False (- r) = Fin (- r)" if "r \<noteq> 0"
    using that by (intro mk_Fin) auto
  then show ?thesis using Fin by (auto simp: minus_f64_def zero_f64_def feq_def mk_0)
qed (auto simp: minus_f64_def zero_f64_def feq_def mk_0)

lemma finite_between: "l \<le> x \<Longrightarrow> x \<le> u \<Longrightarrow> is_finite l \<Longrightarrow> is_finite u \<Longrightarrow> is_finite x"
  by (cases l; cases x; cases u) auto

text \<open>The difference of two non-negative finite numbers does not overflow.\<close>

lemma sub_nonneg_finite:
  assumes "is_f64 a" "is_f64 b" "is_finite a" "is_finite b" "0 \<le> a" "0 \<le> b"
  shows "is_finite (b - a)"
proof (rule finite_between)
  show "0 - a \<le> b - a" using assms by (intro sub_mono_left)
  have "b - a \<le> b - 0" using assms by (intro sub_mono_right)
  then show "b - a \<le> b" using assms by (simp add: sub_zero)
  show "is_finite (0 - a)"
    using zero_sub[OF assms(1,3)] assms(3)
    by (cases a; cases "0 - a") (auto simp: feq_def split: if_splits)
qed fact

lemma sub_nonneg: "y \<le> x \<Longrightarrow> is_finite x \<Longrightarrow> is_finite y \<Longrightarrow> 0 \<le> x - y"
proof -
  assume a: "y \<le> x" "is_finite x" "is_finite y"
  then obtain s where "x - y = mk s (val x - val y)" using sub_finite by blast
  moreover have "mk False 0 \<le> mk s (val x - val y)"
    using a by (intro mk_mono) (cases x; cases y; auto)
  ultimately show ?thesis by (simp add: mk_0 zero_f64_def)
qed

text \<open>Ratios and percentages.\<close>

lemma div_le_1:
  assumes "x \<le> y" "0 < y" "is_finite x" shows "x / y \<le> 1"
proof (cases "is_finite y")
  case True
  then have "x / y \<le> y / y" using assms by (intro div_mono_left)
  moreover have "y / y = 1"
    using True assms mk_int[of 1 False] by (cases y) (auto simp: divide_f64_def zero_f64_def one_f64_def)
  ultimately show ?thesis by simp
next
  case False
  with assms have "y = PInf" by (cases y) (auto simp: zero_f64_def)
  with assms(3) show ?thesis by (cases x) (auto simp: divide_f64_def one_f64_def Let_def)
qed

lemma div_nonneg:
  assumes "0 \<le> x" "0 < y" "is_finite x" shows "0 \<le> x / y"
proof (cases "is_finite y")
  case True
  have "0 / y = 0 \<or> 0 / y = NZero"
    using True assms(2) by (cases y) (auto simp: divide_f64_def zero_f64_def mk_0)
  moreover have "0 / y \<le> x / y" using assms True by (intro div_mono_left)
  ultimately show ?thesis by (cases "x / y") (auto simp: zero_f64_def)
next
  case False
  with assms have "y = PInf" by (cases y) (auto simp: zero_f64_def)
  with assms(3) show ?thesis by (cases x) (auto simp: divide_f64_def zero_f64_def Let_def)
qed

lemma mul_100_range:
  assumes "0 \<le> x" "x \<le> 1" shows "0 \<le> x * lit 100" "x * lit 100 \<le> lit 100"
proof -
  have "0 * lit 100 \<le> x * lit 100" "x * lit 100 \<le> 1 * lit 100"
    using assms by (auto intro!: mul_mono_left simp: zero_f64_def)
  moreover have "0 * lit 100 = 0" "1 * lit 100 = lit 100" by code_simp+
  ultimately show "0 \<le> x * lit 100" "x * lit 100 \<le> lit 100" by simp_all
qed

lemma nat_as_f64_mono: "m \<le> n \<Longrightarrow> nat_as_f64 m \<le> nat_as_f64 n"
  unfolding nat_as_f64_def by (rule mk_mono) simp

lemma nat_as_f64_nonneg: "0 \<le> nat_as_f64 n"
  using nat_as_f64_mono[of 0 n] by (simp add: nat_as_f64_def mk_0 zero_f64_def)

lemma nat_as_f64_pos: "0 < n \<Longrightarrow> 0 < nat_as_f64 n"
proof -
  assume "0 < n"
  then have "nat_as_f64 1 \<le> nat_as_f64 n" by (intro nat_as_f64_mono) simp
  moreover have "0 < nat_as_f64 1" by code_simp
  ultimately show ?thesis using f_less_le_trans by blast
qed

lemma nat_as_f64_finite:
  assumes "n \<le> 2 ^ 64" shows "is_finite (nat_as_f64 n)"
proof (rule finite_between[OF nat_as_f64_nonneg])
  show "nat_as_f64 n \<le> mk False (2 ^ 64)"
    unfolding nat_as_f64_def using assms by (intro mk_mono) (metis of_nat_le_iff of_nat_numeral of_nat_power)
  show "is_finite (mk False (2 ^ 64))" by code_simp
qed (simp add: zero_f64_def)

text \<open>Gradual underflow: the difference of different values does not round to zero.\<close>

lemma rnd_multiple:
  assumes "rnd r = r" shows "\<exists>n. r = of_int n * 2 powi (- 1074)"
proof (cases "r = 0")
  case False
  let ?k = "nat (qexp r + 1074)"
  have "- 1074 \<le> qexp r" by (simp add: qexp_def)
  then have k: "qexp r = int ?k + (- 1074)" by simp
  have "quantum r = of_int (2 ^ ?k) * 2 powi (- 1074)"
    unfolding quantum_def by (subst k) (simp only: power_int_add power_int_of_nat of_int_power
        of_int_numeral zero_neq_numeral[symmetric] simp_thms)
  moreover have "r = of_int (rne (r / quantum r)) * quantum r" using assms False by (simp add: rnd_def)
  ultimately have "r = of_int (rne (r / quantum r) * 2 ^ ?k) * 2 powi (- 1074)"
    by (simp only: of_int_mult mult.assoc)
  then show ?thesis by blast
qed (auto intro: exI[of _ 0])

lemma is_f64_val: "is_f64 x \<Longrightarrow> rnd (val x) = val x"
  by (cases x) auto

lemma sub_pos:
  assumes "is_f64 x" "is_f64 y" "y < x" "is_finite x" "is_finite y"
  shows "0 < x - y"
proof -
  obtain m n where "val x = of_int m * 2 powi (- 1074)" "val y = of_int n * 2 powi (- 1074)"
    using rnd_multiple[OF is_f64_val] assms(1,2) by blast
  moreover have lt: "val y < val x" using assms(3-5) by (cases x; cases y; simp)
  ultimately have "1 \<le> m - n" "val x - val y = of_int (m - n) * 2 powi (- 1074)"
    by (auto simp: left_diff_distrib)
  then have "2 powi (- 1074) \<le> val x - val y"
    using mult_right_mono[of 1 "of_int (m - n)" "2 powi (- 1074) :: rat"] by simp
  with rnd_pos_iff_small lt have "0 < rnd (val x - val y)" by simp
  moreover obtain s where "x - y = mk s (val x - val y)" using sub_finite[OF assms(4,5)] by blast
  ultimately show ?thesis by (simp add: mk_simps zero_f64_def)
qed

end
