(* ===== verification/Types.thy ===== *)
theory Types
  imports F64
begin

text \<open>
  The data model of src/src/strategy/types.rs: one record per struct (its fields in the struct's
  order, prefixed with the struct's initials; cache-line padding has no content and is left out),
  one datatype per enum, and the methods of the structs.
\<close>

section \<open>Market updates\<close>

record market_update =
  mu_bid :: f64
  mu_ask :: f64
  mu_timestamp_us :: u64
  mu_symbol_id :: u32

definition MarketUpdate_new :: "u32 \<Rightarrow> f64 \<Rightarrow> f64 \<Rightarrow> u64 \<Rightarrow> market_update" where
  "MarketUpdate_new symbol_id bid ask timestamp_us =
     \<lparr>mu_bid = bid, mu_ask = ask, mu_timestamp_us = timestamp_us, mu_symbol_id = symbol_id\<rparr>"

definition MarketUpdate_spread_bps :: "market_update \<Rightarrow> f64" where
  "MarketUpdate_spread_bps u = ((mu_ask u - mu_bid u) / mu_bid u) * lit 10000"

definition MarketUpdate_mid_price :: "market_update \<Rightarrow> f64" where
  "MarketUpdate_mid_price u = (mu_bid u + mu_ask u) / lit 2"

section \<open>The static symbol table\<close>

definition SYMBOL_TO_ID :: "string \<rightharpoonup> u32" where
  "SYMBOL_TO_ID = [
     ''BTCUSDT'' \<mapsto> 1, ''ETHUSDT'' \<mapsto> 2, ''SOLUSDT'' \<mapsto> 3, ''BNBUSDT'' \<mapsto> 4, ''XRPUSDT'' \<mapsto> 5,
     ''ADAUSDT'' \<mapsto> 6, ''DOGEUSDT'' \<mapsto> 7, ''MATICUSDT'' \<mapsto> 8, ''DOTUSDT'' \<mapsto> 9, ''AVAXUSDT'' \<mapsto> 10]"

definition ID_TO_SYMBOL :: "string list" where
  "ID_TO_SYMBOL = ['''', ''BTCUSDT'', ''ETHUSDT'', ''SOLUSDT'', ''BNBUSDT'', ''XRPUSDT'',
     ''ADAUSDT'', ''DOGEUSDT'', ''MATICUSDT'', ''DOTUSDT'', ''AVAXUSDT'']"

definition symbol_to_id :: "string \<Rightarrow> u32 option" where
  "symbol_to_id symbol = SYMBOL_TO_ID symbol"

definition id_to_symbol :: "u32 \<Rightarrow> string option" where
  "id_to_symbol i =
     (if unat i < length ID_TO_SYMBOL then Some (ID_TO_SYMBOL ! unat i) else None)"

section \<open>Typestate orders\<close>

text \<open>The state parameter of \<open>Order<S>\<close> is a phantom type: it selects which methods exist, and an
  \<open>Order<S>\<close> holds no value of it.  \<open>'s\<close> plays the same part here.\<close>

datatype pending_state = PendingState

record filled_state =
  fs_fill_price :: f64
  fs_fill_time :: u64

record cancelled_state =
  cs_reason :: string

record 's order =
  ord_id :: u64
  ord_symbol_id :: u32
  ord_price :: f64
  ord_size :: f64
  ord_state :: "'s itself"

definition Order_new :: "u64 \<Rightarrow> u32 \<Rightarrow> f64 \<Rightarrow> f64 \<Rightarrow> pending_state order" where
  "Order_new order_id symbol_id price sz =
     \<lparr>ord_id = order_id, ord_symbol_id = symbol_id, ord_price = price, ord_size = sz,
      ord_state = TYPE(pending_state)\<rparr>"

definition Order_fill :: "pending_state order \<Rightarrow> f64 \<Rightarrow> u64 \<Rightarrow> filled_state order" where
  "Order_fill s fill_price fill_time =
     \<lparr>ord_id = ord_id s, ord_symbol_id = ord_symbol_id s, ord_price = ord_price s,
      ord_size = ord_size s, ord_state = TYPE(filled_state)\<rparr>"

definition Order_cancel :: "pending_state order \<Rightarrow> string \<Rightarrow> cancelled_state order" where
  "Order_cancel s reason =
     \<lparr>ord_id = ord_id s, ord_symbol_id = ord_symbol_id s, ord_price = ord_price s,
      ord_size = ord_size s, ord_state = TYPE(cancelled_state)\<rparr>"

definition Order_get_fill_price :: "filled_state order \<Rightarrow> f64" where
  "Order_get_fill_price s = ord_price s"

definition Order_get_reason :: "cancelled_state order \<Rightarrow> string" where
  "Order_get_reason s = ''Order cancelled''"

section \<open>Confluence metrics\<close>

record hard_constraints =
  order_book_depth_sufficient :: bool
  exchange_latency_ok :: bool
  funding_delta_substantial :: bool

definition HardConstraints_passes_all :: "hard_constraints \<Rightarrow> bool" where
  "HardConstraints_passes_all h \<longleftrightarrow>
     order_book_depth_sufficient h \<and> exchange_latency_ok h \<and> funding_delta_substantial h"

record confluence_metrics =
  cm_funding_delta :: f64
  cm_funding_delta_projected :: f64
  cm_obi_ratio :: f64
  cm_oi_current :: f64
  cm_oi_24h_avg :: f64
  cm_vwap_deviation :: f64
  cm_atr :: f64
  cm_atr_trend :: bool
  cm_liquidation_cluster_distance :: f64
  cm_hard_constraints :: hard_constraints

definition calculate_confidence_score :: "confluence_metrics \<Rightarrow> u8" where
  "calculate_confidence_score m =
     (if \<not> HardConstraints_passes_all (cm_hard_constraints m) then 0
      else
        let weights = [lit 9, lit 8, lit 7, lit 6, lit 5, lit 5];
            total_weight = fsum weights;
            score = lit 0;
            funding_score = fmin (\<bar>cm_funding_delta m\<bar> / lit 0.01) (lit 1) * lit 100;
            score = score + (funding_score * weights ! 0) / total_weight;
            obi_score = fmin \<bar>cm_obi_ratio m\<bar> (lit 1) * lit 100;
            score = score + (obi_score * weights ! 1) / total_weight;
            oi_score = (if cm_oi_current m > cm_oi_24h_avg m
                        then (fmin (cm_oi_current m / cm_oi_24h_avg m - lit 1) (lit 0.5) / lit 0.5) * lit 100
                        else lit 0);
            score = score + (oi_score * weights ! 2) / total_weight;
            vwap_score = fmin \<bar>cm_vwap_deviation m\<bar> (lit 3) / lit 3 * lit 100;
            score = score + (vwap_score * weights ! 3) / total_weight;
            atr_score = (if cm_atr_trend m then lit 100 else lit 0);
            score = score + (atr_score * weights ! 4) / total_weight;
            liq_score = (lit 1 - fmin (cm_liquidation_cluster_distance m / lit 100) (lit 1)) * lit 100;
            score = score + (liq_score * weights ! 5) / total_weight
        in min (f64_as_u8 score) 100)"

record queue_position =
  qp_price :: f64
  qp_cumulative_volume_at_price :: f64
  qp_resting_depth_at_entry :: f64
  qp_fill_threshold_pct :: f64
  qp_is_filled :: bool

section \<open>Order requests\<close>

record order_request =
  oreq_order_id :: u64
  oreq_symbol_id :: u32
  oreq_exchange_id :: u8
  oreq_side :: u8
  oreq_order_type :: u8
  oreq_price :: f64
  oreq_size :: f64
  oreq_timestamp_us :: u64

definition OrderRequest_market :: "u64 \<Rightarrow> u32 \<Rightarrow> u8 \<Rightarrow> u8 \<Rightarrow> f64 \<Rightarrow> u64 \<Rightarrow> order_request" where
  "OrderRequest_market order_id symbol_id exchange_id side sz timestamp_us =
     \<lparr>oreq_order_id = order_id, oreq_symbol_id = symbol_id, oreq_exchange_id = exchange_id,
      oreq_side = side, oreq_order_type = 0, oreq_price = lit 0, oreq_size = sz,
      oreq_timestamp_us = timestamp_us\<rparr>"

definition OrderRequest_limit ::
  "u64 \<Rightarrow> u32 \<Rightarrow> u8 \<Rightarrow> u8 \<Rightarrow> f64 \<Rightarrow> f64 \<Rightarrow> u64 \<Rightarrow> order_request" where
  "OrderRequest_limit order_id symbol_id exchange_id side price sz timestamp_us =
     \<lparr>oreq_order_id = order_id, oreq_symbol_id = symbol_id, oreq_exchange_id = exchange_id,
      oreq_side = side, oreq_order_type = 1, oreq_price = price, oreq_size = sz,
      oreq_timestamp_us = timestamp_us\<rparr>"

definition OrderRequest_is_market :: "order_request \<Rightarrow> bool" where
  "OrderRequest_is_market r \<longleftrightarrow> oreq_order_type r = 0"

definition OrderRequest_is_limit :: "order_request \<Rightarrow> bool" where
  "OrderRequest_is_limit r \<longleftrightarrow> oreq_order_type r = 1"

definition OrderRequest_is_buy :: "order_request \<Rightarrow> bool" where
  "OrderRequest_is_buy r \<longleftrightarrow> oreq_side r = 0"

definition OrderRequest_is_sell :: "order_request \<Rightarrow> bool" where
  "OrderRequest_is_sell r \<longleftrightarrow> oreq_side r = 1"

section \<open>Orders, statuses and trades\<close>

datatype order_side = Long | Short

datatype order_type = Limit | Market

datatype order_status = Pending | Filled | Cancelled

record order_status_info =
  osi_status :: order_status
  osi_filled_quantity :: f64
  osi_total_quantity :: f64

definition OrderStatusInfo_new :: "order_status \<Rightarrow> f64 \<Rightarrow> f64 \<Rightarrow> order_status_info" where
  "OrderStatusInfo_new status filled_quantity total_quantity =
     \<lparr>osi_status = status, osi_filled_quantity = filled_quantity,
      osi_total_quantity = total_quantity\<rparr>"

definition is_fully_filled :: "order_status_info \<Rightarrow> bool" where
  "is_fully_filled s \<longleftrightarrow> osi_status s = Filled \<and> osi_filled_quantity s \<ge> osi_total_quantity s"

definition is_partially_filled :: "order_status_info \<Rightarrow> bool" where
  "is_partially_filled s \<longleftrightarrow>
     osi_filled_quantity s > lit 0 \<and> osi_filled_quantity s < osi_total_quantity s"

definition fill_percentage :: "order_status_info \<Rightarrow> f64" where
  "fill_percentage s =
     (if osi_total_quantity s > lit 0
      then (osi_filled_quantity s / osi_total_quantity s) * lit 100 else lit 0)"

record simulated_order =
  so_id :: string
  so_exchange :: string
  so_symbol :: string
  so_side :: order_side
  so_order_type :: order_type
  so_price :: f64
  so_size :: f64
  so_queue_position :: "queue_position option"
  so_created_at :: u64
  so_filled_at :: "u64 option"
  so_fill_price :: "f64 option"
  so_status :: order_status

record arbitrage_opportunity =
  ao_symbol :: string
  ao_long_exchange :: string
  ao_short_exchange :: string
  ao_long_price :: f64
  ao_short_price :: f64
  ao_spread_bps :: f64
  ao_funding_delta_8h :: f64
  ao_confidence_score :: u8
  ao_projected_profit_usd :: f64
  ao_projected_profit_after_slippage :: f64
  ao_metrics :: confluence_metrics
  ao_order_book_depth_long :: f64
  ao_order_book_depth_short :: f64
  ao_timestamp :: "u64 option"

datatype trade_status = TradePending | Active | Exiting | Closed

record leg_out_event =
  lo_filled_leg :: string
  lo_filled_at :: u64
  lo_unfilled_leg :: string
  lo_hedge_executed :: bool
  lo_hedge_price :: f64

record paper_trade =
  pt_id :: string
  pt_symbol :: string
  pt_long_exchange :: string
  pt_short_exchange :: string
  pt_entry_time :: u64
  pt_entry_long_price :: f64
  pt_entry_short_price :: f64
  pt_entry_spread_bps :: f64
  pt_position_size_usd :: f64
  pt_funding_delta_entry :: f64
  pt_projected_profit_usd :: f64
  pt_actual_profit_usd :: f64
  pt_status :: trade_status
  pt_exit_reason :: "string option"
  pt_exit_spread_bps :: "f64 option"
  pt_exit_time :: "u64 option"
  pt_long_order :: simulated_order
  pt_short_order :: simulated_order
  pt_long_exit_order :: "simulated_order option"
  pt_short_exit_order :: "simulated_order option"
  pt_stop_loss_triggered :: bool
  pt_stop_loss_long_price :: f64
  pt_stop_loss_short_price :: f64
  pt_leg_out_event :: "leg_out_event option"

section \<open>Portfolio state\<close>

record portfolio_state =
  ps_starting_capital :: f64
  ps_available_capital :: f64
  ps_total_open_positions :: f64
  ps_active_trades :: "paper_trade list"
  ps_closed_trades :: "paper_trade list"
  ps_cumulative_pnl :: f64
  ps_win_count :: u64
  ps_loss_count :: u64
  ps_leg_out_count :: u64
  ps_leg_out_total_loss :: f64
  ps_last_updated :: u64

definition PortfolioState_new :: "f64 \<Rightarrow> portfolio_state" where
  "PortfolioState_new starting_capital =
     \<lparr>ps_starting_capital = starting_capital, ps_available_capital = starting_capital,
      ps_total_open_positions = lit 0, ps_active_trades = [], ps_closed_trades = [],
      ps_cumulative_pnl = lit 0, ps_win_count = 0, ps_loss_count = 0, ps_leg_out_count = 0,
      ps_leg_out_total_loss = lit 0, ps_last_updated = 0\<rparr>"

definition increment_wins :: "portfolio_state \<Rightarrow> portfolio_state" where
  "increment_wins s = s\<lparr>ps_win_count := ps_win_count s + 1\<rparr>"

definition increment_losses :: "portfolio_state \<Rightarrow> portfolio_state" where
  "increment_losses s = s\<lparr>ps_loss_count := ps_loss_count s + 1\<rparr>"

definition increment_leg_outs :: "portfolio_state \<Rightarrow> portfolio_state" where
  "increment_leg_outs s = s\<lparr>ps_leg_out_count := ps_leg_out_count s + 1\<rparr>"

record serializable_portfolio_state =
  sps_starting_capital :: f64
  sps_available_capital :: f64
  sps_total_open_positions :: f64
  sps_active_trades :: "paper_trade list"
  sps_closed_trades :: "paper_trade list"
  sps_cumulative_pnl :: f64
  sps_win_count :: u64
  sps_loss_count :: u64
  sps_leg_out_count :: u64
  sps_leg_out_total_loss :: f64
  sps_last_updated :: u64

definition to_serializable :: "portfolio_state \<Rightarrow> serializable_portfolio_state" where
  "to_serializable s =
     \<lparr>sps_starting_capital = ps_starting_capital s, sps_available_capital = ps_available_capital s,
      sps_total_open_positions = ps_total_open_positions s, sps_active_trades = ps_active_trades s,
      sps_closed_trades = ps_closed_trades s, sps_cumulative_pnl = ps_cumulative_pnl s,
      sps_win_count = ps_win_count s, sps_loss_count = ps_loss_count s,
      sps_leg_out_count = ps_leg_out_count s, sps_leg_out_total_loss = ps_leg_out_total_loss s,
      sps_last_updated = ps_last_updated s\<rparr>"

record portfolio_metrics =
  pm_total_trades :: u64
  pm_win_rate :: f64
  pm_cumulative_pnl :: f64
  pm_pnl_percentage :: f64
  pm_available_capital :: f64
  pm_utilization_pct :: f64
  pm_leg_out_count :: u64
  pm_leg_out_loss_pct :: f64
  pm_realistic_apr :: f64

section \<open>Order book depth\<close>

record price_level =
  pl_price :: f64
  pl_quantity :: f64

record order_book_depth =
  obd_bids :: "price_level list"
  obd_asks :: "price_level list"
  obd_timestamp :: u64

section \<open>Repricing\<close>

datatype execution_mode = UltraFast | Balanced | Safe

record repricing_event =
  re_timestamp :: u64
  re_old_price :: f64
  re_new_price :: f64
  re_reason :: string
  re_elapsed_ms :: "128 word"
  re_exchange :: string
  re_side :: order_side

record repricing_metrics =
  rm_reprice_count :: u32
  rm_reprice_total_time_ms :: "128 word"
  rm_initial_price :: f64
  rm_final_price :: f64
  rm_price_improvement_bps :: f64
  rm_repricing_events :: "repricing_event list"
  rm_max_reprices_reached :: bool

definition RepricingMetrics_new :: "f64 \<Rightarrow> repricing_metrics" where
  "RepricingMetrics_new initial_price =
     \<lparr>rm_reprice_count = 0, rm_reprice_total_time_ms = 0, rm_initial_price = initial_price,
      rm_final_price = initial_price, rm_price_improvement_bps = lit 0, rm_repricing_events = [],
      rm_max_reprices_reached = False\<rparr>"

definition RepricingMetrics_finalize :: "repricing_metrics \<Rightarrow> repricing_metrics" where
  "RepricingMetrics_finalize m =
     m\<lparr>rm_price_improvement_bps :=
         ((rm_final_price m - rm_initial_price m) / rm_initial_price m) * lit 10000\<rparr>"

record repricing_config =
  rc_reprice_threshold_bps :: f64
  rc_max_reprices :: u32
  rc_reprice_interval_ms :: u64
  rc_total_timeout_seconds :: u64
  rc_spread_collapse_threshold_bps :: f64
  rc_execution_mode :: execution_mode

definition RepricingConfig_ultra_fast :: repricing_config where
  "RepricingConfig_ultra_fast =
     \<lparr>rc_reprice_threshold_bps = lit 5, rc_max_reprices = 5, rc_reprice_interval_ms = 100,
      rc_total_timeout_seconds = 3, rc_spread_collapse_threshold_bps = lit 50,
      rc_execution_mode = UltraFast\<rparr>"

definition RepricingConfig_balanced :: repricing_config where
  "RepricingConfig_balanced =
     \<lparr>rc_reprice_threshold_bps = lit 5, rc_max_reprices = 5, rc_reprice_interval_ms = 100,
      rc_total_timeout_seconds = 3, rc_spread_collapse_threshold_bps = lit 50,
      rc_execution_mode = Balanced\<rparr>"

definition RepricingConfig_safe :: repricing_config where
  "RepricingConfig_safe =
     \<lparr>rc_reprice_threshold_bps = lit 5, rc_max_reprices = 5, rc_reprice_interval_ms = 100,
      rc_total_timeout_seconds = 3, rc_spread_collapse_threshold_bps = lit 50,
      rc_execution_mode = Safe\<rparr>"

definition RepricingConfig_from_confidence :: "f64 \<Rightarrow> repricing_config" where
  "RepricingConfig_from_confidence confidence_score =
     (if confidence_score \<ge> lit 90 then RepricingConfig_ultra_fast
      else if confidence_score \<ge> lit 75 then RepricingConfig_balanced
      else RepricingConfig_safe)"

section \<open>Lemmas\<close>

text \<open>The symbol table is a bijection between ten symbols and the IDs 1 to 10.\<close>

lemma id_to_symbol_symbol_to_id:
  "symbol_to_id s = Some i \<Longrightarrow> id_to_symbol i = Some s"
  by (auto simp: symbol_to_id_def SYMBOL_TO_ID_def id_to_symbol_def ID_TO_SYMBOL_def
      split: if_splits)

text \<open>The price and time passed to \<open>fill\<close> and the reason passed to \<open>cancel\<close> are not stored.\<close>

lemma fill_price_not_recorded:
  "Order_get_fill_price (Order_fill (Order_new i y p sz) fp ft) = p"
  by (simp add: Order_get_fill_price_def Order_fill_def Order_new_def)

lemma confidence_score_le_100: "calculate_confidence_score m \<le> 100"
  by (simp add: calculate_confidence_score_def Let_def)

lemma filled_not_partially: "is_fully_filled s \<Longrightarrow> \<not> is_partially_filled s"
  by (auto simp: is_fully_filled_def is_partially_filled_def dest: f_less_not_le)

end
