(* ===== verification/Branchless.thy ===== *)
theory Branchless
  imports Types
begin

text \<open>
  The validation helpers of src/src/strategy/branchless.rs and the wrappers around them in
  src/src/strategy/scanner.rs.  A Rust \<open>bool as u8\<close> is a word 0 or 1 here too, and the conjunctions
  and disjunctions are the bitwise ones of the source.

  The lemmas show that the bit-twiddling decides the intended conjunction and disjunction, that
  clamping lands in the range, and what the exit test does at the boundaries its comments name.
\<close>

unbundle bit_operations_syntax

section \<open>branchless.rs\<close>

definition bool_as_u8 :: "bool \<Rightarrow> u8" where
  "bool_as_u8 b = (if b then 1 else 0)"

definition spread_exceeds_threshold :: "f64 \<Rightarrow> f64 \<Rightarrow> bool" where
  "spread_exceeds_threshold spread threshold \<longleftrightarrow> spread > threshold"

definition funding_delta_exceeds :: "f64 \<Rightarrow> f64 \<Rightarrow> bool" where
  "funding_delta_exceeds funding_delta threshold \<longleftrightarrow> \<bar>funding_delta\<bar> > threshold"

definition depth_sufficient :: "f64 \<Rightarrow> f64 \<Rightarrow> bool" where
  "depth_sufficient depth threshold \<longleftrightarrow> depth > threshold"

definition all_conditions_pass :: "bool \<Rightarrow> bool \<Rightarrow> bool \<Rightarrow> bool" where
  "all_conditions_pass spread_ok funding_ok depth_ok =
     (let spread_bit = bool_as_u8 spread_ok;
          funding_bit = bool_as_u8 funding_ok;
          depth_bit = bool_as_u8 depth_ok
      in (spread_bit AND funding_bit AND depth_bit) = 1)"

definition any_condition_passes :: "bool \<Rightarrow> bool \<Rightarrow> bool \<Rightarrow> bool" where
  "any_condition_passes cond1 cond2 cond3 =
     (let bit1 = bool_as_u8 cond1;
          bit2 = bool_as_u8 cond2;
          bit3 = bool_as_u8 cond3
      in (bit1 OR bit2 OR bit3) \<noteq> 0)"

definition min_f64 :: "f64 \<Rightarrow> f64 \<Rightarrow> f64" where
  "min_f64 a b = fmin a b"

definition max_f64 :: "f64 \<Rightarrow> f64 \<Rightarrow> f64" where
  "max_f64 a b = fmax a b"

definition clamp_f64 :: "f64 \<Rightarrow> f64 \<Rightarrow> f64 \<Rightarrow> f64" where
  "clamp_f64 v lo hi = max_f64 lo (min_f64 hi v)"

definition select_f64 :: "bool \<Rightarrow> f64 \<Rightarrow> f64 \<Rightarrow> f64" where
  "select_f64 condition value_if_true value_if_false =
     (if condition then value_if_true else value_if_false)"

definition is_valid_opportunity :: "f64 \<Rightarrow> f64 \<Rightarrow> f64 \<Rightarrow> f64 \<Rightarrow> f64 \<Rightarrow> f64 \<Rightarrow> bool" where
  "is_valid_opportunity spread_bps spread_threshold funding_delta funding_threshold
       depth depth_threshold =
     (let spread_ok = spread_bps > spread_threshold;
          funding_ok = \<bar>funding_delta\<bar> > funding_threshold;
          depth_ok = depth > depth_threshold
      in all_conditions_pass spread_ok funding_ok depth_ok)"

definition should_exit_opportunity :: "f64 \<Rightarrow> f64 \<Rightarrow> f64 \<Rightarrow> f64 \<Rightarrow> bool" where
  "should_exit_opportunity current_spread entry_spread current_funding entry_funding =
     (let spread_closed_pct =
            (if entry_spread > lit 0
             then ((entry_spread - current_spread) / entry_spread) * lit 100 else lit 0);
          spread_widened = current_spread > entry_spread * lit 1.3;
          funding_converged =
            (if \<bar>entry_funding\<bar> > lit 0.0001
             then \<bar>current_funding\<bar> < \<bar>entry_funding\<bar> * lit 0.2 else False);
          spread_closed = spread_closed_pct \<ge> lit 90
      in any_condition_passes spread_closed spread_widened funding_converged)"

definition branchless_abs_f64 :: "f64 \<Rightarrow> f64" where
  "branchless_abs_f64 x = \<bar>x\<bar>"

definition sign_f64 :: "f64 \<Rightarrow> f64" where
  "sign_f64 x =
     int_as_f64 (if x > lit 0 then 1 else 0) - int_as_f64 (if x < lit 0 then 1 else 0)"

section \<open>scanner.rs\<close>

definition calculate_spread_bps :: "f64 \<Rightarrow> f64 \<Rightarrow> f64" where
  "calculate_spread_bps long_price short_price =
     (if feq long_price (lit 0) then lit 0
      else ((short_price - long_price) / long_price) * lit 10000)"

definition scanner_is_valid_opportunity ::
  "f64 \<Rightarrow> f64 \<Rightarrow> f64 \<Rightarrow> f64 \<Rightarrow> f64 \<Rightarrow> f64 \<Rightarrow> bool" where
  "scanner_is_valid_opportunity spread_bps spread_threshold funding_delta funding_threshold
       depth depth_threshold =
     is_valid_opportunity spread_bps spread_threshold funding_delta funding_threshold
       depth depth_threshold"

definition scanner_should_exit_opportunity :: "f64 \<Rightarrow> f64 \<Rightarrow> f64 \<Rightarrow> f64 \<Rightarrow> bool" where
  "scanner_should_exit_opportunity current_spread entry_spread current_funding entry_funding =
     should_exit_opportunity current_spread entry_spread current_funding entry_funding"

definition scanner_min :: "f64 \<Rightarrow> f64 \<Rightarrow> f64" where
  "scanner_min a b = min_f64 a b"

definition scanner_max :: "f64 \<Rightarrow> f64 \<Rightarrow> f64" where
  "scanner_max a b = max_f64 a b"

definition scanner_clamp :: "f64 \<Rightarrow> f64 \<Rightarrow> f64 \<Rightarrow> f64" where
  "scanner_clamp v lo hi = clamp_f64 v lo hi"

section \<open>Lemmas\<close>

lemma all_conditions_pass_iff [simp]: "all_conditions_pass a b c \<longleftrightarrow> a \<and> b \<and> c"
  by (simp add: all_conditions_pass_def bool_as_u8_def)

lemma any_condition_passes_iff [simp]: "any_condition_passes a b c \<longleftrightarrow> a \<or> b \<or> c"
  by (simp add: any_condition_passes_def bool_as_u8_def)

lemma is_valid_opportunity_iff:
  "is_valid_opportunity s ts f tf d td \<longleftrightarrow> ts < s \<and> tf < \<bar>f\<bar> \<and> td < d"
  by (simp add: is_valid_opportunity_def)

text \<open>A NaN among the six numbers rejects the opportunity.\<close>

lemma is_valid_opportunity_not_nan:
  assumes "is_valid_opportunity s ts f tf d td"
  shows "NaN \<notin> {s, ts, f, tf, d, td}"
  using assms by (auto simp: is_valid_opportunity_iff dest: f_less_not_nan)

text \<open>A position whose spread has closed completely (or inverted) is always exited.\<close>

lemma sub_nonpos_ge:
  assumes "is_f64 e" "is_finite e" "0 < e" "c \<le> 0"
  shows "e \<le> e - c"
proof -
  from assms obtain r where e: "e = Fin r" "0 < r" "rnd r = r"
    by (cases e) (auto simp: zero_f64_def)
  have "e - 0 \<le> e - c" using assms by (intro sub_mono_right) auto
  moreover have "e - 0 = e"
    using assms(1) e by (simp add: minus_f64_def zero_f64_def mk_Fin)
  ultimately show ?thesis by simp
qed

lemma div_self_f64: "is_finite e \<Longrightarrow> 0 < e \<Longrightarrow> e / e = 1"
  using mk_int[of 1 False]
  by (cases e) (auto simp: divide_f64_def zero_f64_def one_f64_def)

lemma spread_gone_exits:
  assumes "is_f64 e" "is_finite e" "0 < e" "c \<le> 0"
  shows "should_exit_opportunity c e cf ef"
proof -
  have "e / e \<le> (e - c) / e" using assms by (intro div_mono_left sub_nonpos_ge)
  then have "1 \<le> (e - c) / e" using assms by (simp add: div_self_f64)
  then have "1 * lit 100 \<le> (e - c) / e * lit 100"
    by (rule mul_mono_left) (auto simp: zero_f64_def)
  moreover have "1 * lit 100 = lit 100"
    using mk_int[of 100 False] by (simp add: one_f64_def times_f64_def)
  moreover have "lit 90 \<le> lit 100" by (rule lit_mono) simp
  ultimately have "lit 90 \<le> (e - c) / e * lit 100" by (metis f_le_trans)
  then show ?thesis using assms by (simp add: should_exit_opportunity_def)
qed

lemma clamp_f64_range:
  assumes "lo \<le> hi" shows "lo \<le> clamp_f64 v lo hi" and "clamp_f64 v lo hi \<le> hi"
  using assms f_le_not_nan[OF assms]
  by (auto simp: clamp_f64_def max_f64_def min_f64_def intro: fmax_ge1 fmax_least fmin_le1)

lemma clamp_f64_inside:
  assumes "lo \<le> v" "v \<le> hi" shows "feq (clamp_f64 v lo hi) v"
proof -
  have n: "v \<noteq> NaN" using assms f_le_not_nan by blast
  have "v \<le> fmax lo (fmin hi v)"
    using assms by (meson f_le_not_nan f_le_trans fmax_ge2 fmin_greatest f_le_refl fmin_not_nan n)
  moreover have "fmax lo (fmin hi v) \<le> v" using assms n by (intro fmax_least fmin_le2)
  ultimately show ?thesis by (simp add: feq_def clamp_f64_def max_f64_def min_f64_def)
qed

text \<open>A spread widened by exactly 30% does not exit: the comparison is strict.\<close>

lemma widened_30_not_exit: "\<not> should_exit_opportunity (lit 13) (lit 10) (lit 0.01) (lit 0.01)"
  by code_simp

section \<open>Properties\<close>

text \<open>The branchless validation accepts exactly when the spread, the magnitude of the funding
  delta and the depth each exceed their threshold, and a NaN among the six numbers rejects.\<close>

theorem is_valid_opportunity_correct:
  "(is_valid_opportunity s ts f tf d td \<longleftrightarrow> ts < s \<and> tf < \<bar>f\<bar> \<and> td < d) \<and>
   (NaN \<in> {s, ts, f, tf, d, td} \<longrightarrow> \<not> is_valid_opportunity s ts f tf d td)"
  by (intro conjI impI notI is_valid_opportunity_iff) (erule notE[OF is_valid_opportunity_not_nan, rotated])

text \<open>A position whose spread has closed completely or inverted is always exited, for every
  positive entry spread and whatever the funding rates are.\<close>

theorem closed_spread_exits:
  assumes "is_f64 entry_spread" and "is_finite entry_spread" and "0 < entry_spread"
    and "current_spread \<le> 0"
  shows "should_exit_opportunity current_spread entry_spread current_funding entry_funding"
  using assms by (rule spread_gone_exits)

text \<open>Clamping lands in the range for every argument, NaN included, and leaves a value inside the
  range as it is.\<close>

theorem clamp_f64_correct:
  assumes "lo \<le> hi"
  shows "lo \<le> clamp_f64 v lo hi \<and> clamp_f64 v lo hi \<le> hi \<and>
    (lo \<le> v \<and> v \<le> hi \<longrightarrow> feq (clamp_f64 v lo hi) v)"
  using clamp_f64_range[OF assms] clamp_f64_inside by blast

end
