(* ===== verification/Exchange_Fees.thy ===== *)
theory Exchange_Fees
  imports Types
begin

text \<open>
  src/src/strategy/exchange_fees.rs: exchange names, their numeric IDs and the taker-fee table.
  The array \<open>EXCHANGE_FEES\<close> has 256 entries, one per value of \<open>u8\<close>, so the unchecked access of
  \<open>get_exchange_fee\<close> is in bounds.  The lemmas show this, the round trip between names and IDs,
  that names are matched without regard to case, and the range of the fees.
\<close>

section \<open>Tables\<close>

definition EXCHANGE_ID_BINANCE :: u8 where "EXCHANGE_ID_BINANCE = 1"
definition EXCHANGE_ID_OKX :: u8 where "EXCHANGE_ID_OKX = 2"
definition EXCHANGE_ID_BYBIT :: u8 where "EXCHANGE_ID_BYBIT = 3"
definition EXCHANGE_ID_BITGET :: u8 where "EXCHANGE_ID_BITGET = 4"
definition EXCHANGE_ID_KUCOIN :: u8 where "EXCHANGE_ID_KUCOIN = 5"
definition EXCHANGE_ID_HYPERLIQUID :: u8 where "EXCHANGE_ID_HYPERLIQUID = 6"
definition EXCHANGE_ID_PARADEX :: u8 where "EXCHANGE_ID_PARADEX = 7"
definition EXCHANGE_ID_GATEIO :: u8 where "EXCHANGE_ID_GATEIO = 8"

definition EXCHANGE_FEES :: "f64 list" where
  "EXCHANGE_FEES = (replicate 256 (lit 6))
     [unat EXCHANGE_ID_BINANCE := lit 4, unat EXCHANGE_ID_OKX := lit 5,
      unat EXCHANGE_ID_BYBIT := lit 5.5, unat EXCHANGE_ID_BITGET := lit 6,
      unat EXCHANGE_ID_KUCOIN := lit 6, unat EXCHANGE_ID_HYPERLIQUID := lit 4.5,
      unat EXCHANGE_ID_PARADEX := lit 5, unat EXCHANGE_ID_GATEIO := lit 6]"

definition EXCHANGE_TO_ID :: "string \<rightharpoonup> u8" where
  "EXCHANGE_TO_ID = [
     ''binance'' \<mapsto> EXCHANGE_ID_BINANCE, ''okx'' \<mapsto> EXCHANGE_ID_OKX,
     ''bybit'' \<mapsto> EXCHANGE_ID_BYBIT, ''bitget'' \<mapsto> EXCHANGE_ID_BITGET,
     ''kucoin'' \<mapsto> EXCHANGE_ID_KUCOIN, ''hyperliquid'' \<mapsto> EXCHANGE_ID_HYPERLIQUID,
     ''paradex'' \<mapsto> EXCHANGE_ID_PARADEX, ''gateio'' \<mapsto> EXCHANGE_ID_GATEIO]"

definition ID_TO_EXCHANGE :: "string list" where
  "ID_TO_EXCHANGE = ['''', ''binance'', ''okx'', ''bybit'', ''bitget'', ''kucoin'',
     ''hyperliquid'', ''paradex'', ''gateio'']"

section \<open>Operations\<close>

definition get_exchange_fee :: "u8 \<Rightarrow> f64" where
  "get_exchange_fee exchange_id = EXCHANGE_FEES ! unat exchange_id"

definition exchange_to_id :: "string \<Rightarrow> u8" where
  "exchange_to_id exchange =
     (case EXCHANGE_TO_ID (to_lowercase exchange) of Some i \<Rightarrow> i | None \<Rightarrow> 0)"

definition get_exchange_fee_by_name :: "string \<Rightarrow> f64" where
  "get_exchange_fee_by_name exchange =
     (let exchange_lower = to_lowercase exchange;
          exchange_id = (case EXCHANGE_TO_ID exchange_lower of Some i \<Rightarrow> i | None \<Rightarrow> 0)
      in get_exchange_fee exchange_id)"

definition id_to_exchange :: "u8 \<Rightarrow> string" where
  "id_to_exchange exchange_id =
     (if unat exchange_id < length ID_TO_EXCHANGE then ID_TO_EXCHANGE ! unat exchange_id else '''')"

definition get_all_exchange_ids :: "u8 list" where
  "get_all_exchange_ids = [EXCHANGE_ID_BINANCE, EXCHANGE_ID_OKX, EXCHANGE_ID_BYBIT,
     EXCHANGE_ID_BITGET, EXCHANGE_ID_KUCOIN, EXCHANGE_ID_HYPERLIQUID, EXCHANGE_ID_PARADEX,
     EXCHANGE_ID_GATEIO]"

definition get_all_exchange_names :: "string list" where
  "get_all_exchange_names = [''binance'', ''okx'', ''bybit'', ''bitget'', ''kucoin'',
     ''hyperliquid'', ''paradex'', ''gateio'']"

section \<open>Lemmas\<close>

lemmas exchange_id_defs =
  EXCHANGE_ID_BINANCE_def EXCHANGE_ID_OKX_def EXCHANGE_ID_BYBIT_def EXCHANGE_ID_BITGET_def
  EXCHANGE_ID_KUCOIN_def EXCHANGE_ID_HYPERLIQUID_def EXCHANGE_ID_PARADEX_def
  EXCHANGE_ID_GATEIO_def

lemma length_EXCHANGE_FEES [simp]: "length EXCHANGE_FEES = 256"
  by (simp add: EXCHANGE_FEES_def)

lemma unat_u8_less: "unat (i :: u8) < 256"
  using unsigned_less[of i] by simp

lemma exchange_fee_in_bounds: "unat (i :: u8) < length EXCHANGE_FEES"
  using unat_u8_less[of i] by simp

lemma set_list_update_subset: "set xs \<subseteq> A \<Longrightarrow> x \<in> A \<Longrightarrow> set (xs[i := x]) \<subseteq> A"
  using set_update_subset_insert[of xs i x] by auto

lemma EXCHANGE_FEES_set: "set EXCHANGE_FEES \<subseteq> {lit 4, lit 4.5, lit 5, lit 5.5, lit 6}"
  unfolding EXCHANGE_FEES_def by (intro set_list_update_subset) auto

lemma exchange_fee_range: "lit 4 \<le> get_exchange_fee i" "get_exchange_fee i \<le> lit 6"
proof -
  have "get_exchange_fee i \<in> set EXCHANGE_FEES"
    unfolding get_exchange_fee_def by (rule nth_mem) (rule exchange_fee_in_bounds)
  with EXCHANGE_FEES_set
  have "get_exchange_fee i \<in> {lit 4, lit 4.5, lit 5, lit 5.5, lit 6}" by blast
  then show "lit 4 \<le> get_exchange_fee i" "get_exchange_fee i \<le> lit 6"
    by (auto intro!: lit_mono simp del: lit_numeral)
qed

lemma fee_by_name: "get_exchange_fee_by_name s = get_exchange_fee (exchange_to_id s)"
  by (simp add: get_exchange_fee_by_name_def exchange_to_id_def Let_def)

lemma fee_by_name_case: "to_lowercase s = to_lowercase t \<Longrightarrow>
    get_exchange_fee_by_name s = get_exchange_fee_by_name t"
  by (simp add: get_exchange_fee_by_name_def)

text \<open>The eight known exchanges, and nothing else, have a non-zero ID.\<close>

lemma EXCHANGE_TO_ID_names: "EXCHANGE_TO_ID s = Some i \<Longrightarrow> s \<in> set get_all_exchange_names"
  by (auto simp: EXCHANGE_TO_ID_def get_all_exchange_names_def split: if_splits)

lemma EXCHANGE_TO_ID_id: "EXCHANGE_TO_ID s = Some i \<Longrightarrow> id_to_exchange i = s \<and> i \<noteq> 0"
  by (auto simp: EXCHANGE_TO_ID_def id_to_exchange_def ID_TO_EXCHANGE_def exchange_id_defs
      split: if_splits)

lemma exchange_to_id_known:
  "exchange_to_id s \<noteq> 0 \<longleftrightarrow> to_lowercase s \<in> set get_all_exchange_names"
  by (auto simp: exchange_to_id_def EXCHANGE_TO_ID_def get_all_exchange_names_def exchange_id_defs
      split: option.splits)

lemma id_to_exchange_to_id:
  assumes "to_lowercase s \<in> set get_all_exchange_names"
  shows "id_to_exchange (exchange_to_id s) = to_lowercase s"
  using assms exchange_to_id_known[of s] EXCHANGE_TO_ID_id[of "to_lowercase s"]
  by (auto simp: exchange_to_id_def split: option.splits)

lemma sample_fees:
  "get_exchange_fee_by_name ''bybit'' = lit 5.5" "get_exchange_fee_by_name ''okx'' = lit 5"
  by (simp_all add: get_exchange_fee_by_name_def to_lowercase_def lower_char_def EXCHANGE_TO_ID_def
      get_exchange_fee_def EXCHANGE_FEES_def exchange_id_defs del: lit_numeral)

section \<open>Properties\<close>

text \<open>Fee lookup: the unchecked array access is in bounds for every \<open>u8\<close>, every fee lies between
  4 and 6 basis points, and the look-up by name ignores case and agrees with the one by ID; the
  eight supported names, and only they, have a non-zero ID, which maps back to the name.\<close>

theorem exchange_fee_lookup:
  "unat exchange_id < length EXCHANGE_FEES \<and>
   lit 4 \<le> get_exchange_fee exchange_id \<and> get_exchange_fee exchange_id \<le> lit 6 \<and>
   get_exchange_fee_by_name (to_lowercase name) = get_exchange_fee_by_name name \<and>
   get_exchange_fee_by_name name = get_exchange_fee (exchange_to_id name) \<and>
   (if to_lowercase name \<in> set get_all_exchange_names
    then exchange_to_id name \<noteq> 0 \<and> id_to_exchange (exchange_to_id name) = to_lowercase name
    else exchange_to_id name = 0)"
  using exchange_fee_in_bounds exchange_fee_range fee_by_name exchange_to_id_known[of name]
    id_to_exchange_to_id[of name] fee_by_name_case[of "to_lowercase name" name] by auto

end
