(* ===== verification/Market_Data.thy ===== *)
theory Market_Data
  imports Types
begin

text \<open>
  src/src/strategy/market_data.rs: the struct-of-arrays store of best bid, best ask and timestamp
  per symbol ID.  The five fields of \<open>MarketDataStore\<close> are the five fields of the record; a Rust
  \<open>vec[i] = x\<close> is a list update, guarded by the bounds check of the source, which keeps every access
  in range (\<open>store_wf\<close>).  Prefetch instructions change no state: \<open>prefetch_symbol\<close> is not modelled
  and \<open>iter_spreads\<close> is modelled without them.

  The specification is \<open>latest\<close>: what the last update for an ID said.  The refinement lemmas show
  that a store that has processed a sequence of updates answers every query from \<open>latest\<close>.
\<close>

section \<open>The store\<close>

definition MAX_SYMBOLS :: nat where
  "MAX_SYMBOLS = 256"

record market_data_store =
  bids :: "f64 list"
  asks :: "f64 list"
  timestamps :: "u64 list"
  symbol_ids :: "u32 list"
  count :: nat

definition MarketDataStore_new :: market_data_store where
  "MarketDataStore_new =
     \<lparr>bids = replicate MAX_SYMBOLS (lit 0), asks = replicate MAX_SYMBOLS (lit 0),
      timestamps = replicate MAX_SYMBOLS 0, symbol_ids = replicate MAX_SYMBOLS 0, count = 0\<rparr>"

definition update :: "market_data_store \<Rightarrow> u32 \<Rightarrow> f64 \<Rightarrow> f64 \<Rightarrow> u64 \<Rightarrow> market_data_store" where
  "update s symbol_id bid ask timestamp_us =
     (let idx = unat symbol_id in
      if idx < MAX_SYMBOLS then
        let s = s\<lparr>bids := (bids s)[idx := bid], asks := (asks s)[idx := ask],
                  timestamps := (timestamps s)[idx := timestamp_us],
                  symbol_ids := (symbol_ids s)[idx := symbol_id]\<rparr>
        in if idx \<ge> count s then s\<lparr>count := idx + 1\<rparr> else s
      else s)"

definition update_from_market_update ::
  "market_data_store \<Rightarrow> market_update \<Rightarrow> market_data_store" where
  "update_from_market_update s u =
     update s (mu_symbol_id u) (mu_bid u) (mu_ask u) (mu_timestamp_us u)"

definition get_spread_bps :: "market_data_store \<Rightarrow> u32 \<Rightarrow> f64" where
  "get_spread_bps s symbol_id =
     (let idx = unat symbol_id in
      if idx < count s \<and> bids s ! idx > lit 0 then
        let bid = bids s ! idx; ask = asks s ! idx in ((ask - bid) / bid) * lit 10000
      else lit 0)"

definition get_bid :: "market_data_store \<Rightarrow> u32 \<Rightarrow> f64 option" where
  "get_bid s symbol_id =
     (let idx = unat symbol_id in if idx < count s then Some (bids s ! idx) else None)"

definition get_ask :: "market_data_store \<Rightarrow> u32 \<Rightarrow> f64 option" where
  "get_ask s symbol_id =
     (let idx = unat symbol_id in if idx < count s then Some (asks s ! idx) else None)"

definition get_timestamp :: "market_data_store \<Rightarrow> u32 \<Rightarrow> u64 option" where
  "get_timestamp s symbol_id =
     (let idx = unat symbol_id in if idx < count s then Some (timestamps s ! idx) else None)"

definition get_mid_price :: "market_data_store \<Rightarrow> u32 \<Rightarrow> f64 option" where
  "get_mid_price s symbol_id =
     (let idx = unat symbol_id in
      if idx < count s then Some ((bids s ! idx + asks s ! idx) / lit 2) else None)"

text \<open>The subtraction is on \<open>u64\<close> and wraps in a release build.\<close>

definition is_stale :: "market_data_store \<Rightarrow> u32 \<Rightarrow> u64 \<Rightarrow> u64 \<Rightarrow> bool" where
  "is_stale s symbol_id current_time_us threshold_us =
     (let idx = unat symbol_id in
      if idx < count s then current_time_us - timestamps s ! idx > threshold_us else True)"

definition iter_spreads :: "market_data_store \<Rightarrow> (u32 \<times> f64) list" where
  "iter_spreads s =
     map (\<lambda>idx. (symbol_ids s ! idx,
                 if bids s ! idx > lit 0
                 then ((asks s ! idx - bids s ! idx) / bids s ! idx) * lit 10000 else lit 0))
       [0..<count s]"

definition MarketDataStore_len :: "market_data_store \<Rightarrow> nat" where
  "MarketDataStore_len s = count s"

definition MarketDataStore_is_empty :: "market_data_store \<Rightarrow> bool" where
  "MarketDataStore_is_empty s \<longleftrightarrow> count s = 0"

definition MarketDataStore_clear :: "market_data_store \<Rightarrow> market_data_store" where
  "MarketDataStore_clear s =
     s\<lparr>bids := replicate (length (bids s)) (lit 0), asks := replicate (length (asks s)) (lit 0),
       timestamps := replicate (length (timestamps s)) 0,
       symbol_ids := replicate (length (symbol_ids s)) 0, count := 0\<rparr>"

section \<open>Invariant and specification\<close>

text \<open>Every array has \<open>MAX_SYMBOLS\<close> slots, and a slot's ID is its own index, or 0 when the slot was
  never written; slots from \<open>count\<close> on are untouched.\<close>

definition store_wf :: "market_data_store \<Rightarrow> bool" where
  "store_wf s \<longleftrightarrow>
     length (bids s) = MAX_SYMBOLS \<and> length (asks s) = MAX_SYMBOLS \<and>
     length (timestamps s) = MAX_SYMBOLS \<and> length (symbol_ids s) = MAX_SYMBOLS \<and>
     count s \<le> MAX_SYMBOLS \<and>
     (\<forall>i<MAX_SYMBOLS. symbol_ids s ! i = of_nat i \<or> symbol_ids s ! i = 0) \<and>
     (\<forall>i<MAX_SYMBOLS. symbol_ids s ! i = 0 \<and> i \<noteq> 0 \<longrightarrow>
        bids s ! i = lit 0 \<and> asks s ! i = lit 0 \<and> timestamps s ! i = 0)"

definition replay :: "market_update list \<Rightarrow> market_data_store" where
  "replay us = foldl update_from_market_update MarketDataStore_new us"

definition latest :: "u32 \<Rightarrow> market_update list \<Rightarrow> market_update option" where
  "latest i us = find (\<lambda>u. mu_symbol_id u = i) (rev us)"

text \<open>An ID is visible once it, or a larger one that fits the store, has been updated.\<close>

definition visible :: "u32 \<Rightarrow> market_update list \<Rightarrow> bool" where
  "visible i us \<longleftrightarrow>
     (\<exists>u \<in> set us. unat (mu_symbol_id u) < MAX_SYMBOLS \<and> unat i \<le> unat (mu_symbol_id u))"

definition store_quote :: "market_data_store \<Rightarrow> u32 \<Rightarrow> (f64 \<times> f64) option" where
  "store_quote s i = (case (get_bid s i, get_ask s i) of
     (Some b, Some a) \<Rightarrow> Some (b, a) | _ \<Rightarrow> None)"

text \<open>The interface a reader of the store relies on: a write is read back, other IDs keep their
  quotes, and IDs beyond the capacity are dropped.\<close>

locale quote_store =
  fixes upd :: "'s \<Rightarrow> u32 \<Rightarrow> f64 \<Rightarrow> f64 \<Rightarrow> u64 \<Rightarrow> 's"
    and quote :: "'s \<Rightarrow> u32 \<Rightarrow> (f64 \<times> f64) option"
    and inv :: "'s \<Rightarrow> bool"
    and cap :: nat
  assumes inv_upd: "inv s \<Longrightarrow> inv (upd s i b a t)"
    and quote_same: "inv s \<Longrightarrow> unat i < cap \<Longrightarrow> quote (upd s i b a t) i = Some (b, a)"
    and quote_other: "inv s \<Longrightarrow> j \<noteq> i \<Longrightarrow> quote s j = Some q \<Longrightarrow> quote (upd s i b a t) j = Some q"
    and quote_drop: "\<not> unat i < cap \<Longrightarrow> upd s i b a t = s"
begin

definition run :: "'s \<Rightarrow> market_update list \<Rightarrow> 's" where
  "run s us = foldl (\<lambda>s u. upd s (mu_symbol_id u) (mu_bid u) (mu_ask u) (mu_timestamp_us u)) s us"

lemma inv_run: "inv s \<Longrightarrow> inv (run s us)"
  by (induction us arbitrary: s) (auto simp: run_def inv_upd)

lemma quote_stable:
  assumes "inv s" "\<forall>u \<in> set us. mu_symbol_id u \<noteq> j" "quote s j = Some q"
  shows "quote (run s us) j = Some q"
  using assms by (induction us arbitrary: s) (auto simp: run_def inv_upd quote_other)

text \<open>Whatever happened before and whatever other symbols are updated afterwards, a quote that was
  written is read back.\<close>

lemma quote_after:
  assumes "inv s" "unat (mu_symbol_id u) < cap"
    and "\<forall>v \<in> set vs. mu_symbol_id v \<noteq> mu_symbol_id u"
  shows "quote (run s (us @ u # vs)) (mu_symbol_id u) = Some (mu_bid u, mu_ask u)"
proof -
  let ?s = "upd (run s us) (mu_symbol_id u) (mu_bid u) (mu_ask u) (mu_timestamp_us u)"
  have "run s (us @ u # vs) = run ?s vs" by (simp add: run_def)
  moreover have "quote (run ?s vs) (mu_symbol_id u) = Some (mu_bid u, mu_ask u)"
    using assms by (intro quote_stable) (auto simp: inv_run inv_upd quote_same)
  ultimately show ?thesis by simp
qed

end

section \<open>Lemmas\<close>

lemma store_wf_new: "store_wf MarketDataStore_new"
  by (simp add: store_wf_def MarketDataStore_new_def MAX_SYMBOLS_def)

lemma store_wf_update:
  assumes "store_wf s" shows "store_wf (update s i b a t)"
proof (cases "unat i < MAX_SYMBOLS")
  case True
  have "i \<noteq> 0 \<or> unat i = 0" by simp
  with assms True show ?thesis
    unfolding store_wf_def update_def Let_def by (auto simp: nth_list_update)
qed (use assms in \<open>simp add: update_def\<close>)

lemma store_wf_clear: "store_wf s \<Longrightarrow> store_wf (MarketDataStore_clear s)"
  by (simp add: store_wf_def MarketDataStore_clear_def)

lemma clear_eq_new: "store_wf s \<Longrightarrow> MarketDataStore_clear s = MarketDataStore_new"
  by (simp add: store_wf_def MarketDataStore_clear_def MarketDataStore_new_def)

lemma update_out_of_range: "MAX_SYMBOLS \<le> unat i \<Longrightarrow> update s i b a t = s"
  by (simp add: update_def)

lemma update_sels:
  assumes "store_wf s"
  shows "count (update s i b a t) =
           (if unat i < MAX_SYMBOLS then max (count s) (unat i + 1) else count s)"
    and "k < MAX_SYMBOLS \<Longrightarrow> bids (update s i b a t) ! k = (if k = unat i then b else bids s ! k)"
    and "k < MAX_SYMBOLS \<Longrightarrow> asks (update s i b a t) ! k = (if k = unat i then a else asks s ! k)"
    and "k < MAX_SYMBOLS \<Longrightarrow>
           timestamps (update s i b a t) ! k = (if k = unat i then t else timestamps s ! k)"
  using assms by (auto simp: update_def Let_def store_wf_def nth_list_update)

lemma store_wf_count: "store_wf s \<Longrightarrow> count s \<le> MAX_SYMBOLS"
  by (simp add: store_wf_def)

interpretation mds: quote_store update store_quote store_wf MAX_SYMBOLS
proof
  fix s :: market_data_store and i j :: u32 and b a :: f64 and t :: u64 and q
  assume wf: "store_wf s"
  show "store_wf (update s i b a t)" by (rule store_wf_update[OF wf])
  show "store_quote (update s i b a t) i = Some (b, a)" if "unat i < MAX_SYMBOLS"
    using that wf
    by (simp add: store_quote_def get_bid_def get_ask_def Let_def update_sels[OF wf])
  show "store_quote (update s i b a t) j = Some q" if "j \<noteq> i" "store_quote s j = Some q"
  proof -
    have j: "unat j < count s" "unat j \<noteq> unat i"
      using that
      by (auto simp: store_quote_def get_bid_def get_ask_def Let_def word_unat_eq_iff
          split: if_splits)
    then have "unat j < MAX_SYMBOLS" using store_wf_count[OF wf] by simp
    then show ?thesis using j that
      by (auto simp: store_quote_def get_bid_def get_ask_def Let_def update_sels[OF wf])
  qed
qed (simp add: update_out_of_range)

lemma replay_snoc: "replay (us @ [u]) = update_from_market_update (replay us) u"
  by (simp add: replay_def)

lemma store_wf_replay: "store_wf (replay us)"
proof (induction us rule: rev_induct)
  case Nil
  show ?case using store_wf_new by (simp add: replay_def)
next
  case (snoc u us)
  then show ?case by (simp add: replay_snoc update_from_market_update_def store_wf_update)
qed

lemma latest_snoc: "latest i (us @ [u]) = (if mu_symbol_id u = i then Some u else latest i us)"
  by (simp add: latest_def)

lemma count_replay: "unat i < count (replay us) \<longleftrightarrow> visible i us"
proof (induction us rule: rev_induct)
  case Nil
  show ?case by (simp add: replay_def MarketDataStore_new_def visible_def)
next
  case (snoc u us)
  have "visible i (us @ [u]) \<longleftrightarrow> visible i us \<or>
      (unat (mu_symbol_id u) < MAX_SYMBOLS \<and> unat i \<le> unat (mu_symbol_id u))"
    by (auto simp: visible_def)
  with snoc show ?case
    by (auto simp: replay_snoc update_from_market_update_def update_sels[OF store_wf_replay])
qed

text \<open>The array slots hold what the last update for their index said, zeros if there was none.\<close>

lemma replay_slots:
  assumes "k = unat i" "k < MAX_SYMBOLS"
  shows "bids (replay us) ! k = (case latest i us of Some u \<Rightarrow> mu_bid u | None \<Rightarrow> lit 0)"
    and "asks (replay us) ! k = (case latest i us of Some u \<Rightarrow> mu_ask u | None \<Rightarrow> lit 0)"
    and "timestamps (replay us) ! k =
           (case latest i us of Some u \<Rightarrow> mu_timestamp_us u | None \<Rightarrow> 0)"
proof (induction us rule: rev_induct)
  case Nil
  show "bids (replay []) ! k = (case latest i [] of Some u \<Rightarrow> mu_bid u | None \<Rightarrow> lit 0)"
    "asks (replay []) ! k = (case latest i [] of Some u \<Rightarrow> mu_ask u | None \<Rightarrow> lit 0)"
    "timestamps (replay []) ! k = (case latest i [] of Some u \<Rightarrow> mu_timestamp_us u | None \<Rightarrow> 0)"
    using assms by (simp_all add: replay_def MarketDataStore_new_def latest_def)
next
  case (snoc u us)
  have e: "k = unat (mu_symbol_id u) \<longleftrightarrow> mu_symbol_id u = i"
    using assms by (metis word_unat_eq_iff)
  note upd = replay_snoc update_from_market_update_def latest_snoc
    update_sels(2-4)[OF store_wf_replay assms(2)] e
  show "bids (replay (us @ [u])) ! k =
      (case latest i (us @ [u]) of Some u \<Rightarrow> mu_bid u | None \<Rightarrow> lit 0)"
    "asks (replay (us @ [u])) ! k =
      (case latest i (us @ [u]) of Some u \<Rightarrow> mu_ask u | None \<Rightarrow> lit 0)"
    "timestamps (replay (us @ [u])) ! k =
      (case latest i (us @ [u]) of Some u \<Rightarrow> mu_timestamp_us u | None \<Rightarrow> 0)"
    using snoc by (simp_all only: upd if_True if_False option.case split: if_split) simp_all
qed

text \<open>Staleness: exact for a timestamp in the past; a timestamp ahead of the clock wraps around.\<close>

lemma is_stale_past:
  assumes "unat i < count s" "timestamps s ! unat i \<le> now"
  shows "is_stale s i now thr \<longleftrightarrow> unat thr < unat now - unat (timestamps s ! unat i)"
  using assms by (simp add: is_stale_def word_less_nat_alt unat_sub)

lemma u64_sub_wraps:
  assumes "now < t" shows "unat (now - t :: u64) = 2 ^ 64 - (unat t - unat now)"
  using assms unsigned_less[of t] by (simp add: unat_sub_if' word_less_nat_alt)

lemma iter_spreads_nth:
  assumes "unat i < count s"
  shows "snd (iter_spreads s ! unat i) = get_spread_bps s i"
  using assms by (simp add: iter_spreads_def get_spread_bps_def Let_def)

section \<open>Properties\<close>

text \<open>C16. The store refines "latest update wins": after processing any sequence of updates, the bid,
  ask and timestamp it returns for an ID are those of the last update for that ID (zeros if there
  was none), for every ID that some update at or above it made visible, and nothing for the others.
  Updates with an ID of 256 or more have no effect.\<close>

theorem store_returns_latest:
  "(if visible i us
    then get_bid (replay us) i = Some (case latest i us of Some u \<Rightarrow> mu_bid u | None \<Rightarrow> lit 0) \<and>
         get_ask (replay us) i = Some (case latest i us of Some u \<Rightarrow> mu_ask u | None \<Rightarrow> lit 0) \<and>
         get_timestamp (replay us) i =
           Some (case latest i us of Some u \<Rightarrow> mu_timestamp_us u | None \<Rightarrow> 0)
    else get_bid (replay us) i = None \<and> get_ask (replay us) i = None \<and>
         get_timestamp (replay us) i = None)"
proof (cases "visible i us")
  case True
  then have c: "unat i < count (replay us)" by (simp add: count_replay)
  then have m: "unat i < MAX_SYMBOLS" using store_wf_count[OF store_wf_replay[of us]] by simp
  show ?thesis
    using True c by (simp add: get_bid_def get_ask_def get_timestamp_def replay_slots[OF refl m])
next
  case False
  then have "\<not> unat i < count (replay us)" by (simp add: count_replay)
  with False show ?thesis by (simp add: get_bid_def get_ask_def get_timestamp_def)
qed

text \<open>Isolation: whatever was processed before, and however many updates for other symbols
  follow, the quote written for an ID below the capacity is the quote read back.\<close>

theorem store_quote_survives:
  assumes "store_wf s" and "unat (mu_symbol_id u) < MAX_SYMBOLS"
    and "\<forall>v \<in> set vs. mu_symbol_id v \<noteq> mu_symbol_id u"
  shows "store_quote (foldl update_from_market_update s (us @ u # vs)) (mu_symbol_id u) =
    Some (mu_bid u, mu_ask u)"
proof -
  have "foldl update_from_market_update s xs = mds.run s xs" for xs s
    by (simp add: mds.run_def update_from_market_update_def[abs_def])
  then show ?thesis using mds.quote_after[OF assms] by (simp only:)
qed

text \<open>Staleness is exact for timestamps in the past.  A timestamp ahead of the clock wraps
  around in the unsigned subtraction: such a quote counts as stale for every threshold below
  \<open>2 ^ 64\<close> minus the lead, however fresh it is.\<close>

theorem is_stale_behaviour:
  assumes "unat i < count s"
  shows "if timestamps s ! unat i \<le> now
    then is_stale s i now thr \<longleftrightarrow> unat thr < unat now - unat (timestamps s ! unat i)
    else is_stale s i now thr \<longleftrightarrow> unat thr < 2 ^ 64 - (unat (timestamps s ! unat i) - unat now)"
  using assms is_stale_past[OF assms, of now thr] u64_sub_wraps[of now "timestamps s ! unat i"]
  by (auto simp: is_stale_def word_less_nat_alt not_le)

end
