(* ===== verification/Symbol_Map.thy ===== *)
theory Symbol_Map
  imports Prelude
begin

text \<open>
  src/src/strategy/symbol_map.rs: the bidirectional map between (exchange, symbol) pairs and \<open>u32\<close>
  IDs.  The two \<open>DashMap\<close>s are a third-party concurrent map: its operations are a record
  \<open>dashmap_ops\<close> that every definition takes as an argument, and the locale \<open>dashmap\<close> states what its
  documentation promises (an empty map has no entries, \<open>insert\<close> overwrites one key, \<open>len\<close> counts the
  keys).  \<open>entry\<close> holds the lock of the key's shard, so look-up and insertion through it are one step.

  The sequential model is \<open>get_or_insert\<close>.  The concurrent one is the step relation \<open>gstep\<close>: every
  thread runs \<open>get_or_insert\<close> as its own program counter, with one step per access to shared state
  (the fast-path read, \<open>fetch_add\<close>, the \<open>entry\<close> match, the insertion into the reverse map), in any
  interleaving and with any number of threads.
\<close>

section \<open>DashMap\<close>

record ('m, 'k, 'v) dashmap_ops =
  dm_new :: 'm
  dm_get :: "'m \<Rightarrow> 'k \<Rightarrow> 'v option"
  dm_insert :: "'m \<Rightarrow> 'k \<Rightarrow> 'v \<Rightarrow> 'm"
  dm_len :: "'m \<Rightarrow> nat"

text \<open>An association list is one implementation.\<close>

definition alist_ops :: "(('k \<times> 'v) list, 'k, 'v) dashmap_ops" where
  "alist_ops = \<lparr>dm_new = [], dm_get = map_of, dm_insert = (\<lambda>m k v. (k, v) # m),
     dm_len = (\<lambda>m. length (remdups (map fst m)))\<rparr>"

section \<open>SymbolMap\<close>

type_synonym key = "string \<times> string"

record ('m, 'n) symbol_map =
  to_id :: 'm
  from_id :: 'n
  next_id :: u32

definition get_or_insert ::
  "('m, key, u32) dashmap_ops \<Rightarrow> ('n, u32, key) dashmap_ops \<Rightarrow> ('m, 'n) symbol_map \<Rightarrow>
   string \<Rightarrow> string \<Rightarrow> ('m, 'n) symbol_map \<times> u32" where
  "get_or_insert T F m exchange symbol =
     (let key = (exchange, symbol) in
      case dm_get T (to_id m) key of
        Some i \<Rightarrow> (m, i)
      | None \<Rightarrow>
          let new_id = next_id m;
              m = m\<lparr>next_id := new_id + 1\<rparr>
          in case dm_get T (to_id m) key of
               Some i \<Rightarrow> (m, i)
             | None \<Rightarrow> (m\<lparr>to_id := dm_insert T (to_id m) key new_id,
                          from_id := dm_insert F (from_id m) new_id key\<rparr>, new_id))"

definition common_exchanges :: "string list" where
  "common_exchanges = [''bybit'', ''okx'', ''kucoin'', ''bitget'', ''hyperliquid'', ''paradex'']"

definition common_symbols :: "string list" where
  "common_symbols = [''BTCUSDT'', ''ETHUSDT'', ''SOLUSDT'', ''BNBUSDT'', ''XRPUSDT'',
     ''ADAUSDT'', ''DOGEUSDT'', ''MATICUSDT'', ''DOTUSDT'', ''AVAXUSDT'']"

definition preallocate_common_symbols ::
  "('m, key, u32) dashmap_ops \<Rightarrow> ('n, u32, key) dashmap_ops \<Rightarrow> ('m, 'n) symbol_map \<Rightarrow>
   ('m, 'n) symbol_map" where
  "preallocate_common_symbols T F m =
     foldl (\<lambda>m exchange. foldl (\<lambda>m symbol. fst (get_or_insert T F m exchange symbol)) m common_symbols)
       m common_exchanges"

definition SymbolMap_new ::
  "('m, key, u32) dashmap_ops \<Rightarrow> ('n, u32, key) dashmap_ops \<Rightarrow> ('m, 'n) symbol_map" where
  "SymbolMap_new T F =
     preallocate_common_symbols T F \<lparr>to_id = dm_new T, from_id = dm_new F, next_id = 1\<rparr>"

definition SymbolMap_get ::
  "('n, u32, key) dashmap_ops \<Rightarrow> ('m, 'n) symbol_map \<Rightarrow> u32 \<Rightarrow> key option" where
  "SymbolMap_get F m symbol_id = dm_get F (from_id m) symbol_id"

definition SymbolMap_len :: "('m, key, u32) dashmap_ops \<Rightarrow> ('m, 'n) symbol_map \<Rightarrow> nat" where
  "SymbolMap_len T m = dm_len T (to_id m)"

definition SymbolMap_is_empty :: "('m, key, u32) dashmap_ops \<Rightarrow> ('m, 'n) symbol_map \<Rightarrow> bool" where
  "SymbolMap_is_empty T m \<longleftrightarrow> dm_len T (to_id m) = 0"

section \<open>Concurrent executions\<close>

text \<open>Where a thread is inside \<open>get_or_insert\<close>; \<open>Ret k i\<close> is after the return of the ID \<open>i\<close>.\<close>

datatype 'k pc = Idle | FastRead 'k | FetchAdd 'k | EntryMatch 'k u32 | ReverseInsert 'k u32
  | Ret 'k u32

text \<open>\<open>allocated\<close> counts the calls of \<open>fetch_add\<close> (a ghost variable: the program keeps only
  \<open>next_id\<close>, which wraps).\<close>

record ('m, 'n, 'k) gstate =
  shared :: "('m, 'n) symbol_map"
  pcs :: "nat \<Rightarrow> 'k pc"
  allocated :: nat

definition ginit ::
  "('m, 'k, u32) dashmap_ops \<Rightarrow> ('n, u32, 'k) dashmap_ops \<Rightarrow> ('m, 'n, 'k) gstate" where
  "ginit T F =
     \<lparr>shared = \<lparr>to_id = dm_new T, from_id = dm_new F, next_id = 1\<rparr>, pcs = (\<lambda>_. Idle),
      allocated = 0\<rparr>"

inductive gstep ::
  "('m, 'k, u32) dashmap_ops \<Rightarrow> ('n, u32, 'k) dashmap_ops \<Rightarrow>
   ('m, 'n, 'k) gstate \<Rightarrow> ('m, 'n, 'k) gstate \<Rightarrow> bool" for T F where
  call: "pcs g t = Idle \<or> (\<exists>k i. pcs g t = Ret k i) \<Longrightarrow>
    gstep T F g (g\<lparr>pcs := (pcs g)(t := FastRead k)\<rparr>)"
| fast_hit: "pcs g t = FastRead k \<Longrightarrow> dm_get T (to_id (shared g)) k = Some i \<Longrightarrow>
    gstep T F g (g\<lparr>pcs := (pcs g)(t := Ret k i)\<rparr>)"
| fast_miss: "pcs g t = FastRead k \<Longrightarrow> dm_get T (to_id (shared g)) k = None \<Longrightarrow>
    gstep T F g (g\<lparr>pcs := (pcs g)(t := FetchAdd k)\<rparr>)"
| fetch_add: "pcs g t = FetchAdd k \<Longrightarrow>
    gstep T F g (g\<lparr>shared := (shared g)\<lparr>next_id := next_id (shared g) + 1\<rparr>,
      pcs := (pcs g)(t := EntryMatch k (next_id (shared g))), allocated := allocated g + 1\<rparr>)"
| occupied: "pcs g t = EntryMatch k n \<Longrightarrow> dm_get T (to_id (shared g)) k = Some i \<Longrightarrow>
    gstep T F g (g\<lparr>pcs := (pcs g)(t := Ret k i)\<rparr>)"
| vacant: "pcs g t = EntryMatch k n \<Longrightarrow> dm_get T (to_id (shared g)) k = None \<Longrightarrow>
    gstep T F g (g\<lparr>shared := (shared g)\<lparr>to_id := dm_insert T (to_id (shared g)) k n\<rparr>,
      pcs := (pcs g)(t := ReverseInsert k n)\<rparr>)"
| reverse: "pcs g t = ReverseInsert k n \<Longrightarrow>
    gstep T F g (g\<lparr>shared := (shared g)\<lparr>from_id := dm_insert F (from_id (shared g)) n k\<rparr>,
      pcs := (pcs g)(t := Ret k n)\<rparr>)"

inductive greach ::
  "('m, 'k, u32) dashmap_ops \<Rightarrow> ('n, u32, 'k) dashmap_ops \<Rightarrow> ('m, 'n, 'k) gstate \<Rightarrow> bool"
  for T F where
  start: "greach T F (ginit T F)"
| step: "greach T F g \<Longrightarrow> gstep T F g g' \<Longrightarrow> greach T F g'"

text \<open>A scheduler for concrete executions: \<open>spawn\<close> lets an idle thread call \<open>get_or_insert\<close>, \<open>exec\<close>
  runs the next step of a thread (if it has one).\<close>

definition spawn :: "nat \<Rightarrow> 'k \<Rightarrow> ('m, 'n, 'k) gstate \<Rightarrow> ('m, 'n, 'k) gstate" where
  "spawn t k g = (case pcs g t of
     Idle \<Rightarrow> g\<lparr>pcs := (pcs g)(t := FastRead k)\<rparr>
   | Ret _ _ \<Rightarrow> g\<lparr>pcs := (pcs g)(t := FastRead k)\<rparr>
   | _ \<Rightarrow> g)"

definition exec ::
  "('m, 'k, u32) dashmap_ops \<Rightarrow> ('n, u32, 'k) dashmap_ops \<Rightarrow> nat \<Rightarrow> ('m, 'n, 'k) gstate \<Rightarrow>
   ('m, 'n, 'k) gstate" where
  "exec T F t g = (case pcs g t of
     FastRead k \<Rightarrow> (case dm_get T (to_id (shared g)) k of
         Some i \<Rightarrow> g\<lparr>pcs := (pcs g)(t := Ret k i)\<rparr>
       | None \<Rightarrow> g\<lparr>pcs := (pcs g)(t := FetchAdd k)\<rparr>)
   | FetchAdd k \<Rightarrow> g\<lparr>shared := (shared g)\<lparr>next_id := next_id (shared g) + 1\<rparr>,
       pcs := (pcs g)(t := EntryMatch k (next_id (shared g))), allocated := allocated g + 1\<rparr>
   | EntryMatch k n \<Rightarrow> (case dm_get T (to_id (shared g)) k of
         Some i \<Rightarrow> g\<lparr>pcs := (pcs g)(t := Ret k i)\<rparr>
       | None \<Rightarrow> g\<lparr>shared := (shared g)\<lparr>to_id := dm_insert T (to_id (shared g)) k n\<rparr>,
           pcs := (pcs g)(t := ReverseInsert k n)\<rparr>)
   | ReverseInsert k n \<Rightarrow>
       g\<lparr>shared := (shared g)\<lparr>from_id := dm_insert F (from_id (shared g)) n k\<rparr>,
         pcs := (pcs g)(t := Ret k n)\<rparr>
   | _ \<Rightarrow> g)"

text \<open>Three threads, two of which ask for the same new pair at the same time.\<close>

definition race :: "nat list \<Rightarrow> ((key \<times> u32) list, (u32 \<times> key) list, key) gstate" where
  "race schedule = fold (exec alist_ops alist_ops) schedule
     (spawn 2 (''okx'', ''PEPEUSDT'') (spawn 1 (''bybit'', ''PEPEUSDT'')
        (spawn 0 (''bybit'', ''PEPEUSDT'') (ginit alist_ops alist_ops))))"

definition full_schedule :: "nat list" where
  "full_schedule = [0, 1, 2, 0, 1, 2, 0, 1, 0, 2, 2]"

section \<open>Invariants\<close>

text \<open>Both directions agree and the IDs in use lie below the counter.\<close>

definition sm_inv ::
  "('m, key, u32) dashmap_ops \<Rightarrow> ('n, u32, key) dashmap_ops \<Rightarrow> ('m \<Rightarrow> bool) \<Rightarrow> ('n \<Rightarrow> bool) \<Rightarrow>
   ('m, 'n) symbol_map \<Rightarrow> bool" where
  "sm_inv T F tinv finv m \<longleftrightarrow> tinv (to_id m) \<and> finv (from_id m) \<and> next_id m \<noteq> 0 \<and>
     (\<forall>k i. dm_get T (to_id m) k = Some i \<longleftrightarrow> dm_get F (from_id m) i = Some k) \<and>
     (\<forall>k i. dm_get T (to_id m) k = Some i \<longrightarrow> i \<noteq> 0 \<and> i < next_id m)"

definition sm_room :: "('m, 'n) symbol_map \<Rightarrow> bool" where
  "sm_room m \<longleftrightarrow> next_id m + 1 \<noteq> 0"

text \<open>Of the concurrent executions: the part that holds for ever, and the part that holds until the
  counter wraps.\<close>

definition ginv ::
  "('m, 'k, u32) dashmap_ops \<Rightarrow> ('m \<Rightarrow> bool) \<Rightarrow> ('n \<Rightarrow> bool) \<Rightarrow> ('m, 'n, 'k) gstate \<Rightarrow> bool" where
  "ginv T tinv finv g \<longleftrightarrow> tinv (to_id (shared g)) \<and> finv (from_id (shared g)) \<and>
     next_id (shared g) = of_nat (allocated g + 1) \<and>
     (\<forall>t k i. pcs g t = Ret k i \<or> pcs g t = ReverseInsert k i \<longrightarrow>
        dm_get T (to_id (shared g)) k = Some i)"

definition ginv_ids ::
  "('m, 'k, u32) dashmap_ops \<Rightarrow> ('n, u32, 'k) dashmap_ops \<Rightarrow> ('m, 'n, 'k) gstate \<Rightarrow> bool" where
  "ginv_ids T F g \<longleftrightarrow>
     (\<forall>k i. dm_get T (to_id (shared g)) k = Some i \<longrightarrow> 1 \<le> unat i \<and> unat i \<le> allocated g) \<and>
     (\<forall>t k n. pcs g t = EntryMatch k n \<longrightarrow> 1 \<le> unat n \<and> unat n \<le> allocated g) \<and>
     (\<forall>t k n k'. pcs g t = EntryMatch k n \<longrightarrow> dm_get T (to_id (shared g)) k' \<noteq> Some n) \<and>
     (\<forall>t k t' k' n. pcs g t = EntryMatch k n \<and> pcs g t' = EntryMatch k' n \<longrightarrow> t = t') \<and>
     (\<forall>k k' i. dm_get T (to_id (shared g)) k = Some i \<and> dm_get T (to_id (shared g)) k' = Some i
        \<longrightarrow> k = k') \<and>
     (\<forall>k i. dm_get T (to_id (shared g)) k = Some i \<longrightarrow>
        dm_get F (from_id (shared g)) i = Some k \<or> (\<exists>t. pcs g t = ReverseInsert k i)) \<and>
     (\<forall>k i. dm_get F (from_id (shared g)) i = Some k \<longrightarrow> dm_get T (to_id (shared g)) k = Some i)"

definition insert_key ::
  "('m, key, u32) dashmap_ops \<Rightarrow> ('n, u32, key) dashmap_ops \<Rightarrow> ('m, 'n) symbol_map \<Rightarrow> key \<Rightarrow>
   ('m, 'n) symbol_map" where
  "insert_key T F m k = fst (get_or_insert T F m (fst k) (snd k))"

section \<open>What DashMap promises\<close>

locale dashmap =
  fixes D :: "('m, 'k, 'v) dashmap_ops" and dm_inv :: "'m \<Rightarrow> bool"
  assumes dm_inv_new: "dm_inv (dm_new D)"
    and dm_inv_insert: "dm_inv m \<Longrightarrow> dm_inv (dm_insert D m k v)"
    and dm_get_new: "dm_get D (dm_new D) k = None"
    and dm_get_insert: "dm_inv m \<Longrightarrow>
      dm_get D (dm_insert D m k v) k' = (if k' = k then Some v else dm_get D m k')"
    and dm_finite: "dm_inv m \<Longrightarrow> finite (dom (dm_get D m))"
    and dm_len_card: "dm_inv m \<Longrightarrow> dm_len D m = card (dom (dm_get D m))"
begin

lemma dom_insert: "dm_inv m \<Longrightarrow> dom (dm_get D (dm_insert D m k v)) = insert k (dom (dm_get D m))"
  by (auto simp: dom_def dm_get_insert)

lemma len_insert:
  "dm_inv m \<Longrightarrow> dm_get D m k = None \<Longrightarrow> dm_len D (dm_insert D m k v) = dm_len D m + 1"
  by (simp add: dm_len_card dm_inv_insert dom_insert dm_finite domIff)

end

text \<open>An association list meets these laws.\<close>

interpretation alist: dashmap alist_ops "\<lambda>_. True"
proof
  fix m :: "('a \<times> 'b) list"
  show "finite (dom (dm_get alist_ops m))" by (simp add: alist_ops_def finite_dom_map_of)
  show "dm_len alist_ops m = card (dom (dm_get alist_ops m))"
    by (simp add: alist_ops_def dom_map_of_conv_image_fst length_remdups_card_conv)
qed (auto simp: alist_ops_def)

section \<open>The sequential contract\<close>

text \<open>The interface the rest of the program uses: \<open>goi\<close> hands out IDs, \<open>lookup\<close> resolves them,
  \<open>room\<close> says that the 32-bit counter has not run out.\<close>

locale symbol_index =
  fixes goi :: "'s \<Rightarrow> string \<Rightarrow> string \<Rightarrow> 's \<times> u32"
    and lookup :: "'s \<Rightarrow> u32 \<Rightarrow> key option"
    and inv room :: "'s \<Rightarrow> bool"
  assumes goi_inv: "inv s \<Longrightarrow> room s \<Longrightarrow> inv (fst (goi s e y))"
    and goi_lookup: "inv s \<Longrightarrow> room s \<Longrightarrow> lookup (fst (goi s e y)) (snd (goi s e y)) = Some (e, y)"
    and goi_keeps: "inv s \<Longrightarrow> room s \<Longrightarrow> lookup s i = Some k \<Longrightarrow>
      lookup (fst (goi s e y)) i = Some k"
    and lookup_goi: "inv s \<Longrightarrow> lookup s i = Some (e, y) \<Longrightarrow> goi s e y = (s, i)"
begin

text \<open>Asking again for the same pair changes nothing and returns the same ID; different pairs have
  different IDs.\<close>

lemma goi_again:
  assumes "inv s" "room s" shows "goi (fst (goi s e y)) e y = (fst (goi s e y), snd (goi s e y))"
  using assms by (intro lookup_goi goi_inv goi_lookup)

lemma goi_inj:
  assumes "inv s" "room s" "room (fst (goi s e y))"
    and "snd (goi (fst (goi s e y)) e' y') = snd (goi s e y)"
  shows "(e', y') = (e, y)"
proof -
  let ?s = "fst (goi s e y)"
  have i: "inv ?s" using assms goi_inv by blast
  have "lookup (fst (goi ?s e' y')) (snd (goi s e y)) = Some (e, y)"
    using i assms by (intro goi_keeps goi_lookup)
  moreover have "lookup (fst (goi ?s e' y')) (snd (goi s e y)) = Some (e', y')"
    using goi_lookup[OF i assms(3), of e' y'] assms(4) by simp
  ultimately show ?thesis by simp
qed

end

text \<open>\<open>SymbolMap\<close> provides it, whatever the two maps are, as long as they are maps.\<close>

locale dashmap_pair = T: dashmap T tinv + F: dashmap F finv
  for T :: "('m, 'k, u32) dashmap_ops" and F :: "('n, u32, 'k) dashmap_ops" and tinv finv

locale symbol_maps = dashmap_pair T F tinv finv
  for T :: "('m, key, u32) dashmap_ops" and F :: "('n, u32, key) dashmap_ops" and tinv finv
begin

lemma goi_known:
  "dm_get T (to_id m) (e, y) = Some i \<Longrightarrow> get_or_insert T F m e y = (m, i)"
  by (simp add: get_or_insert_def)

lemma goi_new:
  "dm_get T (to_id m) (e, y) = None \<Longrightarrow> get_or_insert T F m e y =
     (m\<lparr>to_id := dm_insert T (to_id m) (e, y) (next_id m),
        from_id := dm_insert F (from_id m) (next_id m) (e, y), next_id := next_id m + 1\<rparr>,
      next_id m)"
  by (simp add: get_or_insert_def Let_def)

lemma room_less: "sm_room m \<Longrightarrow> i < next_id m + 1 \<longleftrightarrow> i \<le> next_id m"
  unfolding sm_room_def by (rule word_less_succ_iff)

lemma sm_inv_goi:
  assumes "sm_inv T F tinv finv m" "sm_room m"
  shows "sm_inv T F tinv finv (fst (get_or_insert T F m e y))"
proof (cases "dm_get T (to_id m) (e, y)")
  case None
  have fresh: "dm_get F (from_id m) (next_id m) = None"
    using assms(1) unfolding sm_inv_def by (metis not_None_eq order_less_irrefl)
  have key: "dm_get F (from_id m) i \<noteq> Some (e, y)" for i
    using assms(1) None unfolding sm_inv_def by (metis option.distinct(1))
  have le: "i \<le> next_id m" if "dm_get F (from_id m) i = Some k" for i k
    using assms(1) that unfolding sm_inv_def by (metis order_less_imp_le)
  show ?thesis
    using assms None fresh key
    by (auto simp: goi_new sm_inv_def sm_room_def T.dm_get_insert F.dm_get_insert
        T.dm_inv_insert F.dm_inv_insert word_less_succ_iff simp del: split_paired_All
        dest: le)
qed (simp add: goi_known assms)

end

sublocale symbol_maps \<subseteq> si: symbol_index "get_or_insert T F" "SymbolMap_get F"
  "sm_inv T F tinv finv" sm_room
proof
  fix s e y i and k :: key
  assume s: "sm_inv T F tinv finv s"
  show "get_or_insert T F s e y = (s, i)" if "SymbolMap_get F s i = Some (e, y)"
    using that s by (intro goi_known) (auto simp: sm_inv_def SymbolMap_get_def)
  assume r: "sm_room s"
  show "sm_inv T F tinv finv (fst (get_or_insert T F s e y))" by (rule sm_inv_goi[OF s r])
  show "SymbolMap_get F (fst (get_or_insert T F s e y)) (snd (get_or_insert T F s e y)) = Some (e, y)"
    using s by (cases "dm_get T (to_id s) (e, y)")
      (auto simp: goi_known goi_new SymbolMap_get_def sm_inv_def F.dm_get_insert)
  show "SymbolMap_get F (fst (get_or_insert T F s e y)) i = Some k" if "SymbolMap_get F s i = Some k"
  proof -
    have "i < next_id s"
      using that s by (auto simp: sm_inv_def SymbolMap_get_def simp del: split_paired_All)
    then show ?thesis using that s by (cases "dm_get T (to_id s) (e, y)")
        (auto simp: goi_known goi_new SymbolMap_get_def sm_inv_def F.dm_get_insert)
  qed
qed

section \<open>Pre-allocation\<close>

context symbol_maps
begin

lemmas goi_facts = si.goi_lookup si.goi_again si.goi_keeps

lemma goi_fold_fresh:
  assumes "sm_inv T F tinv finv m" "distinct ks" "\<forall>k \<in> set ks. dm_get T (to_id m) k = None"
    and "unat (next_id m) + length ks < 2 ^ 32"
  shows "sm_inv T F tinv finv (foldl (insert_key T F) m ks) \<and>
    next_id (foldl (insert_key T F) m ks) = next_id m + of_nat (length ks) \<and>
    dm_len T (to_id (foldl (insert_key T F) m ks)) = dm_len T (to_id m) + length ks \<and>
    (\<forall>k i. dm_get T (to_id m) k = Some i \<longrightarrow>
      dm_get T (to_id (foldl (insert_key T F) m ks)) k = Some i) \<and>
    (\<forall>j<length ks. dm_get T (to_id (foldl (insert_key T F) m ks)) (ks ! j) =
      Some (next_id m + of_nat j))"
  using assms
proof (induction ks arbitrary: m)
  case Nil
  then show ?case by simp
next
  case (Cons k ks)
  let ?m = "insert_key T F m k" and ?m' = "foldl (insert_key T F) (insert_key T F m k) ks"
  have none: "dm_get T (to_id m) k = None" using Cons.prems(3) by auto
  have tinv: "tinv (to_id m)" using Cons.prems(1) by (simp add: sm_inv_def)
  have nxt: "next_id ?m = next_id m + 1"
    and get: "dm_get T (to_id ?m) k' = (if k' = k then Some (next_id m) else dm_get T (to_id m) k')"
    and len: "dm_len T (to_id ?m) = dm_len T (to_id m) + 1" for k'
    using tinv none by (cases k; simp add: insert_key_def goi_new T.dm_get_insert T.len_insert)+
  have room: "unat (next_id m + 1) = unat (next_id m) + 1"
    using Cons.prems(4) by (simp add: unat_plus_if')
  then have "sm_room m" unfolding sm_room_def by (metis add_is_0 one_neq_zero unat_0)
  then have inv: "sm_inv T F tinv finv ?m"
    unfolding insert_key_def by (rule sm_inv_goi[OF Cons.prems(1)])
  have IH: "sm_inv T F tinv finv ?m' \<and> next_id ?m' = next_id ?m + of_nat (length ks) \<and>
    dm_len T (to_id ?m') = dm_len T (to_id ?m) + length ks \<and>
    (\<forall>k i. dm_get T (to_id ?m) k = Some i \<longrightarrow> dm_get T (to_id ?m') k = Some i) \<and>
    (\<forall>j<length ks. dm_get T (to_id ?m') (ks ! j) = Some (next_id ?m + of_nat j))"
    using Cons.prems inv nxt room get by (intro Cons.IH) auto
  have old: "dm_get T (to_id ?m) k' = Some i" if "dm_get T (to_id m) k' = Some i" for k' i
    using that none get[of k'] by auto
  have new: "dm_get T (to_id ?m) k = Some (next_id m)" by (simp add: get)
  show ?case
  proof (intro conjI allI impI)
    fix j assume "j < length (k # ks)"
    then show "dm_get T (to_id (foldl (insert_key T F) m (k # ks))) ((k # ks) ! j) =
        Some (next_id m + of_nat j)"
      using IH new nxt by (cases j) (auto simp: add.assoc simp del: split_paired_All)
  qed (use IH nxt len old in \<open>auto simp: add.assoc\<close>)
qed

lemma prealloc_product:
  "preallocate_common_symbols T F m =
     foldl (insert_key T F) m
       (List.product common_exchanges common_symbols)"
proof -
  have "foldl (\<lambda>m e. foldl (\<lambda>m y. fst (get_or_insert T F m e y)) m ys) m es =
      foldl (insert_key T F) m (List.product es ys)" for es ys m
    by (induction es arbitrary: m) (simp_all add: foldl_map insert_key_def)
  then show ?thesis by (simp add: preallocate_common_symbols_def)
qed

lemma sm_inv_empty: "sm_inv T F tinv finv \<lparr>to_id = dm_new T, from_id = dm_new F, next_id = 1\<rparr>"
  by (simp add: sm_inv_def T.dm_inv_new F.dm_inv_new T.dm_get_new F.dm_get_new)

lemma SymbolMap_new_props:
  "sm_inv T F tinv finv (SymbolMap_new T F)" "next_id (SymbolMap_new T F) = 61"
  "SymbolMap_len T (SymbolMap_new T F) = 60"
  "j < 60 \<Longrightarrow> dm_get T (to_id (SymbolMap_new T F))
     (List.product common_exchanges common_symbols ! j) = Some (1 + of_nat j)"
proof -
  have l: "length (List.product common_exchanges common_symbols) = 60"
    by (simp add: common_exchanges_def common_symbols_def)
  have d: "distinct (List.product common_exchanges common_symbols)"
    by (intro distinct_product) (simp_all add: common_exchanges_def common_symbols_def)
  have len0: "dm_len T (dm_new T) = 0"
    by (simp add: T.dm_len_card T.dm_inv_new T.dm_get_new dom_def)
  note props = goi_fold_fresh[OF sm_inv_empty d, simplified l, folded prealloc_product,
      folded SymbolMap_new_def]
  show "sm_inv T F tinv finv (SymbolMap_new T F)" "next_id (SymbolMap_new T F) = 61"
    "SymbolMap_len T (SymbolMap_new T F) = 60"
    "j < 60 \<Longrightarrow> dm_get T (to_id (SymbolMap_new T F))
     (List.product common_exchanges common_symbols ! j) = Some (1 + of_nat j)"
    using props by (simp_all add: T.dm_get_new len0 SymbolMap_len_def)
qed

end

section \<open>Concurrent executions: invariants\<close>

inductive_cases gstep_cases: "gstep T F g g'"

context dashmap_pair
begin

lemma ginv_init: "ginv T tinv finv (ginit T F)"
  by (simp add: ginv_def ginit_def T.dm_inv_new F.dm_inv_new)

lemma ginv_step: "ginv T tinv finv g \<Longrightarrow> gstep T F g g' \<Longrightarrow> ginv T tinv finv g'"
  by (erule gstep_cases) (auto simp: ginv_def T.dm_inv_insert F.dm_inv_insert T.dm_get_insert)

lemma ginv_reach: "greach T F g \<Longrightarrow> ginv T tinv finv g"
  by (induction rule: greach.induct) (auto intro: ginv_init ginv_step)

lemma ginv_ids_init: "ginv_ids T F (ginit T F)"
  by (simp add: ginv_ids_def ginit_def T.dm_get_new F.dm_get_new)

lemma ginv_idsD:
  assumes "ginv_ids T F g"
  shows "dm_get T (to_id (shared g)) k = Some i \<Longrightarrow> 1 \<le> unat i \<and> unat i \<le> allocated g"
    and "pcs g t = EntryMatch k n \<Longrightarrow> 1 \<le> unat n \<and> unat n \<le> allocated g"
    and "pcs g t = EntryMatch k n \<Longrightarrow> dm_get T (to_id (shared g)) k' \<noteq> Some n"
    and "pcs g t = EntryMatch k n \<Longrightarrow> pcs g t' = EntryMatch k' n \<Longrightarrow> t = t'"
    and "dm_get T (to_id (shared g)) k = Some i \<Longrightarrow> dm_get T (to_id (shared g)) k' = Some i
        \<Longrightarrow> k = k'"
    and "dm_get T (to_id (shared g)) k = Some i \<Longrightarrow>
        dm_get F (from_id (shared g)) i = Some k \<or> (\<exists>t. pcs g t = ReverseInsert k i)"
    and "dm_get F (from_id (shared g)) i = Some k \<Longrightarrow> dm_get T (to_id (shared g)) k = Some i"
  using assms unfolding ginv_ids_def by (elim conjE; simp)+

lemma ginv_ids_fetch_add:
  assumes g: "ginv_ids T F g" and n: "unat n = allocated g + 1" and t: "pcs g t = FetchAdd k"
  shows "ginv_ids T F (g\<lparr>shared := (shared g)\<lparr>next_id := x\<rparr>,
    pcs := (pcs g)(t := EntryMatch k n), allocated := allocated g + 1\<rparr>)"
proof -
  note D = ginv_idsD[OF g]
  have 1: "dm_get T (to_id (shared g)) k' \<noteq> Some n" for k' using D(1)[of k' n] n by auto
  have 2: "pcs g t' \<noteq> EntryMatch k' n" for t' k' using D(2)[of t' k' n] n by auto
  have r: "dm_get F (from_id (shared g)) i = Some k'"
    if "dm_get T (to_id (shared g)) k' = Some i"
      "\<forall>ta. ta = t \<or> ta \<noteq> t \<and> pcs g ta \<noteq> ReverseInsert k' i" for k' i
    using D(6)[of k' i] that t by force
  show ?thesis
    unfolding ginv_ids_def
    by (intro conjI allI impI)
      (auto split: if_splits simp: 1 2 n t le_SucI dest: D intro: r)
qed

lemma ginv_ids_vacant:
  assumes g: "ginv T tinv finv g" "ginv_ids T F g" and t: "pcs g t = EntryMatch k n"
    and k: "dm_get T (to_id (shared g)) k = None"
  shows "ginv_ids T F (g\<lparr>shared := (shared g)\<lparr>to_id := dm_insert T (to_id (shared g)) k n\<rparr>,
    pcs := (pcs g)(t := ReverseInsert k n)\<rparr>)"
proof -
  note D = ginv_idsD[OF g(2)]
  have i: "tinv (to_id (shared g))" using g(1) by (simp add: ginv_def)
  have r: "dm_get F (from_id (shared g)) i = Some k'"
    if "dm_get T (to_id (shared g)) k' = Some i"
      "\<forall>ta. ta = t \<or> ta \<noteq> t \<and> pcs g ta \<noteq> ReverseInsert k' i" for k' i
    using D(6)[of k' i] that t by force
  show ?thesis
    unfolding ginv_ids_def
    by (intro conjI allI impI)
      (use t k in \<open>auto split: if_splits simp: T.dm_get_insert[OF i] dest: D intro: r\<close>)
qed

lemma ginv_ids_reverse:
  assumes g: "ginv T tinv finv g" "ginv_ids T F g" and t: "pcs g t = ReverseInsert k n"
  shows "ginv_ids T F (g\<lparr>shared := (shared g)\<lparr>from_id := dm_insert F (from_id (shared g)) n k\<rparr>,
    pcs := (pcs g)(t := Ret k n)\<rparr>)"
proof -
  note D = ginv_idsD[OF g(2)]
  have i: "finv (from_id (shared g))" and k: "dm_get T (to_id (shared g)) k = Some n"
    using g(1) t by (simp_all add: ginv_def)
  have r: "dm_get F (from_id (shared g)) i = Some k'"
    if "dm_get T (to_id (shared g)) k' = Some i"
      "\<forall>ta. ta = t \<or> ta \<noteq> t \<and> pcs g ta \<noteq> ReverseInsert k' i" "i \<noteq> n" for k' i
    using D(6)[of k' i] that t by force
  show ?thesis
    unfolding ginv_ids_def
    by (intro conjI allI impI)
      (use t k in \<open>auto split: if_splits simp: F.dm_get_insert[OF i] dest: D intro: r\<close>)
qed

text \<open>A step that only moves a program counter, away from neither a pending reverse insertion nor
  towards an unused ID, keeps the invariant.\<close>

lemma ginv_ids_local:
  assumes g: "ginv_ids T F g" and t: "\<forall>k n. pcs g t \<noteq> ReverseInsert k n"
    and c: "\<forall>k n. c \<noteq> EntryMatch k n"
  shows "ginv_ids T F (g\<lparr>pcs := (pcs g)(t := c)\<rparr>)"
proof -
  note D = ginv_idsD[OF g]
  have r: "dm_get F (from_id (shared g)) i = Some k'"
    if "dm_get T (to_id (shared g)) k' = Some i"
      "\<forall>ta. (ta = t \<longrightarrow> c \<noteq> ReverseInsert k' i) \<and> (ta \<noteq> t \<longrightarrow> pcs g ta \<noteq> ReverseInsert k' i)" for k' i
    using D(6)[of k' i] that t by force
  show ?thesis
    unfolding ginv_ids_def
    by (intro conjI allI impI)
      (use c in \<open>auto split: if_splits dest: D intro: r\<close>)
qed

lemma ginv_ids_step:
  assumes "ginv T tinv finv g" "ginv_ids T F g" "gstep T F g g'" "allocated g' < 2 ^ 32"
  shows "ginv_ids T F g'"
  using assms(3)
proof (cases rule: gstep.cases)
  case (fetch_add t k)
  have "unat (next_id (shared g)) = allocated g + 1"
    using assms(1,4) fetch_add(1) by (simp add: ginv_def unat_of_nat del: of_nat_Suc of_nat_add)
  then show ?thesis unfolding fetch_add(1) using assms(2) fetch_add(2) by (intro ginv_ids_fetch_add)
next
  case (vacant t k n)
  then show ?thesis using assms(1,2) by (simp add: ginv_ids_vacant)
next
  case (reverse t k n)
  then show ?thesis using assms(1,2) by (simp add: ginv_ids_reverse)
qed (use assms(2) in \<open>auto intro!: ginv_ids_local\<close>)

lemma allocated_mono: "gstep T F g g' \<Longrightarrow> allocated g \<le> allocated g'"
  by (erule gstep_cases) auto

lemma ginv_ids_reach: "greach T F g \<Longrightarrow> allocated g < 2 ^ 32 \<Longrightarrow> ginv_ids T F g"
proof (induction rule: greach.induct)
  case (step g g')
  then show ?case using allocated_mono[of g g'] ginv_reach[of g] ginv_ids_step[of g g'] by auto
qed (rule ginv_ids_init)

lemma Ret_to_id: "greach T F g \<Longrightarrow> pcs g t = Ret k i \<Longrightarrow> dm_get T (to_id (shared g)) k = Some i"
  using ginv_reach by (auto simp: ginv_def)

end

interpretation alist_pair: symbol_maps alist_ops alist_ops "\<lambda>_. True" "\<lambda>_. True" ..

lemma greach_spawn: "greach T F g \<Longrightarrow> greach T F (spawn t k g)"
  by (auto simp: spawn_def split: pc.splits intro: greach.step gstep.call)

lemma greach_exec: "greach T F g \<Longrightarrow> greach T F (exec T F t g)"
  by (auto simp: exec_def split: pc.splits option.splits intro: greach.step gstep.intros
      gstep.fetch_add[simplified])

lemma greach_fold_exec: "greach T F g \<Longrightarrow> greach T F (fold (exec T F) ts g)"
  by (induction ts arbitrary: g) (auto simp: greach_exec)

lemma greach_race: "greach alist_ops alist_ops (race ts)"
  unfolding race_def by (intro greach_fold_exec greach_spawn greach.start)

lemma dashmap_pair_of: "dashmap T tinv \<Longrightarrow> dashmap F finv \<Longrightarrow> dashmap_pair T F tinv finv"
  by (simp add: dashmap_pair_def)

lemma symbol_maps_of: "dashmap T tinv \<Longrightarrow> dashmap F finv \<Longrightarrow> symbol_maps T F tinv finv"
  by (simp add: symbol_maps_def dashmap_pair_def)

lemma dashmap_alist: "dashmap alist_ops (\<lambda>_. True)"
  by (rule alist.dashmap_axioms)

text \<open>Between the insertion into the forward map and the one into the reverse map, another thread
  can already return an ID that does not resolve.\<close>

lemma id_may_not_resolve_yet:
  "greach alist_ops alist_ops (race [0, 1, 2, 0, 1, 2, 0, 1])"
  "pcs (race [0, 1, 2, 0, 1, 2, 0, 1]) 1 = Ret (''bybit'', ''PEPEUSDT'') 1"
  "SymbolMap_get alist_ops (shared (race [0, 1, 2, 0, 1, 2, 0, 1])) 1 = None"
  by (rule greach_race) code_simp+

lemma race_full:
  "allocated (race full_schedule) = 3"
  "pcs (race full_schedule) 0 = Ret (''bybit'', ''PEPEUSDT'') 1"
  "pcs (race full_schedule) 1 = Ret (''bybit'', ''PEPEUSDT'') 1"
  "pcs (race full_schedule) 2 = Ret (''okx'', ''PEPEUSDT'') 3"
  by code_simp+

lemma race_no_reverse: "\<forall>u k n. pcs (race full_schedule) u \<noteq> ReverseInsert k n"
  by (simp add: race_def full_schedule_def exec_def spawn_def ginit_def alist_ops_def)

section \<open>Properties\<close>

text \<open>C4. Concurrent agreement: in every interleaving of any number of threads that run
  \<open>get_or_insert\<close>, two calls for the same (exchange, symbol) pair return the same ID, also when both
  missed the fast path and drew different fresh IDs.\<close>

theorem concurrent_ids_agree:
  assumes "dashmap T tinv" and "dashmap F finv" and "greach T F g"
    and "pcs g t = Ret k i" and "pcs g u = Ret k j"
  shows "i = j"
  using dashmap_pair.Ret_to_id[OF dashmap_pair_of[OF assms(1,2)] assms(3,4)]
    dashmap_pair.Ret_to_id[OF dashmap_pair_of[OF assms(1,2)] assms(3,5)] by simp

theorem concurrent_ids_agree_witness:
  "pcs (race full_schedule) 0 = Ret (''bybit'', ''PEPEUSDT'') 1 \<and>
   pcs (race full_schedule) 1 = Ret (''bybit'', ''PEPEUSDT'') 1 \<and> (1 :: u32) = 1"
  by (intro conjI race_full)
    (rule concurrent_ids_agree[OF dashmap_alist dashmap_alist greach_race race_full(2,3)])

text \<open>C34. Concurrent uniqueness: until the 32-bit counter wraps (\<open>2 ^ 32\<close> calls of \<open>fetch_add\<close>),
  different pairs never get the same ID, in any interleaving.\<close>

theorem concurrent_ids_unique:
  assumes "dashmap T tinv" and "dashmap F finv" and "greach T F g" and "allocated g < 2 ^ 32"
    and "pcs g t = Ret k i" and "pcs g u = Ret k' j" and "k \<noteq> k'"
  shows "i \<noteq> j"
  using dashmap_pair.Ret_to_id[OF dashmap_pair_of[OF assms(1,2)] assms(3,5)]
    dashmap_pair.Ret_to_id[OF dashmap_pair_of[OF assms(1,2)] assms(3,6)]
    dashmap_pair.ginv_idsD(5)[OF dashmap_pair_of[OF assms(1,2)]
      dashmap_pair.ginv_ids_reach[OF dashmap_pair_of[OF assms(1,2)] assms(3,4)]] assms(7) by blast

theorem concurrent_ids_unique_witness:
  "pcs (race full_schedule) 1 = Ret (''bybit'', ''PEPEUSDT'') 1 \<and>
   pcs (race full_schedule) 2 = Ret (''okx'', ''PEPEUSDT'') 3 \<and> (1 :: u32) \<noteq> 3"
  by (intro conjI race_full)
    (rule concurrent_ids_unique[OF dashmap_alist dashmap_alist greach_race _ race_full(3,4)];
     simp add: race_full)

text \<open>Concurrent resolution: whenever no thread stands between its two insertions, every ID
  that was returned resolves to the pair it was returned for.\<close>

lemma concurrent_ids_resolve:
  assumes "dashmap T tinv" and "dashmap F finv" and "greach T F g" and "allocated g < 2 ^ 32"
    and "\<forall>u k n. pcs g u \<noteq> ReverseInsert k n" and "pcs g t = Ret k i"
  shows "SymbolMap_get F (shared g) i = Some k"
  using dashmap_pair.ginv_idsD(6)[OF dashmap_pair_of[OF assms(1,2)]
      dashmap_pair.ginv_ids_reach[OF dashmap_pair_of[OF assms(1,2)] assms(3,4)]
      dashmap_pair.Ret_to_id[OF dashmap_pair_of[OF assms(1,2)] assms(3,6)]] assms(5)
  by (simp add: SymbolMap_get_def)

text \<open>Sequential round trip: \<open>get_or_insert\<close> keeps the two maps consistent, returns a non-zero ID
  that \<open>get\<close> resolves to the pair, returns the same ID when asked again, and leaves every ID handed
  out before resolving as it did.\<close>

lemma get_or_insert_roundtrip:
  assumes "dashmap T tinv" and "dashmap F finv" and "sm_inv T F tinv finv m" and "sm_room m"
    and "get_or_insert T F m e y = (m', i)"
  shows "sm_inv T F tinv finv m' \<and> SymbolMap_get F m' i = Some (e, y) \<and>
    get_or_insert T F m' e y = (m', i) \<and>
    (\<forall>j k. SymbolMap_get F m j = Some k \<longrightarrow> SymbolMap_get F m' j = Some k)"
proof -
  note sm = symbol_maps_of[OF assms(1,2)]
  have "m' = fst (get_or_insert T F m e y)" "i = snd (get_or_insert T F m e y)"
    using assms(5) by simp_all
  then show ?thesis
    using symbol_maps.sm_inv_goi[OF sm assms(3,4)] symbol_maps.goi_facts[OF sm assms(3,4)]
    by blast
qed

text \<open>A new map holds exactly the 60 pre-allocated pairs, the j-th of them in the nesting order
  of the loops under the ID j + 1, and continues with ID 61.\<close>

theorem SymbolMap_new_preallocates:
  assumes "dashmap T tinv" and "dashmap F finv"
  shows "SymbolMap_len T (SymbolMap_new T F) = 60 \<and> next_id (SymbolMap_new T F) = 61 \<and>
    sm_inv T F tinv finv (SymbolMap_new T F) \<and>
    (\<forall>j<60. SymbolMap_get F (SymbolMap_new T F) (1 + of_nat j) =
       Some (List.product common_exchanges common_symbols ! j))"
proof -
  note props = symbol_maps.SymbolMap_new_props[OF symbol_maps_of[OF assms]]
  have "SymbolMap_get F (SymbolMap_new T F) (1 + of_nat j) =
      Some (List.product common_exchanges common_symbols ! j)" if "j < 60" for j
    using props(1) props(4)[OF that] unfolding sm_inv_def SymbolMap_get_def by blast
  with props show ?thesis by blast
qed

end
