(* ===== verification/Array_Queue.thy ===== *)
theory Array_Queue
  imports Types "HOL-Library.Sublist"
begin

text \<open>
  The bounded queue the pipelines are built on, and the contract they offer on top of it.

  \<open>ArrayQueue\<close> is a type of the crossbeam-queue crate.  Its operations are a record that the
  pipelines take as an argument; the locale \<open>array_queue\<close> states what its documentation promises:
  a bounded first-in-first-out queue whose \<open>push\<close> hands the element back when the queue is full.
  \<open>ArrayQueue::new\<close> panics on capacity 0, which is \<open>None\<close> here.

  \<open>drop_oldest\<close> is the contract of the three pipelines of the program (market updates, order
  requests, opportunities): a \<open>put\<close> that always succeeds and evicts the oldest element when full, a
  \<open>get\<close>, and counters.  The consequences are proved once, for every sequence of operations.
\<close>

section \<open>ArrayQueue\<close>

record ('q, 'a) array_queue_ops =
  aq_new :: "nat \<Rightarrow> 'q option"
  aq_push :: "'q \<Rightarrow> 'a \<Rightarrow> 'q \<times> (unit, 'a) result"
  aq_pop :: "'q \<Rightarrow> 'q \<times> 'a option"
  aq_len :: "'q \<Rightarrow> nat"
  aq_capacity :: "'q \<Rightarrow> nat"
  aq_is_full :: "'q \<Rightarrow> bool"
  aq_is_empty :: "'q \<Rightarrow> bool"

text \<open>A list with its capacity is one implementation.\<close>

fun lq_push :: "nat \<times> 'a list \<Rightarrow> 'a \<Rightarrow> (nat \<times> 'a list) \<times> (unit, 'a) result" where
  "lq_push (n, xs) x = (if length xs < n then ((n, xs @ [x]), Ok ()) else ((n, xs), Err x))"

fun lq_pop :: "nat \<times> 'a list \<Rightarrow> (nat \<times> 'a list) \<times> 'a option" where
  "lq_pop (n, []) = ((n, []), None)"
| "lq_pop (n, x # xs) = ((n, xs), Some x)"

definition list_queue :: "(nat \<times> 'a list, 'a) array_queue_ops" where
  "list_queue = \<lparr>aq_new = (\<lambda>n. if n = 0 then None else Some (n, [])), aq_push = lq_push,
     aq_pop = lq_pop, aq_len = (\<lambda>q. length (snd q)), aq_capacity = fst,
     aq_is_full = (\<lambda>q. length (snd q) = fst q), aq_is_empty = (\<lambda>q. snd q = [])\<rparr>"

abbreviation lq_ok :: "nat \<times> 'a list \<Rightarrow> bool" where
  "lq_ok \<equiv> \<lambda>q. length (snd q) \<le> fst q \<and> 0 < fst q"

text \<open>The loop \<open>for _ in 0..max_batch { match pop() { Some(x) => batch.push(x), None => break } }\<close>.\<close>

fun batch_loop :: "('s \<Rightarrow> 's \<times> 'a option) \<Rightarrow> nat \<Rightarrow> 's \<Rightarrow> 's \<times> 'a list" where
  "batch_loop pop 0 s = (s, [])"
| "batch_loop pop (Suc n) s =
     (case pop s of
        (s', Some x) \<Rightarrow> (let (s'', xs) = batch_loop pop n s' in (s'', x # xs))
      | (s', None) \<Rightarrow> (s', []))"

text \<open>A run of a queue with the operations \<open>put\<close> and \<open>get\<close>: the final state and the elements
  delivered by the \<open>get\<close>s.\<close>

datatype 'a queue_op = Put 'a | Get

fun run_ops :: "('s \<Rightarrow> 'a \<Rightarrow> 's) \<Rightarrow> ('s \<Rightarrow> 's \<times> 'a option) \<Rightarrow> 's \<Rightarrow> 'a queue_op list \<Rightarrow> 's \<times> 'a list" where
  "run_ops put get s [] = (s, [])"
| "run_ops put get s (Put x # ops) = run_ops put get (put s x) ops"
| "run_ops put get s (Get # ops) =
     (let (s', ys) = run_ops put get (fst (get s)) ops in
      (s', (case snd (get s) of Some y \<Rightarrow> y # ys | None \<Rightarrow> ys)))"

fun inputs :: "'a queue_op list \<Rightarrow> 'a list" where
  "inputs [] = []"
| "inputs (Put x # ops) = x # inputs ops"
| "inputs (Get # ops) = inputs ops"

section \<open>What ArrayQueue promises\<close>

locale array_queue =
  fixes Q :: "('q, 'a) array_queue_ops" and items :: "'q \<Rightarrow> 'a list" and ok :: "'q \<Rightarrow> bool"
  assumes new_zero: "aq_new Q 0 = None"
    and new_pos: "0 < n \<Longrightarrow> \<exists>q. aq_new Q n = Some q \<and> ok q \<and> items q = [] \<and> aq_capacity Q q = n"
    and bounded: "ok q \<Longrightarrow> length (items q) \<le> aq_capacity Q q \<and> 0 < aq_capacity Q q"
    and push_room: "ok q \<Longrightarrow> length (items q) < aq_capacity Q q \<Longrightarrow>
      \<exists>q'. aq_push Q q x = (q', Ok ()) \<and> ok q' \<and> items q' = items q @ [x] \<and>
        aq_capacity Q q' = aq_capacity Q q"
    and push_full: "ok q \<Longrightarrow> length (items q) = aq_capacity Q q \<Longrightarrow> aq_push Q q x = (q, Err x)"
    and pop_empty: "ok q \<Longrightarrow> items q = [] \<Longrightarrow> aq_pop Q q = (q, None)"
    and pop_some: "ok q \<Longrightarrow> items q = y # ys \<Longrightarrow>
      \<exists>q'. aq_pop Q q = (q', Some y) \<and> ok q' \<and> items q' = ys \<and>
        aq_capacity Q q' = aq_capacity Q q"
    and len: "ok q \<Longrightarrow> aq_len Q q = length (items q)"
    and is_full: "ok q \<Longrightarrow> aq_is_full Q q \<longleftrightarrow> length (items q) = aq_capacity Q q"
    and is_empty: "ok q \<Longrightarrow> aq_is_empty Q q \<longleftrightarrow> items q = []"

interpretation list_queue: array_queue list_queue snd lq_ok
proof
  fix q :: "nat \<times> 'a list" and y ys
  assume "length (snd q) \<le> fst q \<and> 0 < fst q" "snd q = y # ys"
  then show "\<exists>q'. aq_pop list_queue q = (q', Some y) \<and> (length (snd q') \<le> fst q' \<and> 0 < fst q') \<and>
      snd q' = ys \<and> aq_capacity list_queue q' = aq_capacity list_queue q"
    by (cases q) (auto simp: list_queue_def)
next
  fix q :: "nat \<times> 'a list"
  assume "length (snd q) \<le> fst q \<and> 0 < fst q" "snd q = []"
  then show "aq_pop list_queue q = (q, None)" by (cases q) (auto simp: list_queue_def)
qed (auto simp: list_queue_def)

section \<open>The contract of the pipelines\<close>

locale drop_oldest =
  fixes put :: "'s \<Rightarrow> 'a \<Rightarrow> 's" and get :: "'s \<Rightarrow> 's \<times> 'a option"
    and contents :: "'s \<Rightarrow> 'a list" and cap :: "'s \<Rightarrow> nat" and inv :: "'s \<Rightarrow> bool"
    and puts gets drops :: "'s \<Rightarrow> u64"
  assumes inv_bound: "inv s \<Longrightarrow> length (contents s) \<le> cap s"
    and put_law: "inv s \<Longrightarrow> inv (put s x) \<and> cap (put s x) = cap s \<and>
      contents (put s x) = lastn (cap s) (contents s @ [x])"
    and put_counts: "inv s \<Longrightarrow> puts (put s x) = puts s + 1 \<and> gets (put s x) = gets s \<and>
      drops (put s x) = drops s + (if length (contents s) < cap s then 0 else 1)"
    and get_law: "inv s \<Longrightarrow> inv (fst (get s)) \<and> cap (fst (get s)) = cap s \<and>
      contents (fst (get s)) = tl (contents s) \<and>
      snd (get s) = (case contents s of [] \<Rightarrow> None | x # _ \<Rightarrow> Some x)"
    and get_counts: "inv s \<Longrightarrow> puts (fst (get s)) = puts s \<and> drops (fst (get s)) = drops s \<and>
      gets (fst (get s)) = gets s + (if contents s = [] then 0 else 1)"
begin

lemma inv_run: "inv s \<Longrightarrow> inv (fst (run_ops put get s ops))"
  by (induction ops arbitrary: s rule: inputs.induct) (auto simp: put_law get_law split_beta)

text \<open>Repeated \<open>put\<close>s keep the window of the newest elements.\<close>

lemma puts_window:
  assumes "inv s" shows "contents (foldl put s xs) = lastn (cap s) (contents s @ xs)"
  using assms
proof (induction xs arbitrary: s)
  case Nil
  then show ?case using inv_bound by (simp add: lastn_all)
next
  case (Cons x xs)
  then have "contents (foldl put s (x # xs)) = lastn (cap s) (lastn (cap s) (contents s @ [x]) @ xs)"
    by (simp add: put_law)
  also have "\<dots> = lastn (cap s) ((contents s @ [x]) @ xs)" by (simp only: lastn_append[symmetric])
  finally show ?case by simp
qed

text \<open>Accounting: what was put is delivered, evicted or still there (in \<open>u64\<close> arithmetic).\<close>

definition balance :: "'s \<Rightarrow> u64" where
  "balance s = puts s - gets s - drops s - of_nat (length (contents s))"

lemma balance_put: "inv s \<Longrightarrow> balance (put s x) = balance s"
  using inv_bound[of s] by (auto simp: balance_def put_law put_counts)

lemma balance_get: "inv s \<Longrightarrow> balance (fst (get s)) = balance s"
  by (cases "contents s") (auto simp: balance_def get_law get_counts)

lemma balance_run: "inv s \<Longrightarrow> balance (fst (run_ops put get s ops)) = balance s"
  by (induction ops arbitrary: s rule: inputs.induct)
    (auto simp: balance_put balance_get put_law get_law split_beta)

lemma run_accounting:
  assumes "inv s" "puts s = gets s + drops s + of_nat (length (contents s))"
    and "run_ops put get s ops = (s', ys)"
  shows "puts s' = gets s' + drops s' + of_nat (length (contents s'))"
proof -
  have "balance s' = 0" using balance_run[OF assms(1), of ops] assms(2,3) by (simp add: balance_def)
  then show ?thesis by (simp add: balance_def algebra_simps)
qed

text \<open>Order: deliveries followed by the contents are a subsequence of what was there and was put.\<close>

lemma subseq_lastn: "subseq (lastn n xs) xs"
  unfolding lastn_def by (intro suffix_imp_subseq suffix_drop)

lemma run_subseq:
  "inv s \<Longrightarrow> subseq (snd (run_ops put get s ops) @ contents (fst (run_ops put get s ops))) (contents s @ inputs ops)"
proof (induction ops arbitrary: s rule: inputs.induct)
  case (2 x ops)
  have "subseq (snd (run_ops put get s (Put x # ops)) @ contents (fst (run_ops put get s (Put x # ops))))
      (lastn (cap s) (contents s @ [x]) @ inputs ops)"
    using 2(1)[of "put s x"] 2(2) by (simp add: put_law)
  moreover have "subseq (lastn (cap s) (contents s @ [x]) @ inputs ops) ((contents s @ [x]) @ inputs ops)"
    by (intro list_emb_append_mono subseq_lastn) simp
  ultimately show ?case by (simp add: subseq_order.trans)
next
  case (3 ops)
  have "subseq (snd (run_ops put get (fst (get s)) ops) @ contents (fst (run_ops put get (fst (get s)) ops)))
      (tl (contents s) @ inputs ops)" using 3(1)[of "fst (get s)"] 3(2) by (simp add: get_law)
  with 3(2) show ?case by (cases "contents s") (auto simp: get_law split_beta)
qed simp

text \<open>While no more is put than fits, nothing is lost.\<close>

lemma run_lossless:
  "inv s \<Longrightarrow> length (contents s) + length (inputs ops) \<le> cap s \<Longrightarrow>
   snd (run_ops put get s ops) @ contents (fst (run_ops put get s ops)) = contents s @ inputs ops"
proof (induction ops arbitrary: s rule: inputs.induct)
  case (2 x ops)
  then have "contents (put s x) = contents s @ [x]" by (simp add: put_law lastn_all)
  with 2 show ?case by (simp add: put_law)
next
  case (3 ops)
  then show ?case
    using 3(1)[of "fst (get s)"] by (cases "contents s") (auto simp: get_law split_beta)
qed simp

lemma batch_contents:
  "inv s \<Longrightarrow> snd (batch_loop get n s) = take n (contents s) \<and>
     contents (fst (batch_loop get n s)) = drop n (contents s) \<and> inv (fst (batch_loop get n s))"
proof (induction n arbitrary: s)
  case (Suc n)
  note IH = Suc.IH[of "fst (get s)"] and law = get_law[OF Suc.prems]
  show ?case
  proof (cases "contents s")
    case Nil
    with law show ?thesis by (cases "get s") auto
  next
    case (Cons x xs)
    with law have "get s = (fst (get s), Some x)" by (cases "get s") auto
    then show ?thesis using Cons law IH
      by (simp add: split_beta Let_def)
  qed
qed simp

end

end
