(* ===== verification/Pipeline.thy ===== *)
theory Pipeline
  imports Array_Queue
begin

text \<open>
  src/src/strategy/pipeline.rs and src/src/strategy/opportunity_queue.rs: the three queues between
  the threads of the program.  The producer and consumer handles of the source hold pointers to the
  counters of their pipeline, so their methods act on the pipeline's record.  The counters are \<open>u64\<close>
  and wrap.  Every method is one transition here: the model is that of one producer and one
  consumer taking turns, which is how the module describes its use (SPSC).

  The sublocale declarations show that each of the three provides the contract \<open>drop_oldest\<close>.
\<close>

section \<open>Market pipeline\<close>

definition MARKET_QUEUE_CAPACITY :: nat where
  "MARKET_QUEUE_CAPACITY = 10000"

record 'q market_pipeline =
  mp_queue :: 'q
  mp_push_count :: u64
  mp_enqueue_count :: u64
  mp_drop_count :: u64
  mp_pop_count :: u64

definition MarketPipeline_with_capacity ::
  "('q, market_update) array_queue_ops \<Rightarrow> nat \<Rightarrow> 'q market_pipeline option" where
  "MarketPipeline_with_capacity Q capacity =
     map_option (\<lambda>q. \<lparr>mp_queue = q, mp_push_count = 0, mp_enqueue_count = 0, mp_drop_count = 0,
       mp_pop_count = 0\<rparr>) (aq_new Q capacity)"

definition MarketPipeline_new ::
  "('q, market_update) array_queue_ops \<Rightarrow> 'q market_pipeline option" where
  "MarketPipeline_new Q =
     map_option (\<lambda>q. \<lparr>mp_queue = q, mp_push_count = 0, mp_enqueue_count = 0, mp_drop_count = 0,
       mp_pop_count = 0\<rparr>) (aq_new Q MARKET_QUEUE_CAPACITY)"

definition MarketPipeline_depth ::
  "('q, market_update) array_queue_ops \<Rightarrow> 'q market_pipeline \<Rightarrow> nat" where
  "MarketPipeline_depth Q p = aq_len Q (mp_queue p)"

definition MarketPipeline_capacity ::
  "('q, market_update) array_queue_ops \<Rightarrow> 'q market_pipeline \<Rightarrow> nat" where
  "MarketPipeline_capacity Q p = aq_capacity Q (mp_queue p)"

definition MarketPipeline_is_full ::
  "('q, market_update) array_queue_ops \<Rightarrow> 'q market_pipeline \<Rightarrow> bool" where
  "MarketPipeline_is_full Q p = aq_is_full Q (mp_queue p)"

definition MarketPipeline_is_empty ::
  "('q, market_update) array_queue_ops \<Rightarrow> 'q market_pipeline \<Rightarrow> bool" where
  "MarketPipeline_is_empty Q p = aq_is_empty Q (mp_queue p)"

definition MarketProducer_push ::
  "('q, market_update) array_queue_ops \<Rightarrow> 'q market_pipeline \<Rightarrow> market_update \<Rightarrow>
   'q market_pipeline" where
  "MarketProducer_push Q p u =
     (let p = p\<lparr>mp_push_count := mp_push_count p + 1\<rparr> in
      case aq_push Q (mp_queue p) u of
        (q, Err _) \<Rightarrow>
          let p = p\<lparr>mp_queue := fst (aq_pop Q q)\<rparr>;
              p = (case aq_push Q (mp_queue p) u of
                     (q, Ok _) \<Rightarrow> p\<lparr>mp_queue := q, mp_enqueue_count := mp_enqueue_count p + 1\<rparr>
                   | (q, Err _) \<Rightarrow> p\<lparr>mp_queue := q\<rparr>)
          in p\<lparr>mp_drop_count := mp_drop_count p + 1\<rparr>
      | (q, Ok _) \<Rightarrow> p\<lparr>mp_queue := q, mp_enqueue_count := mp_enqueue_count p + 1\<rparr>)"

definition MarketProducer_try_push ::
  "('q, market_update) array_queue_ops \<Rightarrow> 'q market_pipeline \<Rightarrow> market_update \<Rightarrow>
   'q market_pipeline \<times> (unit, market_update) result" where
  "MarketProducer_try_push Q p u =
     (let p = p\<lparr>mp_push_count := mp_push_count p + 1\<rparr> in
      case aq_push Q (mp_queue p) u of
        (q, Ok _) \<Rightarrow> (p\<lparr>mp_queue := q, mp_enqueue_count := mp_enqueue_count p + 1\<rparr>, Ok ())
      | (q, Err u) \<Rightarrow> (p\<lparr>mp_queue := q\<rparr>, Err u))"

definition MarketConsumer_pop ::
  "('q, market_update) array_queue_ops \<Rightarrow> 'q market_pipeline \<Rightarrow>
   'q market_pipeline \<times> market_update option" where
  "MarketConsumer_pop Q p =
     (case aq_pop Q (mp_queue p) of
        (q, Some u) \<Rightarrow> (p\<lparr>mp_queue := q, mp_pop_count := mp_pop_count p + 1\<rparr>, Some u)
      | (q, None) \<Rightarrow> (p\<lparr>mp_queue := q\<rparr>, None))"

definition MarketConsumer_pop_batch ::
  "('q, market_update) array_queue_ops \<Rightarrow> 'q market_pipeline \<Rightarrow> nat \<Rightarrow>
   'q market_pipeline \<times> market_update list" where
  "MarketConsumer_pop_batch Q p max_batch = batch_loop (MarketConsumer_pop Q) max_batch p"

record pipeline_metrics =
  pmx_push_count :: u64
  pmx_enqueue_count :: u64
  pmx_drop_count :: u64
  pmx_pop_count :: u64
  pmx_queue_depth :: nat
  pmx_queue_capacity :: nat

definition MarketPipeline_metrics ::
  "('q, market_update) array_queue_ops \<Rightarrow> 'q market_pipeline \<Rightarrow> pipeline_metrics" where
  "MarketPipeline_metrics Q p =
     \<lparr>pmx_push_count = mp_push_count p, pmx_enqueue_count = mp_enqueue_count p,
      pmx_drop_count = mp_drop_count p, pmx_pop_count = mp_pop_count p,
      pmx_queue_depth = MarketPipeline_depth Q p,
      pmx_queue_capacity = MarketPipeline_capacity Q p\<rparr>"

definition PipelineMetrics_drop_rate :: "pipeline_metrics \<Rightarrow> f64" where
  "PipelineMetrics_drop_rate m =
     (if pmx_push_count m = 0 then lit 0
      else (nat_as_f64 (unat (pmx_drop_count m)) / nat_as_f64 (unat (pmx_push_count m))) * lit 100)"

definition PipelineMetrics_utilization :: "pipeline_metrics \<Rightarrow> f64" where
  "PipelineMetrics_utilization m =
     (nat_as_f64 (pmx_queue_depth m) / nat_as_f64 (pmx_queue_capacity m)) * lit 100"

definition PipelineMetrics_is_backpressure :: "pipeline_metrics \<Rightarrow> bool" where
  "PipelineMetrics_is_backpressure m \<longleftrightarrow>
     PipelineMetrics_utilization m > lit 80 \<or> PipelineMetrics_drop_rate m > lit 1"

section \<open>Execution pipeline\<close>

definition ORDER_QUEUE_CAPACITY :: nat where
  "ORDER_QUEUE_CAPACITY = 1000"

record 'q execution_pipeline =
  ep_queue :: 'q
  ep_submit_count :: u64
  ep_enqueue_count :: u64
  ep_drop_count :: u64
  ep_pop_count :: u64

definition ExecutionPipeline_with_capacity ::
  "('q, order_request) array_queue_ops \<Rightarrow> nat \<Rightarrow> 'q execution_pipeline option" where
  "ExecutionPipeline_with_capacity Q capacity =
     map_option (\<lambda>q. \<lparr>ep_queue = q, ep_submit_count = 0, ep_enqueue_count = 0, ep_drop_count = 0,
       ep_pop_count = 0\<rparr>) (aq_new Q capacity)"

definition ExecutionPipeline_new ::
  "('q, order_request) array_queue_ops \<Rightarrow> 'q execution_pipeline option" where
  "ExecutionPipeline_new Q =
     map_option (\<lambda>q. \<lparr>ep_queue = q, ep_submit_count = 0, ep_enqueue_count = 0, ep_drop_count = 0,
       ep_pop_count = 0\<rparr>) (aq_new Q ORDER_QUEUE_CAPACITY)"

definition ExecutionPipeline_depth ::
  "('q, order_request) array_queue_ops \<Rightarrow> 'q execution_pipeline \<Rightarrow> nat" where
  "ExecutionPipeline_depth Q p = aq_len Q (ep_queue p)"

definition ExecutionPipeline_capacity ::
  "('q, order_request) array_queue_ops \<Rightarrow> 'q execution_pipeline \<Rightarrow> nat" where
  "ExecutionPipeline_capacity Q p = aq_capacity Q (ep_queue p)"

definition ExecutionPipeline_is_full ::
  "('q, order_request) array_queue_ops \<Rightarrow> 'q execution_pipeline \<Rightarrow> bool" where
  "ExecutionPipeline_is_full Q p = aq_is_full Q (ep_queue p)"

definition ExecutionPipeline_is_empty ::
  "('q, order_request) array_queue_ops \<Rightarrow> 'q execution_pipeline \<Rightarrow> bool" where
  "ExecutionPipeline_is_empty Q p = aq_is_empty Q (ep_queue p)"

definition OrderProducer_submit ::
  "('q, order_request) array_queue_ops \<Rightarrow> 'q execution_pipeline \<Rightarrow> order_request \<Rightarrow>
   'q execution_pipeline" where
  "OrderProducer_submit Q p r =
     (let p = p\<lparr>ep_submit_count := ep_submit_count p + 1\<rparr> in
      case aq_push Q (ep_queue p) r of
        (q, Err _) \<Rightarrow>
          let p = p\<lparr>ep_queue := fst (aq_pop Q q)\<rparr>;
              p = (case aq_push Q (ep_queue p) r of
                     (q, Ok _) \<Rightarrow> p\<lparr>ep_queue := q, ep_enqueue_count := ep_enqueue_count p + 1\<rparr>
                   | (q, Err _) \<Rightarrow> p\<lparr>ep_queue := q\<rparr>)
          in p\<lparr>ep_drop_count := ep_drop_count p + 1\<rparr>
      | (q, Ok _) \<Rightarrow> p\<lparr>ep_queue := q, ep_enqueue_count := ep_enqueue_count p + 1\<rparr>)"

definition OrderProducer_try_submit ::
  "('q, order_request) array_queue_ops \<Rightarrow> 'q execution_pipeline \<Rightarrow> order_request \<Rightarrow>
   'q execution_pipeline \<times> (unit, order_request) result" where
  "OrderProducer_try_submit Q p r =
     (let p = p\<lparr>ep_submit_count := ep_submit_count p + 1\<rparr> in
      case aq_push Q (ep_queue p) r of
        (q, Ok _) \<Rightarrow> (p\<lparr>ep_queue := q, ep_enqueue_count := ep_enqueue_count p + 1\<rparr>, Ok ())
      | (q, Err r) \<Rightarrow> (p\<lparr>ep_queue := q\<rparr>, Err r))"

definition OrderConsumer_pop ::
  "('q, order_request) array_queue_ops \<Rightarrow> 'q execution_pipeline \<Rightarrow>
   'q execution_pipeline \<times> order_request option" where
  "OrderConsumer_pop Q p =
     (case aq_pop Q (ep_queue p) of
        (q, Some r) \<Rightarrow> (p\<lparr>ep_queue := q, ep_pop_count := ep_pop_count p + 1\<rparr>, Some r)
      | (q, None) \<Rightarrow> (p\<lparr>ep_queue := q\<rparr>, None))"

definition OrderConsumer_pop_batch ::
  "('q, order_request) array_queue_ops \<Rightarrow> 'q execution_pipeline \<Rightarrow> nat \<Rightarrow>
   'q execution_pipeline \<times> order_request list" where
  "OrderConsumer_pop_batch Q p max_batch = batch_loop (OrderConsumer_pop Q) max_batch p"

record execution_metrics =
  emx_submit_count :: u64
  emx_enqueue_count :: u64
  emx_drop_count :: u64
  emx_pop_count :: u64
  emx_queue_depth :: nat
  emx_queue_capacity :: nat

definition ExecutionPipeline_metrics ::
  "('q, order_request) array_queue_ops \<Rightarrow> 'q execution_pipeline \<Rightarrow> execution_metrics" where
  "ExecutionPipeline_metrics Q p =
     \<lparr>emx_submit_count = ep_submit_count p, emx_enqueue_count = ep_enqueue_count p,
      emx_drop_count = ep_drop_count p, emx_pop_count = ep_pop_count p,
      emx_queue_depth = ExecutionPipeline_depth Q p,
      emx_queue_capacity = ExecutionPipeline_capacity Q p\<rparr>"

definition ExecutionMetrics_drop_rate :: "execution_metrics \<Rightarrow> f64" where
  "ExecutionMetrics_drop_rate m =
     (if emx_submit_count m = 0 then lit 0
      else (nat_as_f64 (unat (emx_drop_count m)) / nat_as_f64 (unat (emx_submit_count m))) * lit 100)"

definition ExecutionMetrics_utilization :: "execution_metrics \<Rightarrow> f64" where
  "ExecutionMetrics_utilization m =
     (nat_as_f64 (emx_queue_depth m) / nat_as_f64 (emx_queue_capacity m)) * lit 100"

definition ExecutionMetrics_is_backpressure :: "execution_metrics \<Rightarrow> bool" where
  "ExecutionMetrics_is_backpressure m \<longleftrightarrow>
     ExecutionMetrics_utilization m > lit 80 \<or> ExecutionMetrics_drop_rate m > lit 1"

section \<open>Opportunity queue\<close>

record 'q opportunity_queue =
  oq_queue :: 'q
  oq_push_count :: u64
  oq_pop_count :: u64
  oq_drop_count :: u64

definition OpportunityQueue_with_capacity ::
  "('q, arbitrage_opportunity) array_queue_ops \<Rightarrow> nat \<Rightarrow> 'q opportunity_queue option" where
  "OpportunityQueue_with_capacity Q capacity =
     map_option (\<lambda>q. \<lparr>oq_queue = q, oq_push_count = 0, oq_pop_count = 0, oq_drop_count = 0\<rparr>)
       (aq_new Q capacity)"

definition OpportunityQueue_new ::
  "('q, arbitrage_opportunity) array_queue_ops \<Rightarrow> 'q opportunity_queue option" where
  "OpportunityQueue_new Q = OpportunityQueue_with_capacity Q 1024"

definition OpportunityQueue_len ::
  "('q, arbitrage_opportunity) array_queue_ops \<Rightarrow> 'q opportunity_queue \<Rightarrow> nat" where
  "OpportunityQueue_len Q p = aq_len Q (oq_queue p)"

definition OpportunityQueue_is_empty ::
  "('q, arbitrage_opportunity) array_queue_ops \<Rightarrow> 'q opportunity_queue \<Rightarrow> bool" where
  "OpportunityQueue_is_empty Q p = aq_is_empty Q (oq_queue p)"

definition OpportunityProducer_push ::
  "('q, arbitrage_opportunity) array_queue_ops \<Rightarrow> 'q opportunity_queue \<Rightarrow>
   arbitrage_opportunity \<Rightarrow> 'q opportunity_queue" where
  "OpportunityProducer_push Q p opp =
     (let p = p\<lparr>oq_push_count := oq_push_count p + 1\<rparr> in
      case aq_push Q (oq_queue p) opp of
        (q, Err rejected) \<Rightarrow>
          let p = p\<lparr>oq_queue := fst (aq_pop Q q)\<rparr>;
              p = p\<lparr>oq_drop_count := oq_drop_count p + 1\<rparr>
          in p\<lparr>oq_queue := fst (aq_push Q (oq_queue p) rejected)\<rparr>
      | (q, Ok _) \<Rightarrow> p\<lparr>oq_queue := q\<rparr>)"

definition OpportunityConsumer_pop ::
  "('q, arbitrage_opportunity) array_queue_ops \<Rightarrow> 'q opportunity_queue \<Rightarrow>
   'q opportunity_queue \<times> arbitrage_opportunity option" where
  "OpportunityConsumer_pop Q p =
     (let (q, opp) = aq_pop Q (oq_queue p);
          p = p\<lparr>oq_queue := q\<rparr>
      in (if opp \<noteq> None then p\<lparr>oq_pop_count := oq_pop_count p + 1\<rparr> else p, opp))"

definition OpportunityConsumer_pop_batch ::
  "('q, arbitrage_opportunity) array_queue_ops \<Rightarrow> 'q opportunity_queue \<Rightarrow> nat \<Rightarrow>
   'q opportunity_queue \<times> arbitrage_opportunity list" where
  "OpportunityConsumer_pop_batch Q p max_batch = batch_loop (OpportunityConsumer_pop Q) max_batch p"

text \<open>Concrete inputs.\<close>

definition sample_update :: "u32 \<Rightarrow> market_update" where
  "sample_update i = MarketUpdate_new i (lit 100) (lit 101) 1000"

definition sample_order :: "u64 \<Rightarrow> order_request" where
  "sample_order i = OrderRequest_market i 100 1 0 (lit 1) 1000"

definition sample_opportunity :: "string \<Rightarrow> arbitrage_opportunity" where
  "sample_opportunity s =
     \<lparr>ao_symbol = s, ao_long_exchange = ''bybit'', ao_short_exchange = ''okx'',
      ao_long_price = lit 50000, ao_short_price = lit 50100, ao_spread_bps = lit 20,
      ao_funding_delta_8h = lit 0.0001, ao_confidence_score = 80, ao_projected_profit_usd = lit 10,
      ao_projected_profit_after_slippage = lit 8,
      ao_metrics = \<lparr>cm_funding_delta = lit 0.0001, cm_funding_delta_projected = lit 0.0002,
        cm_obi_ratio = lit 0.5, cm_oi_current = lit 1000000, cm_oi_24h_avg = lit 900000,
        cm_vwap_deviation = lit 0.5, cm_atr = lit 100, cm_atr_trend = True,
        cm_liquidation_cluster_distance = lit 50,
        cm_hard_constraints = \<lparr>order_book_depth_sufficient = True, exchange_latency_ok = True,
          funding_delta_substantial = True\<rparr>\<rparr>,
      ao_order_book_depth_long = lit 10000, ao_order_book_depth_short = lit 10000,
      ao_timestamp = Some 1234567890\<rparr>"

definition market_run ::
  "market_update queue_op list \<Rightarrow> (nat \<times> market_update list) market_pipeline \<times> market_update list" where
  "market_run ops = run_ops (MarketProducer_push list_queue) (MarketConsumer_pop list_queue)
     \<lparr>mp_queue = (10000, []), mp_push_count = 0, mp_enqueue_count = 0, mp_drop_count = 0,
      mp_pop_count = 0\<rparr> ops"

definition order_run ::
  "order_request queue_op list \<Rightarrow> (nat \<times> order_request list) execution_pipeline \<times> order_request list" where
  "order_run ops = run_ops (OrderProducer_submit list_queue) (OrderConsumer_pop list_queue)
     \<lparr>ep_queue = (1000, []), ep_submit_count = 0, ep_enqueue_count = 0, ep_drop_count = 0,
      ep_pop_count = 0\<rparr> ops"

definition opportunity_run ::
  "arbitrage_opportunity queue_op list \<Rightarrow>
   (nat \<times> arbitrage_opportunity list) opportunity_queue \<times> arbitrage_opportunity list" where
  "opportunity_run ops = run_ops (OpportunityProducer_push list_queue)
     (OpportunityConsumer_pop list_queue)
     \<lparr>oq_queue = (1, []), oq_push_count = 0, oq_pop_count = 0, oq_drop_count = 0\<rparr> ops"

abbreviation sample_updates :: "market_update queue_op list" where
  "sample_updates \<equiv> [Put (sample_update 1), Put (sample_update 2), Get]"

abbreviation sample_orders :: "order_request queue_op list" where
  "sample_orders \<equiv> [Put (sample_order 1), Get, Put (sample_order 2)]"

abbreviation sample_opportunities :: "arbitrage_opportunity queue_op list" where
  "sample_opportunities \<equiv> [Put (sample_opportunity ''BTC1''), Put (sample_opportunity ''BTC2'')]"

section \<open>The pipelines provide the contract\<close>

context array_queue
begin

text \<open>The sequence both pushes share: push, and when full pop the oldest and push again.\<close>

lemma push_cases:
  assumes "ok q"
  obtains (room) q' where "length (items q) < aq_capacity Q q" "aq_push Q q x = (q', Ok ())" "ok q'"
      "items q' = lastn (aq_capacity Q q) (items q @ [x])" "aq_capacity Q q' = aq_capacity Q q"
  | (full) y q' q'' where "length (items q) = aq_capacity Q q" "aq_push Q q x = (q, Err x)"
      "aq_pop Q q = (q', Some y)" "aq_push Q q' x = (q'', Ok ())" "ok q''"
      "items q'' = lastn (aq_capacity Q q) (items q @ [x])" "aq_capacity Q q'' = aq_capacity Q q"
proof (cases "length (items q) < aq_capacity Q q")
  case True
  from push_room[OF assms True] obtain q' where "aq_push Q q x = (q', Ok ())" "ok q'"
      "items q' = items q @ [x]" "aq_capacity Q q' = aq_capacity Q q" by blast
  then show ?thesis using True by (intro room[of q']) (auto simp: lastn_all)
next
  case False
  with bounded[OF assms] have f: "length (items q) = aq_capacity Q q" by simp
  with bounded[OF assms] obtain y ys where i: "items q = y # ys" by (cases "items q") auto
  from pop_some[OF assms i] obtain q' where q': "aq_pop Q q = (q', Some y)" "ok q'" "items q' = ys"
      "aq_capacity Q q' = aq_capacity Q q" by blast
  with f i have "length (items q') < aq_capacity Q q'" by simp
  from push_room[OF q'(2) this] obtain q'' where "aq_push Q q' x = (q'', Ok ())" "ok q''"
      "items q'' = items q' @ [x]" "aq_capacity Q q'' = aq_capacity Q q'" by blast
  then show ?thesis
    using f i q' push_full[OF assms f] by (intro full[of q' y q'']) (auto simp: lastn_def)
qed

lemma pop_cases:
  assumes "ok q"
  obtains (empty) "items q = []" "aq_pop Q q = (q, None)"
  | (some) y q' where "items q = y # items q'" "aq_pop Q q = (q', Some y)" "ok q'"
      "aq_capacity Q q' = aq_capacity Q q"
  using assms pop_empty pop_some by (cases "items q") blast+

end

locale market_queue = array_queue Q items ok
  for Q :: "('q, market_update) array_queue_ops" and items ok

sublocale market_queue \<subseteq> pipe: drop_oldest "MarketProducer_push Q" "MarketConsumer_pop Q"
  "\<lambda>p. items (mp_queue p)" "\<lambda>p. aq_capacity Q (mp_queue p)" "\<lambda>p. ok (mp_queue p)"
  mp_enqueue_count mp_pop_count mp_drop_count
proof
  fix p :: "'q market_pipeline" and x
  assume p: "ok (mp_queue p)"
  show "length (items (mp_queue p)) \<le> aq_capacity Q (mp_queue p)" using bounded[OF p] by simp
  show "ok (mp_queue (MarketProducer_push Q p x)) \<and>
      aq_capacity Q (mp_queue (MarketProducer_push Q p x)) = aq_capacity Q (mp_queue p) \<and>
      items (mp_queue (MarketProducer_push Q p x)) =
        lastn (aq_capacity Q (mp_queue p)) (items (mp_queue p) @ [x])"
    by (rule push_cases[OF p, of x]) (auto simp: MarketProducer_push_def)
  show "mp_enqueue_count (MarketProducer_push Q p x) = mp_enqueue_count p + 1 \<and>
      mp_pop_count (MarketProducer_push Q p x) = mp_pop_count p \<and>
      mp_drop_count (MarketProducer_push Q p x) = mp_drop_count p +
        (if length (items (mp_queue p)) < aq_capacity Q (mp_queue p) then 0 else 1)"
    by (rule push_cases[OF p, of x]) (auto simp: MarketProducer_push_def)
  show "ok (mp_queue (fst (MarketConsumer_pop Q p))) \<and>
      aq_capacity Q (mp_queue (fst (MarketConsumer_pop Q p))) = aq_capacity Q (mp_queue p) \<and>
      items (mp_queue (fst (MarketConsumer_pop Q p))) = tl (items (mp_queue p)) \<and>
      snd (MarketConsumer_pop Q p) = (case items (mp_queue p) of [] \<Rightarrow> None | x # _ \<Rightarrow> Some x)"
    by (rule pop_cases[OF p]) (use p in \<open>auto simp: MarketConsumer_pop_def\<close>)
  show "mp_enqueue_count (fst (MarketConsumer_pop Q p)) = mp_enqueue_count p \<and>
      mp_drop_count (fst (MarketConsumer_pop Q p)) = mp_drop_count p \<and>
      mp_pop_count (fst (MarketConsumer_pop Q p)) = mp_pop_count p + (if items (mp_queue p) = [] then 0 else 1)"
    by (rule pop_cases[OF p]) (use p in \<open>auto simp: MarketConsumer_pop_def\<close>)
qed

locale order_queue = array_queue Q items ok
  for Q :: "('q, order_request) array_queue_ops" and items ok

sublocale order_queue \<subseteq> pipe: drop_oldest "OrderProducer_submit Q" "OrderConsumer_pop Q"
  "\<lambda>p. items (ep_queue p)" "\<lambda>p. aq_capacity Q (ep_queue p)" "\<lambda>p. ok (ep_queue p)"
  ep_enqueue_count ep_pop_count ep_drop_count
proof
  fix p :: "'q execution_pipeline" and x
  assume p: "ok (ep_queue p)"
  show "length (items (ep_queue p)) \<le> aq_capacity Q (ep_queue p)" using bounded[OF p] by simp
  show "ok (ep_queue (OrderProducer_submit Q p x)) \<and>
      aq_capacity Q (ep_queue (OrderProducer_submit Q p x)) = aq_capacity Q (ep_queue p) \<and>
      items (ep_queue (OrderProducer_submit Q p x)) =
        lastn (aq_capacity Q (ep_queue p)) (items (ep_queue p) @ [x])"
    by (rule push_cases[OF p, of x]) (auto simp: OrderProducer_submit_def)
  show "ep_enqueue_count (OrderProducer_submit Q p x) = ep_enqueue_count p + 1 \<and>
      ep_pop_count (OrderProducer_submit Q p x) = ep_pop_count p \<and>
      ep_drop_count (OrderProducer_submit Q p x) = ep_drop_count p +
        (if length (items (ep_queue p)) < aq_capacity Q (ep_queue p) then 0 else 1)"
    by (rule push_cases[OF p, of x]) (auto simp: OrderProducer_submit_def)
  show "ok (ep_queue (fst (OrderConsumer_pop Q p))) \<and>
      aq_capacity Q (ep_queue (fst (OrderConsumer_pop Q p))) = aq_capacity Q (ep_queue p) \<and>
      items (ep_queue (fst (OrderConsumer_pop Q p))) = tl (items (ep_queue p)) \<and>
      snd (OrderConsumer_pop Q p) = (case items (ep_queue p) of [] \<Rightarrow> None | x # _ \<Rightarrow> Some x)"
    by (rule pop_cases[OF p]) (use p in \<open>auto simp: OrderConsumer_pop_def\<close>)
  show "ep_enqueue_count (fst (OrderConsumer_pop Q p)) = ep_enqueue_count p \<and>
      ep_drop_count (fst (OrderConsumer_pop Q p)) = ep_drop_count p \<and>
      ep_pop_count (fst (OrderConsumer_pop Q p)) = ep_pop_count p + (if items (ep_queue p) = [] then 0 else 1)"
    by (rule pop_cases[OF p]) (use p in \<open>auto simp: OrderConsumer_pop_def\<close>)
qed

locale opportunity_pipe = array_queue Q items ok
  for Q :: "('q, arbitrage_opportunity) array_queue_ops" and items ok

sublocale opportunity_pipe \<subseteq> pipe: drop_oldest "OpportunityProducer_push Q" "OpportunityConsumer_pop Q"
  "\<lambda>p. items (oq_queue p)" "\<lambda>p. aq_capacity Q (oq_queue p)" "\<lambda>p. ok (oq_queue p)"
  oq_push_count oq_pop_count oq_drop_count
proof
  fix p :: "'q opportunity_queue" and x
  assume p: "ok (oq_queue p)"
  show "length (items (oq_queue p)) \<le> aq_capacity Q (oq_queue p)" using bounded[OF p] by simp
  show "ok (oq_queue (OpportunityProducer_push Q p x)) \<and>
      aq_capacity Q (oq_queue (OpportunityProducer_push Q p x)) = aq_capacity Q (oq_queue p) \<and>
      items (oq_queue (OpportunityProducer_push Q p x)) =
        lastn (aq_capacity Q (oq_queue p)) (items (oq_queue p) @ [x])"
    by (rule push_cases[OF p, of x]) (auto simp: OpportunityProducer_push_def)
  show "oq_push_count (OpportunityProducer_push Q p x) = oq_push_count p + 1 \<and>
      oq_pop_count (OpportunityProducer_push Q p x) = oq_pop_count p \<and>
      oq_drop_count (OpportunityProducer_push Q p x) = oq_drop_count p +
        (if length (items (oq_queue p)) < aq_capacity Q (oq_queue p) then 0 else 1)"
    by (rule push_cases[OF p, of x]) (auto simp: OpportunityProducer_push_def)
  show "ok (oq_queue (fst (OpportunityConsumer_pop Q p))) \<and>
      aq_capacity Q (oq_queue (fst (OpportunityConsumer_pop Q p))) = aq_capacity Q (oq_queue p) \<and>
      items (oq_queue (fst (OpportunityConsumer_pop Q p))) = tl (items (oq_queue p)) \<and>
      snd (OpportunityConsumer_pop Q p) = (case items (oq_queue p) of [] \<Rightarrow> None | x # _ \<Rightarrow> Some x)"
    by (rule pop_cases[OF p]) (use p in \<open>auto simp: OpportunityConsumer_pop_def\<close>)
  show "oq_push_count (fst (OpportunityConsumer_pop Q p)) = oq_push_count p \<and>
      oq_drop_count (fst (OpportunityConsumer_pop Q p)) = oq_drop_count p \<and>
      oq_pop_count (fst (OpportunityConsumer_pop Q p)) = oq_pop_count p + (if items (oq_queue p) = [] then 0 else 1)"
    by (rule pop_cases[OF p]) (use p in \<open>auto simp: OpportunityConsumer_pop_def\<close>)
qed

context market_queue
begin

lemmas pipe_facts = pipe.puts_window pipe.run_subseq pipe.run_accounting pipe.batch_contents

end

context order_queue
begin

lemmas pipe_facts = pipe.run_lossless pipe.run_accounting pipe.puts_window

lemma try_submit_cases:
  assumes "ok (ep_queue p)"
  shows "if length (items (ep_queue p)) < aq_capacity Q (ep_queue p)
    then (\<exists>p'. OrderProducer_try_submit Q p r = (p', Ok ()) \<and>
      items (ep_queue p') = items (ep_queue p) @ [r] \<and> ep_drop_count p' = ep_drop_count p)
    else OrderProducer_try_submit Q p r =
      (p\<lparr>ep_submit_count := ep_submit_count p + 1\<rparr>, Err r)"
  using push_room[OF assms, of r] push_full[OF assms, of r] bounded[OF assms]
  by (auto simp: OrderProducer_try_submit_def)

end

context opportunity_pipe
begin

lemmas pipe_facts = pipe.run_accounting pipe.run_subseq pipe.puts_window pipe.inv_run

end

interpretation list_market: market_queue list_queue snd
  lq_ok ..

interpretation list_orders: order_queue list_queue snd
  lq_ok ..

interpretation list_opportunities: opportunity_pipe list_queue snd
  lq_ok ..

lemma array_queue_list: "array_queue list_queue snd lq_ok"
  by (rule list_queue.array_queue_axioms)

lemma MarketPipeline_new_fresh:
  assumes "array_queue Q items ok" "MarketPipeline_new Q = Some p"
  shows "ok (mp_queue p) \<and> items (mp_queue p) = [] \<and> aq_capacity Q (mp_queue p) = 10000 \<and>
    mp_push_count p = 0 \<and> mp_enqueue_count p = 0 \<and> mp_drop_count p = 0 \<and> mp_pop_count p = 0"
  using assms(2) array_queue.new_pos[OF assms(1), of 10000]
  by (auto simp: MarketPipeline_new_def MARKET_QUEUE_CAPACITY_def)

lemma ExecutionPipeline_new_fresh:
  assumes "array_queue Q items ok" "ExecutionPipeline_new Q = Some p"
  shows "ok (ep_queue p) \<and> items (ep_queue p) = [] \<and> aq_capacity Q (ep_queue p) = 1000"
  using assms(2) array_queue.new_pos[OF assms(1), of 1000]
  by (auto simp: ExecutionPipeline_new_def ORDER_QUEUE_CAPACITY_def)

lemma OpportunityQueue_new_fresh:
  assumes "array_queue Q items ok" "OpportunityQueue_with_capacity Q n = Some p"
  shows "ok (oq_queue p) \<and> items (oq_queue p) = [] \<and> aq_capacity Q (oq_queue p) = n \<and>
    oq_push_count p = 0 \<and> oq_pop_count p = 0 \<and> oq_drop_count p = 0"
  using assms(2) array_queue.new_pos[OF assms(1), of n] array_queue.new_zero[OF assms(1)]
  by (cases "n = 0") (auto simp: OpportunityQueue_with_capacity_def)

lemma market_run_new:
  "MarketPipeline_new list_queue = Some \<lparr>mp_queue = (10000, []), mp_push_count = 0,
     mp_enqueue_count = 0, mp_drop_count = 0, mp_pop_count = 0\<rparr>"
  by (simp add: MarketPipeline_new_def list_queue_def MARKET_QUEUE_CAPACITY_def)

lemma order_run_new:
  "ExecutionPipeline_new list_queue = Some \<lparr>ep_queue = (1000, []), ep_submit_count = 0,
     ep_enqueue_count = 0, ep_drop_count = 0, ep_pop_count = 0\<rparr>"
  by (simp add: ExecutionPipeline_new_def list_queue_def ORDER_QUEUE_CAPACITY_def)

lemma opportunity_run_new:
  "OpportunityQueue_with_capacity list_queue 1 = Some \<lparr>oq_queue = (1, []), oq_push_count = 0,
     oq_pop_count = 0, oq_drop_count = 0\<rparr>"
  by (simp add: OpportunityQueue_with_capacity_def list_queue_def)

section \<open>Properties\<close>

text \<open>Backpressure keeps the newest data: after any number of pushes the market queue holds
  exactly the last \<open>capacity\<close> of the updates it had and was given, in order.\<close>

lemma market_push_window:
  assumes "array_queue Q items ok" and "ok (mp_queue p)"
  shows "items (mp_queue (foldl (MarketProducer_push Q) p us)) =
    lastn (MarketPipeline_capacity Q p) (items (mp_queue p) @ us)"
  using market_queue.pipe_facts(1)[of Q items ok p us] assms
  by (simp add: market_queue_def MarketPipeline_capacity_def)

text \<open>Whatever sequence of pushes and pops is run, the updates the consumer received followed by
  those still queued are a subsequence of the updates pushed: none is duplicated, invented or
  reordered.\<close>

lemma market_no_reorder:
  assumes "array_queue Q items ok" and "MarketPipeline_new Q = Some p"
    and "run_ops (MarketProducer_push Q) (MarketConsumer_pop Q) p ops = (p', received)"
  shows "subseq (received @ items (mp_queue p')) (inputs ops)"
  using market_queue.pipe_facts(2)[of Q items ok p ops] MarketPipeline_new_fresh[OF assms(1,2)] assms
  by (simp add: market_queue_def)

text \<open>Accounting of the market pipeline: after any sequence of operations on a new pipeline,
  the updates enqueued are those popped, those dropped and those still queued (all in \<open>u64\<close>).\<close>

lemma market_accounting:
  assumes "array_queue Q items ok" and "MarketPipeline_new Q = Some p"
    and "run_ops (MarketProducer_push Q) (MarketConsumer_pop Q) p ops = (p', received)"
  shows "mp_enqueue_count p' =
    mp_pop_count p' + mp_drop_count p' + of_nat (length (items (mp_queue p')))"
  using market_queue.pipe_facts(3)[of Q items ok p ops p' received]
    MarketPipeline_new_fresh[OF assms(1,2)] assms
  by (simp add: market_queue_def)

text \<open>No order is lost below capacity: as long as at most 1000 orders are submitted, the consumer
  has received, or finds still queued, exactly the submitted orders in submission order.\<close>

lemma orders_lossless:
  assumes "array_queue Q items ok" and "ExecutionPipeline_new Q = Some p"
    and "run_ops (OrderProducer_submit Q) (OrderConsumer_pop Q) p ops = (p', received)"
    and "length (inputs ops) \<le> 1000"
  shows "received @ items (ep_queue p') = inputs ops"
  using order_queue.pipe_facts(1)[of Q items ok p ops] ExecutionPipeline_new_fresh[OF assms(1,2)] assms
  by (simp add: order_queue_def)

text \<open>\<open>try_submit\<close> never evicts: it appends the order when there is room, and otherwise returns it
  to the caller with the queue and the drop counter untouched.\<close>

theorem try_submit_never_evicts:
  assumes "array_queue Q items ok" and "ok (ep_queue p)"
  shows "if length (items (ep_queue p)) < ExecutionPipeline_capacity Q p
    then (\<exists>p'. OrderProducer_try_submit Q p r = (p', Ok ()) \<and>
      items (ep_queue p') = items (ep_queue p) @ [r] \<and> ep_drop_count p' = ep_drop_count p)
    else OrderProducer_try_submit Q p r =
      (p\<lparr>ep_submit_count := ep_submit_count p + 1\<rparr>, Err r)"
  using order_queue.try_submit_cases[of Q items ok p r] assms
  by (simp add: order_queue_def ExecutionPipeline_capacity_def)

text \<open>Accounting of the opportunity queue: after any sequence of operations on a new queue of any
  capacity, opportunities pushed are those popped, those dropped and those still queued.\<close>

lemma opportunity_accounting:
  assumes "array_queue Q items ok" and "OpportunityQueue_with_capacity Q n = Some p"
    and "run_ops (OpportunityProducer_push Q) (OpportunityConsumer_pop Q) p ops = (p', received)"
  shows "oq_push_count p' =
    oq_pop_count p' + oq_drop_count p' + of_nat (OpportunityQueue_len Q p')"
proof -
  note opq = opportunity_pipe.intro[OF assms(1)] and new = OpportunityQueue_new_fresh[OF assms(1,2)]
  have "ok (oq_queue p')"
    using opportunity_pipe.pipe_facts(4)[OF opq, of p ops] new assms(3) by simp
  then have "OpportunityQueue_len Q p' = length (items (oq_queue p'))"
    by (simp add: OpportunityQueue_len_def array_queue.len[OF assms(1)])
  then show ?thesis using opportunity_pipe.pipe_facts(1)[OF opq _ _ assms(3)] new by simp
qed

text \<open>A batch is what that many single pops would return: the oldest \<open>max_batch\<close> updates in
  order, which are removed from the queue.\<close>

theorem market_pop_batch_takes:
  assumes "array_queue Q items ok" and "ok (mp_queue p)"
    and "MarketConsumer_pop_batch Q p max_batch = (p', batch)"
  shows "batch = take max_batch (items (mp_queue p)) \<and>
    items (mp_queue p') = drop max_batch (items (mp_queue p))"
  using market_queue.pipe_facts(4)[of Q items ok p max_batch] assms
  by (simp add: market_queue_def MarketConsumer_pop_batch_def)

end
