(* ===== verification/Opportunity_Detector.thy ===== *)
theory Opportunity_Detector
  imports Exchange_Fees Market_Data Symbol_Map Pipeline
begin

text \<open>
  src/src/strategy/opportunity_detector.rs: the service that pops market updates, keeps the store
  current and publishes arbitrage opportunities.  Its state holds the pipeline it consumes, the
  store, the shared symbol map, the queue it publishes to, its thresholds and its filter counters;
  the two \<open>Instant\<close>s that throttle log output are left out.  \<open>now\<close> is the wall clock in seconds at
  the time a symbol is examined.  \<open>detector_step\<close> is one iteration of the endless loop of \<open>run\<close>.

  The lemmas characterise what is published: with sane prices only opportunities that pass the
  spread, confidence and profit filters, at the prices of the store.
\<close>

section \<open>State\<close>

record ('mq, 'm, 'n, 'oq) detector =
  det_market :: "'mq market_pipeline"
  det_store :: market_data_store
  det_symbols :: "('m, 'n) symbol_map"
  det_opps :: "'oq opportunity_queue"
  min_spread_bps :: f64
  min_funding_delta :: f64
  min_confidence :: u8
  filter_count_spread :: u64
  filter_count_funding :: u64
  filter_count_confidence :: u64
  filter_count_profit :: u64

definition OpportunityDetector_new ::
  "'mq market_pipeline \<Rightarrow> ('m, 'n) symbol_map \<Rightarrow> 'oq opportunity_queue \<Rightarrow>
   ('mq, 'm, 'n, 'oq) detector" where
  "OpportunityDetector_new market_consumer symbols opportunity_producer =
     \<lparr>det_market = market_consumer, det_store = MarketDataStore_new, det_symbols = symbols,
      det_opps = opportunity_producer, min_spread_bps = lit 10, min_funding_delta = lit 0.0001,
      min_confidence = 70, filter_count_spread = 0, filter_count_funding = 0,
      filter_count_confidence = 0, filter_count_profit = 0\<rparr>"

section \<open>Scoring\<close>

definition calculate_confidence :: "f64 \<Rightarrow> f64 \<Rightarrow> u8" where
  "calculate_confidence spread_bps funding_delta =
     (let score = lit 0;
          score = score + fmin (spread_bps / lit 50) (lit 1) * lit 50;
          score = score + fmin (\<bar>funding_delta\<bar> / lit 0.01) (lit 1) * lit 30;
          score = score + lit 20
      in f64_as_u8 (fclamp score (lit 0) (lit 100)))"

definition build_metrics ::
  "('mq, 'm, 'n, 'oq) detector \<Rightarrow> f64 \<Rightarrow> f64 \<Rightarrow> f64 \<Rightarrow> f64 \<Rightarrow> confluence_metrics" where
  "build_metrics d spread_bps funding_delta depth_long depth_short =
     \<lparr>cm_funding_delta = funding_delta, cm_funding_delta_projected = funding_delta,
      cm_obi_ratio = lit 0, cm_oi_current = lit 0, cm_oi_24h_avg = lit 0, cm_vwap_deviation = lit 0,
      cm_atr = lit 0, cm_atr_trend = False, cm_liquidation_cluster_distance = lit 0,
      cm_hard_constraints =
        \<lparr>order_book_depth_sufficient = (depth_long \<ge> lit 10000 \<and> depth_short \<ge> lit 10000),
         exchange_latency_ok = True,
         funding_delta_substantial = (\<bar>funding_delta\<bar> \<ge> min_funding_delta d)\<rparr>\<rparr>"

definition get_funding_delta :: "string \<Rightarrow> string \<Rightarrow> string \<Rightarrow> f64" where
  "get_funding_delta symbol long_exchange short_exchange = lit 0.0002"

definition get_depth :: "string \<Rightarrow> string \<Rightarrow> f64" where
  "get_depth exchange symbol = lit 15000"

section \<open>Detection\<close>

text \<open>The struct literal of \<open>check_opportunity\<close>.\<close>

definition opportunity_of ::
  "string \<Rightarrow> string \<Rightarrow> string \<Rightarrow> f64 \<Rightarrow> f64 \<Rightarrow> f64 \<Rightarrow> f64 \<Rightarrow> u8 \<Rightarrow> f64 \<Rightarrow> confluence_metrics \<Rightarrow>
   f64 \<Rightarrow> f64 \<Rightarrow> u64 \<Rightarrow> arbitrage_opportunity" where
  "opportunity_of symbol long_exchange short_exchange long_ask short_bid spread_bps funding_delta
       confidence projected_profit_bps metrics depth_long depth_short now =
     \<lparr>ao_symbol = symbol, ao_long_exchange = long_exchange, ao_short_exchange = short_exchange,
      ao_long_price = long_ask, ao_short_price = short_bid, ao_spread_bps = spread_bps,
      ao_funding_delta_8h = funding_delta, ao_confidence_score = confidence,
      ao_projected_profit_usd = (projected_profit_bps / lit 10000) * lit 1000,
      ao_projected_profit_after_slippage = projected_profit_bps,
      ao_metrics = metrics, ao_order_book_depth_long = depth_long,
      ao_order_book_depth_short = depth_short, ao_timestamp = Some now\<rparr>"

definition check_opportunity ::
  "('oq, arbitrage_opportunity) array_queue_ops \<Rightarrow> u64 \<Rightarrow> ('mq, 'm, 'n, 'oq) detector \<Rightarrow>
   string \<Rightarrow> string \<Rightarrow> string \<Rightarrow> f64 \<Rightarrow> f64 \<Rightarrow> ('mq, 'm, 'n, 'oq) detector" where
  "check_opportunity OQ now d symbol long_exchange short_exchange long_ask short_bid =
     (let spread_bps = ((short_bid - long_ask) / long_ask) * lit 10000 in
      if spread_bps \<le> min_spread_bps d then d\<lparr>filter_count_spread := filter_count_spread d + 1\<rparr>
      else
        let funding_delta = get_funding_delta symbol long_exchange short_exchange in
        if \<bar>funding_delta\<bar> < min_funding_delta d
        then d\<lparr>filter_count_funding := filter_count_funding d + 1\<rparr>
        else
          let confidence = calculate_confidence spread_bps funding_delta in
          if confidence < min_confidence d
          then d\<lparr>filter_count_confidence := filter_count_confidence d + 1\<rparr>
          else
            let long_fee_bps = get_exchange_fee_by_name long_exchange;
                short_fee_bps = get_exchange_fee_by_name short_exchange;
                total_fees_bps = long_fee_bps + short_fee_bps;
                slippage_bps = lit 3;
                funding_cost_bps = lit 10;
                projected_profit_bps = spread_bps - total_fees_bps - slippage_bps - funding_cost_bps
            in
            if projected_profit_bps \<le> lit 0
            then d\<lparr>filter_count_profit := filter_count_profit d + 1\<rparr>
            else
              let depth_long = get_depth long_exchange symbol;
                  depth_short = get_depth short_exchange symbol;
                  metrics = build_metrics d spread_bps funding_delta depth_long depth_short;
                  opportunity = opportunity_of symbol long_exchange short_exchange long_ask short_bid
                    spread_bps funding_delta confidence projected_profit_bps metrics depth_long
                    depth_short now
              in d\<lparr>det_opps := OpportunityProducer_push OQ (det_opps d) opportunity\<rparr>)"

definition known_exchanges :: "string list" where
  "known_exchanges = [''binance'', ''bybit'', ''okx'', ''kucoin'', ''bitget'',
     ''gateio'', ''hyperliquid'', ''paradex'']"

text \<open>The filter closure calls \<open>get_or_insert\<close>, so it updates the symbol map as it goes.\<close>

definition filter_exchange ::
  "('m, key, u32) dashmap_ops \<Rightarrow> ('n, u32, key) dashmap_ops \<Rightarrow> string \<Rightarrow>
   ('mq, 'm, 'n, 'oq) detector \<times> string list \<Rightarrow> string \<Rightarrow>
   ('mq, 'm, 'n, 'oq) detector \<times> string list" where
  "filter_exchange T F symbol = (\<lambda>(d, exs) ex.
     let (m, symbol_id) = get_or_insert T F (det_symbols d) ex symbol;
         d = d\<lparr>det_symbols := m\<rparr>
     in case get_bid (det_store d) symbol_id of
          Some bid \<Rightarrow> (d, if bid > lit 0 then exs @ [ex] else exs)
        | None \<Rightarrow> (d, exs))"

definition get_exchanges_for_symbol ::
  "('m, key, u32) dashmap_ops \<Rightarrow> ('n, u32, key) dashmap_ops \<Rightarrow> ('mq, 'm, 'n, 'oq) detector \<Rightarrow>
   string \<Rightarrow> ('mq, 'm, 'n, 'oq) detector \<times> string list" where
  "get_exchanges_for_symbol T F d symbol =
     foldl (filter_exchange T F symbol) (d, []) known_exchanges"

definition get_prices ::
  "('m, key, u32) dashmap_ops \<Rightarrow> ('n, u32, key) dashmap_ops \<Rightarrow> ('mq, 'm, 'n, 'oq) detector \<Rightarrow>
   string \<Rightarrow> string \<Rightarrow> ('mq, 'm, 'n, 'oq) detector \<times> (f64 \<times> f64) option" where
  "get_prices T F d exchange symbol =
     (let (m, symbol_id) = get_or_insert T F (det_symbols d) exchange symbol;
          d = d\<lparr>det_symbols := m\<rparr>
      in case get_bid (det_store d) symbol_id of
           None \<Rightarrow> (d, None)
         | Some bid \<Rightarrow>
             (case get_ask (det_store d) symbol_id of
                None \<Rightarrow> (d, None)
              | Some ask \<Rightarrow>
                  if bid \<le> lit 0 \<or> ask \<le> lit 0 then (d, None) else (d, Some (bid, ask))))"

text \<open>The pairs \<open>(i, j)\<close>, \<open>i < j\<close>, in the order of the two loops.\<close>

definition index_pairs :: "nat \<Rightarrow> (nat \<times> nat) list" where
  "index_pairs n = concat (map (\<lambda>i. map (Pair i) [i + 1..<n]) [0..<n])"

definition check_pair ::
  "('oq, arbitrage_opportunity) array_queue_ops \<Rightarrow> ('m, key, u32) dashmap_ops \<Rightarrow>
   ('n, u32, key) dashmap_ops \<Rightarrow> u64 \<Rightarrow> string \<Rightarrow> ('mq, 'm, 'n, 'oq) detector \<Rightarrow>
   string \<Rightarrow> string \<Rightarrow> ('mq, 'm, 'n, 'oq) detector" where
  "check_pair OQ T F now symbol d ex1 ex2 =
     (let (d, p1) = get_prices T F d ex1 symbol;
          (d, p2) = get_prices T F d ex2 symbol
      in case (p1, p2) of
           (Some (bid1, ask1), Some (bid2, ask2)) \<Rightarrow>
             check_opportunity OQ now (check_opportunity OQ now d symbol ex1 ex2 ask1 bid2)
               symbol ex2 ex1 ask2 bid1
         | _ \<Rightarrow> d)"

definition detect_opportunities_for_symbol ::
  "('oq, arbitrage_opportunity) array_queue_ops \<Rightarrow> ('m, key, u32) dashmap_ops \<Rightarrow>
   ('n, u32, key) dashmap_ops \<Rightarrow> u64 \<Rightarrow> ('mq, 'm, 'n, 'oq) detector \<Rightarrow> string \<Rightarrow> string \<Rightarrow>
   ('mq, 'm, 'n, 'oq) detector" where
  "detect_opportunities_for_symbol OQ T F now d symbol updated_exchange =
     (let (d, exchanges) = get_exchanges_for_symbol T F d symbol in
      if length exchanges < 2 then d
      else foldl (\<lambda>d (i, j). check_pair OQ T F now symbol d (exchanges ! i) (exchanges ! j))
             d (index_pairs (length exchanges)))"

definition detector_step ::
  "('mq, market_update) array_queue_ops \<Rightarrow> ('oq, arbitrage_opportunity) array_queue_ops \<Rightarrow>
   ('m, key, u32) dashmap_ops \<Rightarrow> ('n, u32, key) dashmap_ops \<Rightarrow> u64 \<Rightarrow>
   ('mq, 'm, 'n, 'oq) detector \<Rightarrow> ('mq, 'm, 'n, 'oq) detector" where
  "detector_step MQ OQ T F now d =
     (let (p, popped) = MarketConsumer_pop MQ (det_market d);
          d = d\<lparr>det_market := p\<rparr>
      in case popped of
           None \<Rightarrow> d
         | Some u \<Rightarrow>
             let d = d\<lparr>det_store := update_from_market_update (det_store d) u\<rparr> in
             case SymbolMap_get F (det_symbols d) (mu_symbol_id u) of
               Some (exchange, symbol) \<Rightarrow>
                 detect_opportunities_for_symbol OQ T F now d symbol exchange
             | None \<Rightarrow> d)"

section \<open>Specification\<close>

text \<open>What every published opportunity satisfies, given the thresholds of the detector.\<close>

definition spread_of :: "f64 \<Rightarrow> f64 \<Rightarrow> f64" where
  "spread_of long_ask short_bid = ((short_bid - long_ask) / long_ask) * lit 10000"

definition cost_bps :: "string \<Rightarrow> string \<Rightarrow> f64 \<Rightarrow> f64" where
  "cost_bps long_exchange short_exchange spread =
     spread - (get_exchange_fee_by_name long_exchange + get_exchange_fee_by_name short_exchange)
       - lit 3 - lit 10"

definition passes_filters :: "arbitrage_opportunity \<Rightarrow> bool" where
  "passes_filters opp \<longleftrightarrow>
     ao_spread_bps opp = spread_of (ao_long_price opp) (ao_short_price opp) \<and>
     \<not> ao_spread_bps opp \<le> lit 10 \<and>
     ao_confidence_score opp = calculate_confidence (ao_spread_bps opp) (lit 0.0002) \<and>
     70 \<le> ao_confidence_score opp \<and>
     ao_projected_profit_after_slippage opp =
       cost_bps (ao_long_exchange opp) (ao_short_exchange opp) (ao_spread_bps opp) \<and>
     \<not> ao_projected_profit_after_slippage opp \<le> lit 0"

text \<open>Where its prices come from: the long leg is bought at the ask the store has under the ID of
  its exchange, the short leg is sold at the bid of its own.\<close>

definition priced_from ::
  "('n, u32, key) dashmap_ops \<Rightarrow> market_data_store \<Rightarrow> ('m, 'n) symbol_map \<Rightarrow>
   arbitrage_opportunity \<Rightarrow> bool" where
  "priced_from F st m opp \<longleftrightarrow>
     (\<exists>i j. SymbolMap_get F m i = Some (ao_long_exchange opp, ao_symbol opp) \<and>
        get_ask st i = Some (ao_long_price opp) \<and> \<not> ao_long_price opp \<le> lit 0 \<and>
        SymbolMap_get F m j = Some (ao_short_exchange opp, ao_symbol opp) \<and>
        get_bid st j = Some (ao_short_price opp) \<and> \<not> ao_short_price opp \<le> lit 0)"

text \<open>One part of the detection, from \<open>d\<close> to \<open>d'\<close>, publishes \<open>opps\<close> and draws at most \<open>n\<close> IDs.\<close>

definition detects ::
  "('oq, arbitrage_opportunity) array_queue_ops \<Rightarrow> ('m, key, u32) dashmap_ops \<Rightarrow>
   ('n, u32, key) dashmap_ops \<Rightarrow> ('m \<Rightarrow> bool) \<Rightarrow> ('n \<Rightarrow> bool) \<Rightarrow> string \<Rightarrow> nat \<Rightarrow>
   ('mq, 'm, 'n, 'oq) detector \<Rightarrow> arbitrage_opportunity list \<Rightarrow> ('mq, 'm, 'n, 'oq) detector \<Rightarrow>
   bool" where
  "detects OQ T F tinv finv y n d opps d' \<longleftrightarrow>
     det_opps d' = foldl (OpportunityProducer_push OQ) (det_opps d) opps \<and>
     det_store d' = det_store d \<and> det_market d' = det_market d \<and>
     min_spread_bps d' = min_spread_bps d \<and> min_confidence d' = min_confidence d \<and>
     min_funding_delta d' = min_funding_delta d \<and>
     sm_inv T F tinv finv (det_symbols d') \<and>
     unat (next_id (det_symbols d')) \<le> unat (next_id (det_symbols d)) + n \<and>
     (\<forall>i k. SymbolMap_get F (det_symbols d) i = Some k \<longrightarrow>
        SymbolMap_get F (det_symbols d') i = Some k) \<and>
     (\<forall>opp \<in> set opps. passes_filters opp \<and> ao_symbol opp = y \<and>
        priced_from F (det_store d) (det_symbols d') opp)"

abbreviation standard :: "('mq, 'm, 'n, 'oq) detector \<Rightarrow> bool" where
  "standard d \<equiv> min_spread_bps d = lit 10 \<and> min_confidence d = 70"

text \<open>A fresh detector over concrete maps and queues, with bybit and okx quoting BTCUSDT.\<close>

definition sample_detector ::
  "(nat \<times> market_update list, (key \<times> u32) list, (u32 \<times> key) list, nat \<times> arbitrage_opportunity list)
     detector" where
  "sample_detector =
     (OpportunityDetector_new
        \<lparr>mp_queue = (10, []), mp_push_count = 0, mp_enqueue_count = 0, mp_drop_count = 0,
         mp_pop_count = 0\<rparr>
        (SymbolMap_new alist_ops alist_ops)
        \<lparr>oq_queue = (8, []), oq_push_count = 0, oq_pop_count = 0, oq_drop_count = 0\<rparr>)
     \<lparr>det_store := replay [MarketUpdate_new 1 (lit 100) (lit 100) 1,
                            MarketUpdate_new 11 (lit 101) (lit 101) 1]\<rparr>"

definition sample_published :: arbitrage_opportunity where
  "sample_published = (sample_opportunity ''BTCUSDT'')\<lparr>ao_long_price := lit 100,
     ao_short_price := lit 101, ao_spread_bps := spread_of (lit 100) (lit 101),
     ao_confidence_score := 70, ao_projected_profit_after_slippage :=
       cost_bps ''bybit'' ''okx'' (spread_of (lit 100) (lit 101))\<rparr>"

section \<open>Lemmas\<close>

lemma check_opportunity_cases:
  assumes "min_spread_bps d = lit 10" "min_confidence d = 70"
  obtains (filtered) "det_opps (check_opportunity OQ now d y l s a b) = det_opps d"
  | (published) opp where
      "det_opps (check_opportunity OQ now d y l s a b) = OpportunityProducer_push OQ (det_opps d) opp"
      "passes_filters opp" "ao_symbol opp = y" "ao_long_exchange opp = l" "ao_short_exchange opp = s"
      "ao_long_price opp = a" "ao_short_price opp = b"
proof -
  let ?d = "check_opportunity OQ now d y l s a b"
  have "det_opps ?d = det_opps d \<or> (\<exists>opp. det_opps ?d = OpportunityProducer_push OQ (det_opps d) opp \<and>
      passes_filters opp \<and> ao_symbol opp = y \<and> ao_long_exchange opp = l \<and>
      ao_short_exchange opp = s \<and> ao_long_price opp = a \<and> ao_short_price opp = b)"
    using assms
    unfolding check_opportunity_def passes_filters_def spread_of_def cost_bps_def
      get_funding_delta_def Let_def
    by (auto simp: not_less opportunity_of_def simp del: lit_numeral
        intro!: exI[of _ "opportunity_of _ _ _ _ _ _ _ _ _ _ _ _ _"])
  then show ?thesis using filtered published by blast
qed

lemma check_opportunity_frame:
  "det_store (check_opportunity OQ now d y l s a b) = det_store d"
  "det_market (check_opportunity OQ now d y l s a b) = det_market d"
  "det_symbols (check_opportunity OQ now d y l s a b) = det_symbols d"
  "min_spread_bps (check_opportunity OQ now d y l s a b) = min_spread_bps d"
  "min_confidence (check_opportunity OQ now d y l s a b) = min_confidence d"
  "min_funding_delta (check_opportunity OQ now d y l s a b) = min_funding_delta d"
  by (simp_all add: check_opportunity_def Let_def)

lemma length_index_pairs: "length (index_pairs n) \<le> n * n"
proof -
  have "length (index_pairs n) = (\<Sum>i\<leftarrow>[0..<n]. n - (i + 1))"
    by (simp add: index_pairs_def length_concat o_def)
  also have "\<dots> \<le> (\<Sum>i\<leftarrow>[0..<n]. n)" by (rule sum_list_mono) simp
  also have "\<dots> = n * n" by (simp add: sum_list_triv)
  finally show ?thesis .
qed

lemma priced_from_mono:
  assumes "priced_from F st m opp"
    and "\<And>i k. SymbolMap_get F m i = Some k \<Longrightarrow> SymbolMap_get F m' i = Some k"
  shows "priced_from F st m' opp"
  using assms unfolding priced_from_def by blast

lemma detects_trans:
  assumes "detects OQ T F tinv finv y n d opps d1" "detects OQ T F tinv finv y n' d1 opps' d2"
  shows "detects OQ T F tinv finv y (n + n') d (opps @ opps') d2"
proof -
  have "priced_from F (det_store d) (det_symbols d2) opp" if "opp \<in> set opps" for opp
    using assms that unfolding detects_def by (blast intro: priced_from_mono)
  with assms show ?thesis by (auto simp: detects_def simp del: split_paired_All)
qed

lemma detects_mono: "detects OQ T F tinv finv y n d opps d' \<Longrightarrow> n \<le> n' \<Longrightarrow>
    detects OQ T F tinv finv y n' d opps d'"
  by (auto simp: detects_def)

context symbol_maps
begin

lemma goi_next: "unat (next_id (fst (get_or_insert T F m e y))) \<le> unat (next_id m) + 1"
  by (cases "dm_get T (to_id m) (e, y)")
    (auto simp: goi_known goi_new unat_word_ariths(1) intro: order_trans[OF mod_less_eq_dividend])

lemma room_of:
  assumes "unat (next_id m) + 1 < 2 ^ 32" shows "sm_room m"
proof -
  have "unat (next_id m + 1) = unat (next_id m) + 1" using assms by (simp add: unat_plus_if')
  then show ?thesis unfolding sm_room_def by (metis add_is_0 one_neq_zero unat_0)
qed

abbreviation ready :: "nat \<Rightarrow> ('mq, 'm, 'n, 'oq) detector \<Rightarrow> bool" where
  "ready n d \<equiv> sm_inv T F tinv finv (det_symbols d) \<and> unat (next_id (det_symbols d)) + n < 2 ^ 32"

lemma detects_refl: "sm_inv T F tinv finv (det_symbols d) \<Longrightarrow> detects OQ T F tinv finv y 0 d [] d"
  by (simp add: detects_def)

lemma detects_goi:
  assumes "ready 1 d"
  shows "detects OQ T F tinv finv y 1 d []
    (d\<lparr>det_symbols := fst (get_or_insert T F (det_symbols d) e y')\<rparr>)"
  using assms room_of[of "det_symbols d"] goi_next[of "det_symbols d" e y']
    sm_inv_goi[of "det_symbols d" e y'] si.goi_keeps[of "det_symbols d"]
  by (simp add: detects_def)

lemma get_prices_detects:
  assumes "ready 1 d" "get_prices T F d e y = (d', p)"
  shows "detects OQ T F tinv finv y 1 d [] d'"
    and "p = Some (bid, ask) \<Longrightarrow> \<exists>i. SymbolMap_get F (det_symbols d') i = Some (e, y) \<and>
      get_bid (det_store d') i = Some bid \<and> get_ask (det_store d') i = Some ask \<and>
      \<not> bid \<le> lit 0 \<and> \<not> ask \<le> lit 0"
proof -
  let ?g = "get_or_insert T F (det_symbols d) e y"
  have d': "d' = d\<lparr>det_symbols := fst ?g\<rparr>"
    using assms(2) by (auto simp: get_prices_def split_beta Let_def split: option.splits if_splits)
  then show "detects OQ T F tinv finv y 1 d [] d'" using detects_goi[OF assms(1)] by simp
  have "SymbolMap_get F (fst ?g) (snd ?g) = Some (e, y)"
    using assms(1) by (intro si.goi_lookup room_of) auto
  then show "\<exists>i. SymbolMap_get F (det_symbols d') i = Some (e, y) \<and>
      get_bid (det_store d') i = Some bid \<and> get_ask (det_store d') i = Some ask \<and>
      \<not> bid \<le> lit 0 \<and> \<not> ask \<le> lit 0" if "p = Some (bid, ask)"
    using assms(2) that d'
    by (intro exI[of _ "snd ?g"])
      (auto simp: get_prices_def split_beta Let_def split: option.splits if_splits)
qed

lemma check_opportunity_detects:
  assumes "ready 0 d" "standard d"
    and "SymbolMap_get F (det_symbols d) i = Some (l, y)" "get_ask (det_store d) i = Some a" "\<not> a \<le> lit 0"
    and "SymbolMap_get F (det_symbols d) j = Some (s, y)" "get_bid (det_store d) j = Some b" "\<not> b \<le> lit 0"
  shows "\<exists>opps. detects OQ T F tinv finv y 0 d opps (check_opportunity OQ now d y l s a b)"
proof -
  from assms(2) have st: "min_spread_bps d = lit 10" "min_confidence d = 70" by auto
  show ?thesis
  proof (rule check_opportunity_cases[OF st, of OQ now y l s a b])
    assume "det_opps (check_opportunity OQ now d y l s a b) = det_opps d"
    then show ?thesis using assms(1) by (intro exI[of _ "[]"]) (simp add: detects_def check_opportunity_frame)
  next
    fix opp
    assume opp: "det_opps (check_opportunity OQ now d y l s a b) = OpportunityProducer_push OQ (det_opps d) opp"
      "passes_filters opp" "ao_symbol opp = y" "ao_long_exchange opp = l" "ao_short_exchange opp = s"
      "ao_long_price opp = a" "ao_short_price opp = b"
    then have "priced_from F (det_store d) (det_symbols d) opp"
      using assms(3-8) unfolding priced_from_def by blast
    then show ?thesis using assms(1) opp
      by (intro exI[of _ "[opp]"]) (simp add: detects_def check_opportunity_frame)
  qed
qed

lemma detects_ready:
  assumes "detects OQ T F tinv finv y n d opps d'" "ready (n + k) d"
  shows "ready k d'"
  using assms by (auto simp: detects_def)

lemma detects_standard: "detects OQ T F tinv finv y n d opps d' \<Longrightarrow> standard d \<Longrightarrow> standard d'"
  by (simp add: detects_def)

lemma check_pair_detects:
  assumes r: "ready 2 d" and st: "standard d"
  shows "\<exists>opps. detects OQ T F tinv finv y 2 d opps (check_pair OQ T F now y d e1 e2)"
proof -
  obtain d1 p1 where g1: "get_prices T F d e1 y = (d1, p1)" by fastforce
  obtain d2 p2 where g2: "get_prices T F d1 e2 y = (d2, p2)" by fastforce
  have D1: "detects OQ T F tinv finv y 1 d [] d1" using r g1 by (intro get_prices_detects(1)) auto
  have r1: "ready 1 d1" using detects_ready[OF D1, of 1] r by simp
  have D2: "detects OQ T F tinv finv y 1 d1 [] d2" using r1 g2 by (intro get_prices_detects(1)) auto
  have D: "detects OQ T F tinv finv y 2 d [] d2"
    using detects_trans[OF D1 D2] by (simp add: numeral_2_eq_2)
  have r2: "ready 0 d2" using detects_ready[OF D, of 0] r by simp
  have st2: "standard d2" by (rule detects_standard[OF D st])
  show ?thesis
  proof (cases "\<exists>b1 a1 b2 a2. p1 = Some (b1, a1) \<and> p2 = Some (b2, a2)")
    case False
    then have "check_pair OQ T F now y d e1 e2 = d2"
      using g1 g2 by (auto simp: check_pair_def split: option.splits)
    with D show ?thesis by auto
  next
    case True
    then obtain b1 a1 b2 a2 where p: "p1 = Some (b1, a1)" "p2 = Some (b2, a2)" by blast
    let ?d3 = "check_opportunity OQ now d2 y e1 e2 a1 b2"
    from get_prices_detects(2)[of d e1 y d1 p1 b1 a1] r g1 p obtain i where
      "SymbolMap_get F (det_symbols d1) i = Some (e1, y)" "get_bid (det_store d1) i = Some b1"
      "get_ask (det_store d1) i = Some a1" and pos1: "\<not> b1 \<le> lit 0" "\<not> a1 \<le> lit 0" by auto
    then have i: "SymbolMap_get F (det_symbols d2) i = Some (e1, y)" "get_bid (det_store d2) i = Some b1"
      "get_ask (det_store d2) i = Some a1" using D2 unfolding detects_def by auto
    from get_prices_detects(2)[of d1 e2 y d2 p2 b2 a2] r1 g2 p obtain j where
      j: "SymbolMap_get F (det_symbols d2) j = Some (e2, y)" "get_bid (det_store d2) j = Some b2"
      "get_ask (det_store d2) j = Some a2" and pos2: "\<not> b2 \<le> lit 0" "\<not> a2 \<le> lit 0" by auto
    obtain o1 where D3: "detects OQ T F tinv finv y 0 d2 o1 ?d3"
      using check_opportunity_detects[OF r2 st2 i(1,3) pos1(2) j(1,2) pos2(1)] by blast
    have i3: "SymbolMap_get F (det_symbols ?d3) i = Some (e1, y)" "get_bid (det_store ?d3) i = Some b1"
      and j3: "SymbolMap_get F (det_symbols ?d3) j = Some (e2, y)" "get_ask (det_store ?d3) j = Some a2"
      using i j by (simp_all add: check_opportunity_frame)
    obtain o2 where D4: "detects OQ T F tinv finv y 0 ?d3 o2 (check_opportunity OQ now ?d3 y e2 e1 a2 b1)"
      using check_opportunity_detects[OF detects_ready[OF D3, of 0] detects_standard[OF D3 st2]
          j3 pos2(2) i3 pos1(1)] r2 by auto
    have "check_pair OQ T F now y d e1 e2 = check_opportunity OQ now ?d3 y e2 e1 a2 b1"
      using g1 g2 p by (simp add: check_pair_def)
    then show ?thesis using detects_trans[OF D detects_trans[OF D3 D4]] by auto
  qed
qed

lemma fold_pairs_detects:
  assumes "ready (2 * length ps) d" "standard d"
  shows "\<exists>opps. detects OQ T F tinv finv y (2 * length ps) d opps
    (foldl (\<lambda>d (i, j). check_pair OQ T F now y d (es ! i) (es ! j)) d ps)"
  using assms
proof (induction ps arbitrary: d)
  case Nil
  then show ?case by (intro exI[of _ "[]"]) (auto intro: detects_refl)
next
  case (Cons p ps)
  let ?d = "check_pair OQ T F now y d (es ! fst p) (es ! snd p)"
  obtain o1 where D1: "detects OQ T F tinv finv y 2 d o1 ?d"
    using check_pair_detects[of d OQ y now "es ! fst p" "es ! snd p"] Cons.prems by auto
  moreover obtain o2 where "detects OQ T F tinv finv y (2 * length ps) ?d o2
      (foldl (\<lambda>d (i, j). check_pair OQ T F now y d (es ! i) (es ! j)) ?d ps)"
    using Cons.IH[of ?d] detects_ready[OF D1] detects_standard[OF D1] Cons.prems by auto
  ultimately have "detects OQ T F tinv finv y (2 + 2 * length ps) d (o1 @ o2)
      (foldl (\<lambda>d (i, j). check_pair OQ T F now y d (es ! i) (es ! j)) ?d ps)" by (rule detects_trans)
  then show ?case by (cases p) auto
qed

lemma filter_exchange_state:
  "fst (filter_exchange T F y (d, xs) e) =
     d\<lparr>det_symbols := fst (get_or_insert T F (det_symbols d) e y)\<rparr>"
  "length (snd (filter_exchange T F y (d, xs) e)) \<le> length xs + 1"
  by (auto simp: filter_exchange_def split_beta Let_def split: option.splits)

lemma filter_exchange_length:
  "length (snd (foldl (filter_exchange T F y) s es)) \<le> length (snd s) + length es"
proof (induction es arbitrary: s)
  case (Cons e es)
  have "length (snd (foldl (filter_exchange T F y) (filter_exchange T F y s e) es)) \<le>
      length (snd (filter_exchange T F y s e)) + length es" by (rule Cons.IH)
  also have "\<dots> \<le> length (snd s) + 1 + length es"
    using filter_exchange_state(2)[of y "fst s" "snd s" e] by simp
  finally show ?case by simp
qed simp

lemma exchange_fold_detects:
  assumes "ready (length es) (fst s)"
  shows "detects OQ T F tinv finv y (length es) (fst s) [] (fst (foldl (filter_exchange T F y) s es))"
  using assms
proof (induction es arbitrary: s)
  case Nil
  then show ?case by (simp add: detects_refl)
next
  case (Cons e es)
  let ?s = "filter_exchange T F y s e"
  have "ready 1 (fst s)" using Cons.prems by simp
  then have D: "detects OQ T F tinv finv y 1 (fst s) [] (fst ?s)"
    using detects_goi[of "fst s" OQ y e y] filter_exchange_state(1)[of y "fst s" "snd s" e] by simp
  have "detects OQ T F tinv finv y (length es) (fst ?s) [] (fst (foldl (filter_exchange T F y) ?s es))"
    using detects_ready[OF D, of "length es"] Cons.prems by (intro Cons.IH) simp
  from detects_trans[OF D this] show ?case by simp
qed

lemma detect_for_symbol_detects:
  assumes "ready 136 d" "standard d"
  shows "\<exists>opps. detects OQ T F tinv finv y 136 d opps
    (detect_opportunities_for_symbol OQ T F now d y ex)"
proof -
  obtain d1 es where g: "get_exchanges_for_symbol T F d y = (d1, es)" by fastforce
  have l: "length known_exchanges = 8" by (simp add: known_exchanges_def)
  have D1: "detects OQ T F tinv finv y 8 d [] d1" and es: "length es \<le> 8"
    using exchange_fold_detects[where es = known_exchanges and s = "(d, [])" and OQ = OQ and y = y]
      filter_exchange_length[where es = known_exchanges and s = "(d, [])" and y = y] assms(1) g
    by (simp_all add: get_exchanges_for_symbol_def l)
  have "length es * length es \<le> 8 * 8" using es by (intro mult_le_mono)
  then have len: "2 * length (index_pairs (length es)) \<le> 128"
    using length_index_pairs[of "length es"] by simp
  have r1: "ready 128 d1" using detects_ready[OF D1, of 128] assms(1) by simp
  show ?thesis
  proof (cases "length es < 2")
    case True
    then have "detect_opportunities_for_symbol OQ T F now d y ex = d1"
      using g by (simp add: detect_opportunities_for_symbol_def)
    then show ?thesis using detects_mono[OF D1, of 136] by auto
  next
    case False
    have "ready (2 * length (index_pairs (length es))) d1" using r1 len by auto
    from fold_pairs_detects[OF this detects_standard[OF D1 assms(2)], of OQ y now es]
    obtain opps where "detects OQ T F tinv finv y (2 * length (index_pairs (length es))) d1 opps
        (foldl (\<lambda>d (i, j). check_pair OQ T F now y d (es ! i) (es ! j)) d1 (index_pairs (length es)))"
      by blast
    from detects_mono[OF detects_trans[OF D1 this], of 136] len False g show ?thesis
      by (auto simp: detect_opportunities_for_symbol_def)
  qed
qed

end

section \<open>What the filters let through\<close>

lemma confidence_mono:
  assumes "s \<le> s'" "is_finite (fmin (\<bar>f\<bar> / lit 0.01) (lit 1) * lit 30)"
  shows "calculate_confidence s f \<le> calculate_confidence s' f"
proof -
  have n: "s \<noteq> NaN" "s' \<noteq> NaN" using assms(1) f_le_not_nan by blast+
  have "s / lit 50 \<le> s' / lit 50" using assms(1) by (intro div_mono_left) (simp_all add: zero_f64_def)
  then have "fmin (s / lit 50) (lit 1) \<le> fmin (s' / lit 50) (lit 1)" by (intro fmin_mono) simp_all
  then have "fmin (s / lit 50) (lit 1) * lit 50 \<le> fmin (s' / lit 50) (lit 1) * lit 50"
    by (intro mul_mono_left) (simp_all add: zero_f64_def)
  then show ?thesis
    unfolding calculate_confidence_def Let_def
    by (intro f64_as_u8_mono fclamp_mono add_mono_left add_mono_right assms(2) lit_mono)
      (simp_all add: zero_f64_def)
qed

lemma placeholder_funding_finite:
  "is_finite (fmin (\<bar>lit 0.0002\<bar> / lit 0.01) (lit 1) * lit 30)"
  by code_simp

lemma confidence_below_49:
  assumes "s < lit 49" shows "calculate_confidence s (lit 0.0002) < 70"
proof -
  have "calculate_confidence s (lit 0.0002) \<le> calculate_confidence (lit 49) (lit 0.0002)"
    by (rule confidence_mono[OF f_less_imp_le[OF assms] placeholder_funding_finite])
  also have "calculate_confidence (lit 49) (lit 0.0002) = 69" by code_simp
  finally show ?thesis by (rule order_le_less_trans) simp
qed

lemma spread_of_not_nan:
  assumes "is_finite a" "0 < a" "is_finite b" shows "spread_of a b \<noteq> NaN"
proof -
  have "b - a \<noteq> NaN" using assms by (cases a; cases b) (auto simp: minus_f64_def)
  then have "(b - a) / a \<noteq> NaN" using assms by (intro div_not_nan)
  then show ?thesis unfolding spread_of_def by (rule mul_not_nan) (simp_all add: zero_f64_def)
qed

lemma fee_finite: "is_finite (get_exchange_fee_by_name e)"
  using exchange_fee_range[of "exchange_to_id e"] by (cases "get_exchange_fee_by_name e") (auto simp: fee_by_name)

lemma sub_finite_not_nan: "x \<noteq> NaN \<Longrightarrow> is_finite y \<Longrightarrow> x - y \<noteq> NaN"
  by (cases x; cases y) (auto simp: minus_f64_def)

lemma add_fees_finite: "is_finite (get_exchange_fee_by_name e + get_exchange_fee_by_name e')"
proof -
  let ?f = "get_exchange_fee_by_name e" and ?g = "get_exchange_fee_by_name e'"
  have n: "?f + ?g \<noteq> NaN" using fee_finite[of e] fee_finite[of e'] by (intro add_not_nan) auto
  have c: "is_finite (lit 4 + lit 4)" "is_finite (lit 6 + lit 6)" by code_simp+
  then have "lit 4 + lit 4 \<le> ?f + ?g" "?f + ?g \<le> lit 6 + lit 6"
    using n exchange_fee_range[of "exchange_to_id e"] exchange_fee_range[of "exchange_to_id e'"]
    by (auto intro!: add_mono_f64 simp: fee_by_name simp del: lit_numeral dest: is_finite_cases)
  with c show ?thesis by (cases "?f + ?g") (auto dest: is_finite_cases)
qed

lemma cost_not_nan: "s \<noteq> NaN \<Longrightarrow> cost_bps e e' s \<noteq> NaN"
  unfolding cost_bps_def by (intro sub_finite_not_nan add_fees_finite) auto

text \<open>A NaN ask is not \<open>\<le> 0\<close>, makes every comparison of the filters false and scores 70.\<close>

lemma nan_ask_published:
  assumes "min_spread_bps d = lit 10" "min_funding_delta d = lit 0.0001" "min_confidence d = 70"
  shows "\<exists>opp. det_opps (check_opportunity OQ now d y l s NaN b) =
      OpportunityProducer_push OQ (det_opps d) opp \<and> ao_spread_bps opp = NaN"
proof -
  have s: "((b - NaN) / NaN) * lit 10000 = NaN"
    by (simp add: divide_f64_def times_f64_def Let_def)
  have c: "calculate_confidence NaN (lit 0.0002) = 70" "\<not> \<bar>lit 0.0002\<bar> < lit 0.0001" by code_simp+
  have p: "NaN - x - lit 3 - lit 10 = NaN" for x by (simp add: minus_f64_def)
  show ?thesis
    unfolding check_opportunity_def Let_def s p get_funding_delta_def
    using assms c by (simp add: opportunity_of_def) (intro exI conjI, rule refl, simp)
qed

lemma sample_detector_ready:
  "sm_inv alist_ops alist_ops (\<lambda>_. True) (\<lambda>_. True) (det_symbols sample_detector)"
  "unat (next_id (det_symbols sample_detector)) + 136 < 2 ^ 32"
  "min_spread_bps sample_detector = lit 10" "min_confidence sample_detector = 70"
proof -
  note new = alist_pair.SymbolMap_new_props(1,2)
  show "sm_inv alist_ops alist_ops (\<lambda>_. True) (\<lambda>_. True) (det_symbols sample_detector)"
    using new(1) by (simp add: sample_detector_def OpportunityDetector_new_def)
  have "next_id (det_symbols sample_detector) = 61"
    using new(2) by (simp add: sample_detector_def OpportunityDetector_new_def)
  then show "unat (next_id (det_symbols sample_detector)) + 136 < 2 ^ 32" by simp
qed (simp_all add: sample_detector_def OpportunityDetector_new_def)

lemma sample_published_passes: "passes_filters sample_published"
proof -
  have "\<not> spread_of (lit 100) (lit 101) \<le> lit 10"
    "calculate_confidence (spread_of (lit 100) (lit 101)) (lit 0.0002) = 70"
    "\<not> spread_of (lit 100) (lit 101) - (lit 5.5 + lit 5) - lit 3 - lit 10 \<le> lit 0"
    by code_simp+
  then show ?thesis
    by (simp add: passes_filters_def sample_published_def sample_opportunity_def cost_bps_def
        sample_fees del: lit_numeral)
qed

section \<open>Properties\<close>

text \<open>C5. Soundness of detection: whatever the state of the store, the opportunities that examining a
  symbol publishes all pass the spread, confidence and profit filters, and each is priced from the
  store: its long price is the ask stored under the ID of (long exchange, symbol), its short price
  the bid stored under the ID of (short exchange, symbol).\<close>

theorem detection_sound:
  assumes "dashmap T tinv" and "dashmap F finv" and "sm_inv T F tinv finv (det_symbols d)"
    and "unat (next_id (det_symbols d)) + 136 < 2 ^ 32"
    and "min_spread_bps d = lit 10" and "min_confidence d = 70"
    and "d' = detect_opportunities_for_symbol OQ T F now d symbol updated_exchange"
  shows "\<exists>opps. det_opps d' = foldl (OpportunityProducer_push OQ) (det_opps d) opps \<and>
    (\<forall>opp \<in> set opps. passes_filters opp \<and> ao_symbol opp = symbol \<and>
       priced_from F (det_store d) (det_symbols d') opp)"
proof -
  have "\<exists>opps. detects OQ T F tinv finv symbol 136 d opps d'"
    unfolding assms(7)
    by (rule symbol_maps.detect_for_symbol_detects[OF symbol_maps_of[OF assms(1,2)]])
      (use assms in auto)
  then show ?thesis unfolding detects_def by blast
qed

theorem detection_sound_witness:
  "\<exists>opps. det_opps (detect_opportunities_for_symbol list_queue alist_ops alist_ops 7 sample_detector
       ''BTCUSDT'' ''bybit'') =
     foldl (OpportunityProducer_push list_queue) (det_opps sample_detector) opps \<and>
    (\<forall>opp \<in> set opps. passes_filters opp \<and> ao_symbol opp = ''BTCUSDT'' \<and>
       priced_from alist_ops (det_store sample_detector) (det_symbols
         (detect_opportunities_for_symbol list_queue alist_ops alist_ops 7 sample_detector
           ''BTCUSDT'' ''bybit'')) opp)"
  by (rule detection_sound[OF dashmap_alist dashmap_alist sample_detector_ready refl])

text \<open>What the filters amount to: with finite positive prices a published opportunity has a
  positive profit after fees, slippage and funding cost, and a spread of at least 49 basis points.
  The spread threshold of 10 basis points never decides: with the placeholder funding rate the
  confidence threshold does.\<close>

lemma published_spread_at_least_49:
  assumes "passes_filters opp"
    and "is_finite (ao_long_price opp)" and "0 < ao_long_price opp" and "is_finite (ao_short_price opp)"
  shows "lit 49 \<le> ao_spread_bps opp \<and> 0 < ao_projected_profit_after_slippage opp"
proof -
  let ?s = "ao_spread_bps opp"
  have s: "?s \<noteq> NaN"
    using assms spread_of_not_nan[of "ao_long_price opp" "ao_short_price opp"]
    by (simp add: passes_filters_def)
  have "\<not> ?s < lit 49" using assms(1) confidence_below_49[of ?s] by (auto simp: passes_filters_def)
  moreover have "0 < ao_projected_profit_after_slippage opp"
    using assms(1) cost_not_nan[OF s] unfolding passes_filters_def
    by (metis f_not_le lit_0 zero_not_nan(1))
  ultimately show ?thesis using s by (simp add: f_not_less)
qed

text \<open>The detector's store is the replay of what it popped: one iteration of the loop on a
  non-empty pipeline removes the oldest update and applies it to the store, and nothing else in the
  iteration touches the store; on an empty pipeline it does nothing.\<close>

lemma detector_step_store:
  assumes "dashmap T tinv" and "dashmap F finv" and "array_queue MQ items ok"
    and "sm_inv T F tinv finv (det_symbols d)" and "unat (next_id (det_symbols d)) + 136 < 2 ^ 32"
    and "min_spread_bps d = lit 10" and "min_confidence d = 70" and "ok (mp_queue (det_market d))"
    and "d' = detector_step MQ OQ T F now d"
  shows "items (mp_queue (det_market d')) = tl (items (mp_queue (det_market d))) \<and>
    det_store d' = (case items (mp_queue (det_market d)) of
      [] \<Rightarrow> det_store d | u # _ \<Rightarrow> update_from_market_update (det_store d) u)"
proof (cases "items (mp_queue (det_market d))")
  case Nil
  then have "MarketConsumer_pop MQ (det_market d) = (det_market d, None)"
    using array_queue.pop_empty[OF assms(3,8)] by (simp add: MarketConsumer_pop_def)
  then show ?thesis using Nil assms(9) by (simp add: detector_step_def)
next
  case (Cons u us)
  obtain q where q: "aq_pop MQ (mp_queue (det_market d)) = (q, Some u)" "items q = us"
    using array_queue.pop_some[OF assms(3,8) Cons] by blast
  let ?d = "d\<lparr>det_market := (det_market d)\<lparr>mp_queue := q, mp_pop_count := mp_pop_count (det_market d) + 1\<rparr>,
      det_store := update_from_market_update (det_store d) u\<rparr>"
  have pop: "MarketConsumer_pop MQ (det_market d) =
      ((det_market d)\<lparr>mp_queue := q, mp_pop_count := mp_pop_count (det_market d) + 1\<rparr>, Some u)"
    using q by (simp add: MarketConsumer_pop_def)
  have "\<exists>opps. detects OQ T F tinv finv y 136 ?d opps (detect_opportunities_for_symbol OQ T F now ?d y e)"
    for y e
    by (rule symbol_maps.detect_for_symbol_detects[OF symbol_maps_of[OF assms(1,2)]])
      (use assms in auto)
  then have frame: "det_store (detect_opportunities_for_symbol OQ T F now ?d y e) = det_store ?d"
      "det_market (detect_opportunities_for_symbol OQ T F now ?d y e) = det_market ?d" for y e
    unfolding detects_def by blast+
  show ?thesis
    using Cons q(2) frame pop unfolding assms(9) detector_step_def
    by (auto simp: Let_def split: option.splits)
qed

end
