(* ===== verification/Positions.thy ===== *)
theory Positions
  imports Types
begin

text \<open>
  src/src/strategy/positions.rs: unrealised profit, the exit conditions of an open trade and the
  detection of a leg-out.  The lemmas show how the profit moves with the prices and which exit
  reasons can be returned.
\<close>

section \<open>PositionManager\<close>

definition calculate_unrealized_pnl :: "f64 \<Rightarrow> f64 \<Rightarrow> f64 \<Rightarrow> f64 \<Rightarrow> f64 \<Rightarrow> f64" where
  "calculate_unrealized_pnl entry_long_price entry_short_price current_long_price
       current_short_price position_size =
     (let long_pnl = (current_long_price - entry_long_price) / entry_long_price * position_size;
          short_pnl = (entry_short_price - current_short_price) / entry_short_price * position_size
      in long_pnl + short_pnl)"

definition check_exit_conditions :: "paper_trade \<Rightarrow> f64 \<Rightarrow> f64 \<Rightarrow> f64 \<Rightarrow> string option" where
  "check_exit_conditions trade current_funding_delta current_spread_bps unrealized_pnl =
     (if unrealized_pnl \<ge> pt_projected_profit_usd trade * lit 0.9 then Some ''profit_target''
      else if unrealized_pnl \<le> (- pt_projected_profit_usd trade) * lit 0.3 then Some ''loss_limit''
      else if \<bar>current_funding_delta\<bar> < lit 0.00005 then Some ''funding_convergence''
      else if current_spread_bps > pt_entry_spread_bps trade + lit 50 then Some ''spread_widening''
      else if current_spread_bps > pt_entry_spread_bps trade + lit 100 then Some ''stop_loss''
      else None)"

definition detect_leg_out :: "bool \<Rightarrow> bool \<Rightarrow> u64 \<Rightarrow> bool" where
  "detect_leg_out long_filled short_filled time_since_entry_ms =
     (let one_leg_filled = (long_filled \<and> \<not> short_filled) \<or> (\<not> long_filled \<and> short_filled)
      in one_leg_filled \<and> time_since_entry_ms > 500)"

section \<open>Lemmas\<close>

lemma detect_leg_out_iff:
  "detect_leg_out l s t \<longleftrightarrow> l \<noteq> s \<and> 500 < t"
  by (auto simp: detect_leg_out_def)

lemma add_50_le_100: "x \<noteq> NaN \<Longrightarrow> x + lit 50 \<le> x + lit 100"
  by (cases x) (auto intro!: mk_mono f_le_refl)

text \<open>The widening test comes first and is weaker, so the stop loss is never the reason.\<close>

lemma wider_100_wider_50:
  assumes "e + lit 100 < s" shows "e + lit 50 < s"
proof -
  have "e \<noteq> NaN" using f_less_not_nan[OF assms] by auto
  from f_le_less_trans[OF add_50_le_100[OF this] assms] show ?thesis .
qed

lemma stop_loss_unreachable: "check_exit_conditions trade f s p \<noteq> Some ''stop_loss''"
  using wider_100_wider_50 by (auto simp: check_exit_conditions_def)

lemma leg_pnl_mono:
  assumes "c \<le> c'" "is_finite e" "0 < e" "is_finite sz" "0 < sz"
  shows "(c - e) / e * sz \<le> (c' - e) / e * sz"
  using assms by (intro mul_mono_left div_mono_left sub_mono_left)

lemma short_pnl_mono:
  assumes "c \<le> c'" "is_finite e" "0 < e" "is_finite sz" "0 < sz"
  shows "(e - c') / e * sz \<le> (e - c) / e * sz"
  using assms by (intro mul_mono_left div_mono_left sub_mono_right)

section \<open>Properties\<close>

text \<open>The exit decision: a position is kept exactly when it has neither reached 90% of the
  projected profit nor lost 30% of it, the funding has not converged and the spread has not widened by
  more than 50 basis points; otherwise the reason is one of four.  The stop loss is never the reason,
  although the documentation lists it as the fifth condition.\<close>

lemma exit_reasons:
  "(check_exit_conditions trade funding spread pnl = None \<longleftrightarrow>
      \<not> pt_projected_profit_usd trade * lit 0.9 \<le> pnl \<and>
      \<not> pnl \<le> (- pt_projected_profit_usd trade) * lit 0.3 \<and>
      \<not> \<bar>funding\<bar> < lit 0.00005 \<and> \<not> pt_entry_spread_bps trade + lit 50 < spread) \<and>
   check_exit_conditions trade funding spread pnl \<in>
     {None, Some ''profit_target'', Some ''loss_limit'', Some ''funding_convergence'',
      Some ''spread_widening''}"
proof -
  have "check_exit_conditions trade funding spread pnl \<in> {None, Some ''profit_target'',
      Some ''loss_limit'', Some ''funding_convergence'', Some ''spread_widening'', Some ''stop_loss''}"
    by (simp add: check_exit_conditions_def)
  moreover have "\<not> pt_entry_spread_bps trade + lit 100 < spread"
    if "\<not> pt_entry_spread_bps trade + lit 50 < spread"
    using that wider_100_wider_50 by blast
  ultimately show ?thesis
    using stop_loss_unreachable[of trade funding spread pnl]
    by (auto simp: check_exit_conditions_def)
qed

text \<open>Unrealised profit moves the right way: it does not fall when the long leg's price rises and
  the short leg's price falls (as long as neither sum is NaN).\<close>

theorem pnl_monotone:
  assumes "is_finite el" and "0 < el" and "is_finite es" and "0 < es" and "is_finite sz" and "0 < sz"
    and "cl \<le> cl'" and "cs' \<le> cs"
    and "calculate_unrealized_pnl el es cl cs sz \<noteq> NaN"
    and "calculate_unrealized_pnl el es cl' cs' sz \<noteq> NaN"
  shows "calculate_unrealized_pnl el es cl cs sz \<le> calculate_unrealized_pnl el es cl' cs' sz"
  using assms(9,10) unfolding calculate_unrealized_pnl_def Let_def
  by (intro add_mono_f64 leg_pnl_mono short_pnl_mono assms)

end
