(* ===== verification/Portfolio.thy ===== *)
theory Portfolio
  imports Types "HOL-Library.Multiset"
begin

text \<open>
  src/src/strategy/portfolio.rs: the portfolio manager.  Redis is outside the program: every call
  that writes to it takes its outcome as an argument (\<open>log_ok\<close>, \<open>persist_ok\<close>), so a failure of
  Redis is an error path of the model.  The handlers take \<open>&mut self\<close>, so a call is one transition;
  the wall clock in seconds is the argument \<open>now\<close>.

  The lemmas follow every sequence of calls: trades are neither lost nor duplicated, the win and
  loss counters agree with the closed trades, the capital check holds the available capital
  non-negative.
\<close>

section \<open>Manager\<close>

record portfolio_manager =
  pfm_state :: portfolio_state
  pfm_start_time :: u64

datatype portfolio_error = ExceedsCapital f64 f64 | RedisError

definition PortfolioManager_new ::
  "f64 \<Rightarrow> u64 \<Rightarrow> bool \<Rightarrow> bool \<Rightarrow> (portfolio_manager, portfolio_error) result" where
  "PortfolioManager_new starting_capital now del_ok persist_ok =
     (let manager = \<lparr>pfm_state = PortfolioState_new starting_capital, pfm_start_time = now\<rparr> in
      if \<not> del_ok then Err RedisError
      else if \<not> persist_ok then Err RedisError
      else Ok manager)"

definition get_available_capital :: "portfolio_manager \<Rightarrow> f64" where
  "get_available_capital m = ps_available_capital (pfm_state m)"

definition get_starting_capital :: "portfolio_manager \<Rightarrow> f64" where
  "get_starting_capital m = ps_starting_capital (pfm_state m)"

definition open_trade ::
  "portfolio_manager \<Rightarrow> paper_trade \<Rightarrow> bool \<Rightarrow> bool \<Rightarrow>
   portfolio_manager \<times> (unit, portfolio_error) result" where
  "open_trade m trade log_ok persist_ok =
     (let st = pfm_state m in
      if pt_position_size_usd trade > ps_available_capital st
      then (m, Err (ExceedsCapital (pt_position_size_usd trade) (ps_available_capital st)))
      else if pt_position_size_usd trade > ps_available_capital st
      then (m, Err (ExceedsCapital (pt_position_size_usd trade) (ps_available_capital st)))
      else
        let st = st\<lparr>ps_available_capital := ps_available_capital st - pt_position_size_usd trade\<rparr>;
            st = st\<lparr>ps_total_open_positions := ps_total_open_positions st + pt_position_size_usd trade\<rparr>;
            st = st\<lparr>ps_active_trades := ps_active_trades st @ [trade]\<rparr>;
            m = m\<lparr>pfm_state := st\<rparr>
        in if \<not> log_ok then (m, Err RedisError)
           else if \<not> persist_ok then (m, Err RedisError)
           else (m, Ok ()))"

text \<open>\<open>iter().position(p)\<close>, and \<open>Vec::remove\<close> at that index.\<close>

fun position :: "('a \<Rightarrow> bool) \<Rightarrow> 'a list \<Rightarrow> nat option" where
  "position p [] = None"
| "position p (x # xs) = (if p x then Some 0 else map_option Suc (position p xs))"

definition remove_at :: "nat \<Rightarrow> 'a list \<Rightarrow> 'a list" where
  "remove_at i xs = take i xs @ drop (Suc i) xs"

definition close_trade ::
  "portfolio_manager \<Rightarrow> string \<Rightarrow> f64 \<Rightarrow> string \<Rightarrow> u64 \<Rightarrow> bool \<Rightarrow> bool \<Rightarrow>
   portfolio_manager \<times> (unit, portfolio_error) result" where
  "close_trade m trade_id actual_profit exit_reason now log_ok persist_ok =
     (let exit_time = now;
          is_profit = actual_profit > lit 0;
          st = pfm_state m
      in case position (\<lambda>t. pt_id t = trade_id) (ps_active_trades st) of
           None \<Rightarrow> (m, Ok ())
         | Some pos \<Rightarrow>
             let trade = ps_active_trades st ! pos;
                 st = st\<lparr>ps_active_trades := remove_at pos (ps_active_trades st)\<rparr>;
                 trade = trade\<lparr>pt_actual_profit_usd := actual_profit,
                   pt_exit_reason := Some exit_reason, pt_status := Closed,
                   pt_exit_time := Some exit_time\<rparr>;
                 st = st\<lparr>ps_total_open_positions :=
                   ps_total_open_positions st - pt_position_size_usd trade\<rparr>;
                 st = st\<lparr>ps_available_capital :=
                   ps_available_capital st + (pt_position_size_usd trade + actual_profit)\<rparr>;
                 st = st\<lparr>ps_cumulative_pnl := ps_cumulative_pnl st + actual_profit\<rparr>;
                 is_leg_out = pt_leg_out_event trade \<noteq> None;
                 st = (if is_leg_out \<and> actual_profit < lit 0
                       then st\<lparr>ps_leg_out_total_loss := ps_leg_out_total_loss st + \<bar>actual_profit\<bar>\<rparr>
                       else st);
                 st = st\<lparr>ps_closed_trades := ps_closed_trades st @ [trade]\<rparr>;
                 st = (if is_profit then increment_wins st else increment_losses st);
                 st = (if is_leg_out \<and> actual_profit < lit 0 then increment_leg_outs st else st);
                 m = m\<lparr>pfm_state := st\<rparr>
             in if \<not> log_ok then (m, Err RedisError)
                else if \<not> persist_ok then (m, Err RedisError)
                else (m, Ok ()))"

definition get_portfolio_metrics :: "portfolio_manager \<Rightarrow> u64 \<Rightarrow> portfolio_metrics" where
  "get_portfolio_metrics m now =
     (let st = pfm_state m;
          win_count = ps_win_count st;
          loss_count = ps_loss_count st;
          leg_out_count = ps_leg_out_count st;
          total_trades = win_count + loss_count;
          win_rate = (if total_trades > 0
            then (nat_as_f64 (unat win_count) / nat_as_f64 (unat total_trades)) * lit 100 else lit 0);
          pnl_percentage = (ps_cumulative_pnl st / ps_starting_capital st) * lit 100;
          utilization_pct = (ps_total_open_positions st / ps_starting_capital st) * lit 100;
          leg_out_loss_pct = (if \<not> feq (ps_cumulative_pnl st) (lit 0)
            then (ps_leg_out_total_loss st / \<bar>ps_cumulative_pnl st\<bar>) * lit 100 else lit 0);
          days_elapsed = nat_as_f64 (unat (now - pfm_start_time m)) / lit 86400;
          realistic_apr = (if days_elapsed > lit 0
            then ((ps_cumulative_pnl st / ps_starting_capital st) / (days_elapsed / lit 365)) * lit 100
            else lit 0)
      in \<lparr>pm_total_trades = total_trades, pm_win_rate = win_rate,
          pm_cumulative_pnl = ps_cumulative_pnl st, pm_pnl_percentage = pnl_percentage,
          pm_available_capital = ps_available_capital st, pm_utilization_pct = utilization_pct,
          pm_leg_out_count = leg_out_count, pm_leg_out_loss_pct = leg_out_loss_pct,
          pm_realistic_apr = realistic_apr\<rparr>)"

section \<open>Sequences of calls\<close>

datatype portfolio_op = OpenTrade paper_trade bool bool | CloseTrade string f64 string u64 bool bool

fun run_op :: "portfolio_manager \<Rightarrow> portfolio_op \<Rightarrow> portfolio_manager" where
  "run_op m (OpenTrade t l p) = fst (open_trade m t l p)"
| "run_op m (CloseTrade i pr r now l p) = fst (close_trade m i pr r now l p)"

text \<open>The trades accepted by a sequence of calls.\<close>

fun accepted :: "portfolio_manager \<Rightarrow> portfolio_op list \<Rightarrow> paper_trade list" where
  "accepted m [] = []"
| "accepted m (OpenTrade t l p # ops) =
     (if pt_position_size_usd t > ps_available_capital (pfm_state m) then [] else [t]) @
     accepted (run_op m (OpenTrade t l p)) ops"
| "accepted m (CloseTrade i pr r now l p # ops) = accepted (run_op m (CloseTrade i pr r now l p)) ops"

definition trade_ids :: "portfolio_state \<Rightarrow> string multiset" where
  "trade_ids st = mset (map pt_id (ps_active_trades st)) + mset (map pt_id (ps_closed_trades st))"

definition portfolio_wf :: "portfolio_state \<Rightarrow> bool" where
  "portfolio_wf st \<longleftrightarrow>
     ps_win_count st + ps_loss_count st = of_nat (length (ps_closed_trades st)) \<and>
     (\<forall>t \<in> set (ps_closed_trades st).
        pt_status t = Closed \<and> pt_exit_reason t \<noteq> None \<and> pt_exit_time t \<noteq> None)"

text \<open>Concrete inputs.\<close>

definition sample_sim_order :: "order_side \<Rightarrow> simulated_order" where
  "sample_sim_order side = \<lparr>so_id = ''o'', so_exchange = ''bybit'', so_symbol = ''BTCUSDT'', so_side = side,
     so_order_type = Market, so_price = lit 100, so_size = lit 1, so_queue_position = None,
     so_created_at = 1, so_filled_at = None, so_fill_price = None, so_status = Pending\<rparr>"

definition sample_trade :: "f64 \<Rightarrow> paper_trade" where
  "sample_trade sz = \<lparr>pt_id = ''t1'', pt_symbol = ''BTCUSDT'', pt_long_exchange = ''bybit'',
     pt_short_exchange = ''okx'', pt_entry_time = 1, pt_entry_long_price = lit 100,
     pt_entry_short_price = lit 101, pt_entry_spread_bps = lit 100, pt_position_size_usd = sz,
     pt_funding_delta_entry = lit 0.0002, pt_projected_profit_usd = lit 5,
     pt_actual_profit_usd = lit 0, pt_status = Active, pt_exit_reason = None,
     pt_exit_spread_bps = None, pt_exit_time = None, pt_long_order = sample_sim_order Long,
     pt_short_order = sample_sim_order Short, pt_long_exit_order = None, pt_short_exit_order = None,
     pt_stop_loss_triggered = False, pt_stop_loss_long_price = lit 0,
     pt_stop_loss_short_price = lit 0, pt_leg_out_event = None\<rparr>"

section \<open>Lemmas\<close>

lemma position_Some:
  "position p xs = Some i \<Longrightarrow> i < length xs \<and> p (xs ! i) \<and> (\<forall>j<i. \<not> p (xs ! j))"
proof (induction xs arbitrary: i)
  case (Cons x xs)
  then show ?case by (cases i) (auto split: if_splits simp: less_Suc_eq_0_disj)
qed simp

lemma position_None: "position p xs = None \<longleftrightarrow> (\<forall>x \<in> set xs. \<not> p x)"
  by (induction xs) auto

lemma mset_remove_at: "i < length xs \<Longrightarrow> mset xs = add_mset (xs ! i) (mset (remove_at i xs))"
  unfolding remove_at_def by (subst id_take_nth_drop[of i xs]) auto

lemma mset_map_remove_at:
  "i < length xs \<Longrightarrow> mset (map f xs) = add_mset (f (xs ! i)) (mset (map f (remove_at i xs)))"
  using mset_remove_at[of i xs] by simp

lemma open_trade_state:
  "pfm_state (fst (open_trade m t l p)) =
     (if pt_position_size_usd t > ps_available_capital (pfm_state m) then pfm_state m
      else (pfm_state m)\<lparr>
        ps_available_capital := ps_available_capital (pfm_state m) - pt_position_size_usd t,
        ps_total_open_positions := ps_total_open_positions (pfm_state m) + pt_position_size_usd t,
        ps_active_trades := ps_active_trades (pfm_state m) @ [t]\<rparr>)"
  by (simp add: open_trade_def Let_def)

lemma close_trade_unknown:
  "\<forall>t \<in> set (ps_active_trades (pfm_state m)). pt_id t \<noteq> i \<Longrightarrow>
   close_trade m i pr r now l p = (m, Ok ())"
  using position_None[of "\<lambda>t. pt_id t = i" "ps_active_trades (pfm_state m)"]
  by (simp add: close_trade_def)

lemma close_trade_known:
  assumes "position (\<lambda>t. pt_id t = i) (ps_active_trades (pfm_state m)) = Some pos"
    and "st' = pfm_state (fst (close_trade m i pr r now l p))" and "st = pfm_state m"
  shows "ps_active_trades st' = remove_at pos (ps_active_trades st)"
    and "ps_closed_trades st' = ps_closed_trades st @ [(ps_active_trades st ! pos)
      \<lparr>pt_actual_profit_usd := pr, pt_exit_reason := Some r, pt_status := Closed, pt_exit_time := Some now\<rparr>]"
    and "ps_win_count st' = ps_win_count st + (if pr > lit 0 then 1 else 0)"
    and "ps_loss_count st' = ps_loss_count st + (if pr > lit 0 then 0 else 1)"
    and "ps_cumulative_pnl st' = ps_cumulative_pnl st + pr"
    and "ps_available_capital st' = ps_available_capital st +
      (pt_position_size_usd (ps_active_trades st ! pos) + pr)"
  unfolding assms(2,3)
  by (simp_all add: close_trade_def assms(1) Let_def increment_wins_def increment_losses_def
      increment_leg_outs_def if_distrib[of fst] if_distrib[of pfm_state]
      if_distrib[of ps_active_trades] if_distrib[of ps_closed_trades] if_distrib[of ps_win_count]
      if_distrib[of ps_loss_count] if_distrib[of ps_cumulative_pnl]
      if_distrib[of ps_available_capital] cong: if_cong split del: if_split) simp_all

lemma close_trade_cases:
  obtains (unknown) "\<forall>t \<in> set (ps_active_trades (pfm_state m)). pt_id t \<noteq> i"
    "pfm_state (fst (close_trade m i pr r now l p)) = pfm_state m"
  | (known) pos where "position (\<lambda>t. pt_id t = i) (ps_active_trades (pfm_state m)) = Some pos"
    "pos < length (ps_active_trades (pfm_state m))" "pt_id (ps_active_trades (pfm_state m) ! pos) = i"
proof (cases "position (\<lambda>t. pt_id t = i) (ps_active_trades (pfm_state m))")
  case None
  then show ?thesis using close_trade_unknown[of m i pr r now l p] unknown by (simp add: position_None)
next
  case (Some pos)
  then show ?thesis using position_Some[OF Some] known by blast
qed

lemma portfolio_wf_new: "portfolio_wf (PortfolioState_new c)"
  by (simp add: portfolio_wf_def PortfolioState_new_def)

lemma portfolio_wf_run_op: "portfolio_wf (pfm_state m) \<Longrightarrow> portfolio_wf (pfm_state (run_op m op))"
proof (cases op)
  case (CloseTrade i pr r now l p)
  assume "portfolio_wf (pfm_state m)"
  then show ?thesis unfolding CloseTrade run_op.simps
    by (cases rule: close_trade_cases[of m i pr r now l p])
      (auto simp: portfolio_wf_def close_trade_known[OF _ refl refl])
qed (simp add: open_trade_state portfolio_wf_def)

lemma trade_ids_run_op:
  "trade_ids (pfm_state (run_op m op)) = trade_ids (pfm_state m) + mset (map pt_id (accepted m [op]))"
proof (cases op)
  case (CloseTrade i pr r now l p)
  show ?thesis
  proof (cases rule: close_trade_cases[of m i pr r now l p])
    case (known pos)
    then show ?thesis
      using mset_map_remove_at[OF known(2), of pt_id]
      by (simp add: CloseTrade trade_ids_def close_trade_known[OF known(1) refl refl])
  qed (simp add: CloseTrade trade_ids_def)
qed (simp add: open_trade_state trade_ids_def)

lemma accepted_Cons: "accepted m (op # ops) = accepted m [op] @ accepted (run_op m op) ops"
  by (cases op) auto

lemma trade_ids_run:
  "trade_ids (pfm_state (foldl run_op m ops)) = trade_ids (pfm_state m) + mset (map pt_id (accepted m ops))"
proof (induction ops arbitrary: m)
  case (Cons op ops)
  show ?case by (subst accepted_Cons) (simp add: Cons trade_ids_run_op add.assoc)
qed simp

lemma portfolio_wf_run:
  "portfolio_wf (pfm_state m) \<Longrightarrow> portfolio_wf (pfm_state (foldl run_op m ops))"
  by (induction ops arbitrary: m) (auto simp: portfolio_wf_run_op)

text \<open>Two error paths.  A failing Redis write after the booking reports an error although the trade
  is open and its capital deducted; a NaN size passes the capital check and turns the available
  capital into NaN, after which no size is rejected.\<close>

lemma open_trade_redis_failure_keeps_trade:
  assumes "\<not> pt_position_size_usd t > ps_available_capital (pfm_state m)"
  shows "snd (open_trade m t False p) = Err RedisError"
    and "ps_active_trades (pfm_state (fst (open_trade m t False p))) =
      ps_active_trades (pfm_state m) @ [t]"
  using assms by (simp_all add: open_trade_def Let_def)

lemma open_trade_nan:
  assumes "pt_position_size_usd t = NaN"
  shows "snd (open_trade m t True True) = Ok ()"
    and "ps_available_capital (pfm_state (fst (open_trade m t True True))) = NaN"
  using assms by (cases "ps_available_capital (pfm_state m)";
      auto simp: open_trade_def Let_def minus_f64_def)+

section \<open>Properties\<close>

text \<open>C28. Conservation of trades: after any sequence of calls on a new portfolio, the active and
  closed trades together are exactly the accepted ones (none lost, none duplicated, whatever the
  outcome of the Redis writes), wins plus losses count the closed trades, and every closed trade
  has its reason and time.\<close>

theorem portfolio_conserves_trades:
  assumes "PortfolioManager_new capital now del_ok persist_ok = Ok m"
    and "m' = foldl run_op m ops"
  shows "trade_ids (pfm_state m') = mset (map pt_id (accepted m ops)) \<and> portfolio_wf (pfm_state m')"
proof -
  have "pfm_state m = PortfolioState_new capital"
    using assms(1) by (auto simp: PortfolioManager_new_def Let_def split: if_splits)
  moreover have "trade_ids (PortfolioState_new capital) = {#}"
    by (simp add: trade_ids_def PortfolioState_new_def)
  ultimately show ?thesis
    unfolding assms(2) using trade_ids_run[of m ops] portfolio_wf_run[of m ops] portfolio_wf_new by simp
qed

theorem portfolio_conserves_trades_witness:
  "\<exists>m. PortfolioManager_new (lit 1000) 5 True True = Ok m \<and>
     portfolio_wf (pfm_state (foldl run_op m [CloseTrade ''t1'' (lit 3) ''profit_target'' 9 True False]))"
proof -
  let ?m = "\<lparr>pfm_state = PortfolioState_new (lit 1000), pfm_start_time = 5\<rparr>"
  have "PortfolioManager_new (lit 1000) 5 True True = Ok ?m" by (simp add: PortfolioManager_new_def)
  with portfolio_conserves_trades[OF this refl] show ?thesis by blast
qed

text \<open>The capital check: opening fails, changing nothing, exactly when the size exceeds the
  available capital, and a successful opening with a finite size leaves it non-negative.\<close>

lemma open_trade_capital:
  assumes "is_finite (ps_available_capital (pfm_state m))" and "is_finite (pt_position_size_usd t)"
  shows "if ps_available_capital (pfm_state m) < pt_position_size_usd t
    then open_trade m t True True =
      (m, Err (ExceedsCapital (pt_position_size_usd t) (ps_available_capital (pfm_state m))))
    else (\<exists>m'. open_trade m t True True = (m', Ok ()) \<and> 0 \<le> get_available_capital m' \<and>
      ps_active_trades (pfm_state m') = ps_active_trades (pfm_state m) @ [t])"
proof -
  have n: "ps_available_capital (pfm_state m) \<noteq> NaN" "pt_position_size_usd t \<noteq> NaN"
    using assms by auto
  show ?thesis
    using sub_nonneg[OF _ assms] n
    by (auto simp: open_trade_def Let_def get_available_capital_def f_not_less dest: f_less_not_le)
qed

text \<open>The win rate is a percentage: it lies between 0 and 100 as long as the number of trades
  fits 64 bits.\<close>

theorem win_rate_is_percentage:
  assumes "unat (ps_win_count (pfm_state m)) + unat (ps_loss_count (pfm_state m)) < 2 ^ 64"
  shows "0 \<le> pm_win_rate (get_portfolio_metrics m now) \<and>
    pm_win_rate (get_portfolio_metrics m now) \<le> lit 100"
proof -
  let ?w = "ps_win_count (pfm_state m)" and ?t = "ps_win_count (pfm_state m) + ps_loss_count (pfm_state m)"
  let ?r = "nat_as_f64 (unat ?w) / nat_as_f64 (unat ?t)"
  have t: "unat ?t = unat ?w + unat (ps_loss_count (pfm_state m))"
    using assms by (simp add: unat_plus_if')
  have "0 \<le> ?r \<and> ?r \<le> 1" if "0 < ?t"
  proof -
    have p: "0 < nat_as_f64 (unat ?t)" using that by (intro nat_as_f64_pos) (simp add: word_less_nat_alt)
    have f: "is_finite (nat_as_f64 (unat ?w))" using assms by (intro nat_as_f64_finite) simp
    have l: "nat_as_f64 (unat ?w) \<le> nat_as_f64 (unat ?t)" using t by (intro nat_as_f64_mono) simp
    from div_nonneg[OF nat_as_f64_nonneg p f] div_le_1[OF l p f] show ?thesis ..
  qed
  then have "0 < ?t \<Longrightarrow> 0 \<le> ?r * lit 100 \<and> ?r * lit 100 \<le> lit 100" using mul_100_range by blast
  moreover have "0 \<le> lit 100" "(0 :: f64) \<le> 0" by (simp_all add: zero_f64_def)
  ultimately show ?thesis by (simp add: get_portfolio_metrics_def Let_def del: lit_numeral)
qed

end
