(* ===== verification/Fill_Probability.thy ===== *)
theory Fill_Probability
  imports Types
begin

text \<open>
  src/src/strategy/fill_probability.rs: the estimate whether a limit order fills, and the decision
  between a limit and a market order.  The human-readable \<open>reason\<close> strings are left out.  The lemmas
  bound the probability and show that \<open>should_try_limit\<close> picks the best of the three levels.
\<close>

section \<open>Estimator\<close>

record fill_probability_estimator =
  min_probability_threshold :: f64
  max_wait_time_ms :: u64

definition FillProbabilityEstimator_new :: fill_probability_estimator where
  "FillProbabilityEstimator_new = \<lparr>min_probability_threshold = lit 0.70, max_wait_time_ms = 200\<rparr>"

datatype order_action = UseMarket | UseLimitWithFallback u64

record fill_probability =
  fp_probability :: f64
  fp_recommended_action :: order_action
  fp_estimated_wait_ms :: u64

record limit_order_decision =
  lod_use_limit :: bool
  lod_price_level :: nat
  lod_probability :: f64
  lod_wait_time_ms :: u64

definition base_probability :: "f64 \<Rightarrow> f64" where
  "base_probability depth_ratio =
     (if depth_ratio \<ge> lit 10 then lit 0.95
      else if depth_ratio \<ge> lit 5 then lit 0.85
      else if depth_ratio \<ge> lit 3 then lit 0.75
      else if depth_ratio \<ge> lit 2 then lit 0.60
      else if depth_ratio \<ge> lit 1 then lit 0.40
      else lit 0.20)"

definition level_penalty :: "nat \<Rightarrow> f64" where
  "level_penalty price_level =
     (if price_level = 0 then lit 1 else if price_level = 1 then lit 0.95
      else if price_level = 2 then lit 0.85 else if price_level = 3 then lit 0.70 else lit 0.50)"

definition calculate_fill_probability ::
  "fill_probability_estimator \<Rightarrow> order_book_depth \<Rightarrow> order_side \<Rightarrow> nat \<Rightarrow> f64 \<Rightarrow> fill_probability" where
  "calculate_fill_probability e order_book side price_level order_size =
     (let book_side = (case side of Long \<Rightarrow> obd_asks order_book | Short \<Rightarrow> obd_bids order_book) in
      if price_level \<ge> length book_side then
        \<lparr>fp_probability = lit 0, fp_recommended_action = UseMarket, fp_estimated_wait_ms = 0\<rparr>
      else
        let cumulative_depth =
              fsum (map (\<lambda>level. pl_quantity level * pl_price level) (take (price_level + 1) book_side));
            depth_ratio = cumulative_depth / order_size;
            adjusted_probability = base_probability depth_ratio * level_penalty price_level;
            estimated_wait_ms =
              (if adjusted_probability \<ge> lit 0.90 then 50
               else if adjusted_probability \<ge> lit 0.75 then 100
               else if adjusted_probability \<ge> lit 0.60 then 200 else 500);
            recommended_action =
              (if adjusted_probability \<ge> min_probability_threshold e
               then UseLimitWithFallback (min estimated_wait_ms (max_wait_time_ms e)) else UseMarket)
        in \<lparr>fp_probability = adjusted_probability, fp_recommended_action = recommended_action,
            fp_estimated_wait_ms = estimated_wait_ms\<rparr>)"

definition should_try_limit ::
  "fill_probability_estimator \<Rightarrow> order_book_depth \<Rightarrow> order_side \<Rightarrow> f64 \<Rightarrow> limit_order_decision" where
  "should_try_limit e order_book side order_size =
     foldl (\<lambda>best_decision level.
         let fill_prob = calculate_fill_probability e order_book side level order_size in
         if fp_probability fill_prob \<ge> min_probability_threshold e \<and>
            fp_probability fill_prob > lod_probability best_decision
         then \<lparr>lod_use_limit = True, lod_price_level = level,
               lod_probability = fp_probability fill_prob,
               lod_wait_time_ms = fp_estimated_wait_ms fill_prob\<rparr>
         else best_decision)
       \<lparr>lod_use_limit = False, lod_price_level = 0, lod_probability = lit 0, lod_wait_time_ms = 0\<rparr>
       [0..<3]"

definition should_retry_limit ::
  "fill_probability_estimator \<Rightarrow> order_book_depth \<Rightarrow> order_side \<Rightarrow> f64 \<Rightarrow> u32 \<Rightarrow> bool" where
  "should_retry_limit e order_book side remaining_size previous_attempts =
     (let retry_threshold =
            min_probability_threshold e - (lit 0.10 * nat_as_f64 (unat previous_attempts)) in
      if retry_threshold < lit 0.50 then False
      else fp_probability (calculate_fill_probability e order_book side 0 remaining_size)
             \<ge> retry_threshold)"

text \<open>A level whose probability reaches the threshold.\<close>

definition eligible :: "fill_probability_estimator \<Rightarrow> order_book_depth \<Rightarrow> order_side \<Rightarrow> f64 \<Rightarrow> nat \<Rightarrow> bool" where
  "eligible e b s z l \<longleftrightarrow> fp_probability (calculate_fill_probability e b s l z) \<ge> min_probability_threshold e"

section \<open>Lemmas\<close>

lemma base_probability_range: "lit 0.20 \<le> base_probability r" "base_probability r \<le> lit 0.95"
  by (auto simp: base_probability_def intro!: lit_mono)

lemma level_penalty_range: "lit 0.50 \<le> level_penalty l" "level_penalty l \<le> lit 1"
  by (auto simp: level_penalty_def intro!: lit_mono simp del: lit_1)

lemma range_facts:
  "is_finite (base_probability r)" "is_finite (level_penalty l)"
  "0 < base_probability r" "0 < level_penalty l"
proof -
  have c: "is_finite (lit 0.20)" "is_finite (lit 0.95)" "is_finite (lit 0.50)" "is_finite (lit 1)"
    "0 < lit 0.20" "0 < lit 0.50" by code_simp+
  show "is_finite (base_probability r)" by (rule finite_between[OF base_probability_range c(1,2)])
  show "is_finite (level_penalty l)" by (rule finite_between[OF level_penalty_range c(3,4)])
  show "0 < base_probability r" by (rule f_less_le_trans[OF c(5) base_probability_range(1)])
  show "0 < level_penalty l" by (rule f_less_le_trans[OF c(6) level_penalty_range(1)])
qed

lemma adjusted_range:
  "lit 0.09 \<le> base_probability r * level_penalty l" "base_probability r * level_penalty l \<le> lit 0.95"
proof -
  have "base_probability r * level_penalty l \<le> lit 0.95 * level_penalty l"
    by (intro mul_mono_left base_probability_range range_facts)
  moreover have "lit 0.95 * level_penalty l \<le> lit 0.95 * lit 1"
    by (rule mul_mono_right[OF level_penalty_range(2)]) code_simp+
  moreover have "lit 0.95 * lit 1 = lit 0.95" by code_simp
  ultimately show "base_probability r * level_penalty l \<le> lit 0.95" by (metis f_le_trans)
  have "lit 0.20 * level_penalty l \<le> base_probability r * level_penalty l"
    by (intro mul_mono_left base_probability_range range_facts)
  moreover have "lit 0.20 * lit 0.50 \<le> lit 0.20 * level_penalty l"
    by (rule mul_mono_right[OF level_penalty_range(1)]) code_simp+
  moreover have "lit 0.09 \<le> lit 0.20 * lit 0.50" by code_simp
  ultimately show "lit 0.09 \<le> base_probability r * level_penalty l" by (metis f_le_trans)
qed

lemma probability_range:
  "lit 0 \<le> fp_probability (calculate_fill_probability e b s l z)"
  "fp_probability (calculate_fill_probability e b s l z) \<le> lit 0.95"
proof -
  have "lit 0 \<le> base_probability r * level_penalty l" for r
    by (rule f_le_trans[OF lit_mono adjusted_range(1)]) simp
  moreover have "lit 0 \<le> lit 0" "lit 0 \<le> lit 0.95" by (rule lit_mono, simp)+
  ultimately show "lit 0 \<le> fp_probability (calculate_fill_probability e b s l z)"
    "fp_probability (calculate_fill_probability e b s l z) \<le> lit 0.95"
    using adjusted_range(2)[of _ l] by (simp_all add: calculate_fill_probability_def Let_def del: lit_0)
qed

text \<open>The loop over the levels is a running maximum over the eligible ones.\<close>

lemma prob_not_nan: "fp_probability (calculate_fill_probability e b s l z) \<noteq> NaN"
  using probability_range(1)[of e b s l z] f_le_not_nan by blast

lemma should_try_limit_fold:
  fixes e b s z
  defines "pr \<equiv> \<lambda>l. fp_probability (calculate_fill_probability e b s l z)"
  defines "step \<equiv> \<lambda>best_decision level.
         let fill_prob = calculate_fill_probability e b s level z in
         if fp_probability fill_prob \<ge> min_probability_threshold e \<and>
            fp_probability fill_prob > lod_probability best_decision
         then \<lparr>lod_use_limit = True, lod_price_level = level,
               lod_probability = fp_probability fill_prob,
               lod_wait_time_ms = fp_estimated_wait_ms fill_prob\<rparr>
         else best_decision"
  defines "d n \<equiv> foldl step \<lparr>lod_use_limit = False, lod_price_level = 0, lod_probability = lit 0,
      lod_wait_time_ms = 0\<rparr> [0..<n]"
  assumes "lit 0 < min_probability_threshold e"
  shows "(if lod_use_limit (d n)
      then lod_price_level (d n) < n \<and> eligible e b s z (lod_price_level (d n)) \<and>
        lod_probability (d n) = pr (lod_price_level (d n)) \<and>
        (\<forall>l<n. eligible e b s z l \<longrightarrow> pr l \<le> lod_probability (d n))
      else lod_probability (d n) = lit 0 \<and> (\<forall>l<n. \<not> eligible e b s z l))"
proof (induction n)
  case 0
  show ?case by (simp add: d_def)
next
  case (Suc n)
  have dn: "d (Suc n) = step (d n) n" by (simp add: d_def)
  have np: "pr l \<noteq> NaN" for l by (simp add: pr_def prob_not_nan)
  have pos: "lit 0 < pr l" if "eligible e b s z l" for l
    using that assms(4) f_less_le_trans by (auto simp: eligible_def pr_def)
  show ?case
  proof (cases "eligible e b s z n \<and> pr n > lod_probability (d n)")
    case True
    then have s: "d (Suc n) = \<lparr>lod_use_limit = True, lod_price_level = n, lod_probability = pr n,
        lod_wait_time_ms = fp_estimated_wait_ms (calculate_fill_probability e b s n z)\<rparr>"
      by (simp add: dn step_def Let_def pr_def eligible_def)
    have "pr l \<le> pr n" if "l < Suc n" "eligible e b s z l" for l
    proof (cases "l = n")
      case True then show ?thesis by (simp add: f_le_refl np)
    next
      case False
      then have "l < n" using that by simp
      then have "pr l \<le> lod_probability (d n)" using Suc that(2) by (auto split: if_splits)
      then show ?thesis using True f_le_trans f_less_imp_le by blast
    qed
    then show ?thesis using True s by simp
  next
    case False
    then have s: "d (Suc n) = d n" by (auto simp: dn step_def Let_def pr_def eligible_def)
    show ?thesis
    proof (cases "lod_use_limit (d n)")
      case True
      then have "pr n \<le> lod_probability (d n)" if "eligible e b s z n"
        using that False Suc np f_not_less by (metis (no_types, lifting))
      with True Suc s show ?thesis by (auto simp: less_Suc_eq)
    next
      case nl: False
      then have "\<not> eligible e b s z n" using False Suc pos[of n] by auto
      with nl Suc s show ?thesis by (auto simp: less_Suc_eq)
    qed
  qed
qed

section \<open>Properties\<close>

text \<open>The limit-or-market decision is optimal over the three best levels: it is a limit order
  exactly when some level reaches the threshold, and then at a level that reaches it and has the
  highest probability of those; the probability lies between 0 and 0.95.\<close>

lemma should_try_limit_optimal:
  fixes e :: fill_probability_estimator and b :: order_book_depth and s :: order_side and z :: f64
  assumes "lit 0 < min_probability_threshold e"
  defines "d \<equiv> should_try_limit e b s z"
  shows "(lod_use_limit d \<longleftrightarrow> (\<exists>l<3. eligible e b s z l)) \<and>
    lit 0 \<le> lod_probability d \<and> lod_probability d \<le> lit 0.95 \<and>
    (lod_use_limit d \<longrightarrow> lod_price_level d < 3 \<and> eligible e b s z (lod_price_level d) \<and>
       lod_probability d = fp_probability (calculate_fill_probability e b s (lod_price_level d) z) \<and>
       (\<forall>l<3. eligible e b s z l \<longrightarrow>
          fp_probability (calculate_fill_probability e b s l z) \<le> lod_probability d))"
proof -
  note f = should_try_limit_fold[OF assms(1), of b s z 3, folded should_try_limit_def, folded d_def]
  have "lit 0 \<le> lit 0" "lit 0 \<le> lit 0.95" by (rule lit_mono, simp)+
  then show ?thesis using f probability_range[of e b s _ z] by (cases "lod_use_limit d") auto
qed

end
