(* ===== verification/Rate_Limiter.thy ===== *)
theory Rate_Limiter
  imports Types
begin

text \<open>
  src/src/strategy/rate_limiter.rs: the token bucket.  An \<open>Instant\<close> is a number of nanoseconds.  One
  turn of the loop of \<open>acquire\<close>, from taking the lock to releasing it, is \<open>acquire_once\<close>: it returns
  \<open>Granted\<close> when a token was granted and the time to sleep otherwise; the time of the turn is its
  argument, so a caller that waits is a sequence of turns.  The token counter is a \<open>u32\<close> and its
  addition wraps.

  The lemmas bound the tokens by the burst capacity, the requests granted by the capacity plus the
  tokens refilled, and describe the one-second window of request times.
\<close>

section \<open>State\<close>

record rate_limiter =
  tokens :: u32
  last_refill :: instant
  request_timestamps :: "instant list"
  requests_per_second :: u32
  burst_capacity :: u32

definition RateLimiter_new :: "instant \<Rightarrow> u32 \<Rightarrow> u32 \<Rightarrow> rate_limiter" where
  "RateLimiter_new now rps burst =
     \<lparr>tokens = burst, last_refill = now, request_timestamps = [], requests_per_second = rps,
      burst_capacity = burst\<rparr>"

text \<open>How a turn of the loop ends.  \<open>Duration::from_secs_f64\<close> panics on a number of seconds that is
  negative or not finite, which is the case for a limit of zero requests per second.\<close>

datatype turn = Granted | Sleep f64 | Panicked

definition from_secs_f64 :: "f64 \<Rightarrow> turn" where
  "from_secs_f64 s = (if is_finite s \<and> lit 0 \<le> s then Sleep s else Panicked)"

text \<open>\<open>Duration::as_secs_f64\<close>.\<close>

definition as_secs_f64 :: "nat \<Rightarrow> f64" where
  "as_secs_f64 ns = nat_as_f64 (ns div 10 ^ 9) + nat_as_f64 (ns mod 10 ^ 9) / lit 1000000000"

definition tokens_to_add :: "rate_limiter \<Rightarrow> instant \<Rightarrow> u32" where
  "tokens_to_add r now =
     f64_as_u32 (as_secs_f64 (duration_since now (last_refill r)) *
       nat_as_f64 (unat (requests_per_second r)))"

text \<open>The \<open>while let\<close> loop that pops the front while it is older than a second.\<close>

fun prune :: "instant \<Rightarrow> instant list \<Rightarrow> instant list" where
  "prune now [] = []"
| "prune now (t # ts) = (if duration_since now t > 10 ^ 9 then prune now ts else t # ts)"

definition refill :: "rate_limiter \<Rightarrow> instant \<Rightarrow> rate_limiter" where
  "refill r now =
     (if tokens_to_add r now > 0
      then r\<lparr>tokens := min (tokens r + tokens_to_add r now) (burst_capacity r), last_refill := now\<rparr>
      else r)"

definition acquire_once :: "rate_limiter \<Rightarrow> instant \<Rightarrow> rate_limiter \<times> turn" where
  "acquire_once r now =
     (let r = refill r now;
          r = r\<lparr>request_timestamps := prune now (request_timestamps r)\<rparr>
      in if tokens r > 0
         then (r\<lparr>tokens := tokens r - 1, request_timestamps := request_timestamps r @ [now]\<rparr>, Granted)
         else (r, if tokens r = 0
                  then from_secs_f64 (lit 1 / nat_as_f64 (unat (requests_per_second r)))
                  else Sleep (lit 0.01)))"

record rate_limiter_stats =
  rls_available_tokens :: u32
  rls_requests_last_second :: u32
  rls_limit_per_second :: u32

definition RateLimiter_stats :: "rate_limiter \<Rightarrow> instant \<Rightarrow> rate_limiter_stats" where
  "RateLimiter_stats r now =
     \<lparr>rls_available_tokens = tokens r,
      rls_requests_last_second =
        of_nat (length (filter (\<lambda>ts. duration_since now ts \<le> 10 ^ 9) (request_timestamps r))),
      rls_limit_per_second = requests_per_second r\<rparr>"

section \<open>Sequences of turns\<close>

text \<open>The limiter after a sequence of turns, the number granted and the number of tokens refilled.\<close>

fun turns :: "rate_limiter \<Rightarrow> instant list \<Rightarrow> rate_limiter \<times> nat \<times> nat" where
  "turns r [] = (r, 0, 0)"
| "turns r (now # nows) =
     (let (r', w) = acquire_once r now; (r'', granted, refilled) = turns r' nows
      in (r'', granted + (if w = Granted then 1 else 0), refilled + unat (tokens_to_add r now)))"

section \<open>Lemmas\<close>

lemma from_secs_not_granted [simp]: "from_secs_f64 s \<noteq> Granted" "Granted \<noteq> from_secs_f64 s"
  by (simp_all add: from_secs_f64_def)

lemma refill_le_burst: "tokens r \<le> burst_capacity r \<Longrightarrow> tokens (refill r now) \<le> burst_capacity r"
  by (simp add: refill_def)

lemma refill_tokens: "unat (tokens (refill r now)) \<le> unat (tokens r) + unat (tokens_to_add r now)"
proof -
  let ?s = "tokens r + tokens_to_add r now"
  have "unat (min ?s (burst_capacity r)) \<le> unat ?s" by (simp add: min_def word_le_nat_alt)
  also have "\<dots> \<le> unat (tokens r) + unat (tokens_to_add r now)" by (simp add: unat_word_ariths)
  finally show ?thesis by (simp add: refill_def)
qed

lemma refill_frame: "burst_capacity (refill r now) = burst_capacity r"
  "request_timestamps (refill r now) = request_timestamps r"
  by (simp_all add: refill_def)

lemma acquire_once_tokens:
  assumes "acquire_once r now = (r', w)"
  shows "unat (tokens r') + (if w = Granted then 1 else 0) \<le> unat (tokens r) + unat (tokens_to_add r now)"
    and "tokens r \<le> burst_capacity r \<Longrightarrow> tokens r' \<le> burst_capacity r'"
    and "burst_capacity r' = burst_capacity r"
proof -
  have d: "unat (t - 1) + 1 = unat t" "t - 1 \<le> t" if "0 < t" for t :: u32
    using that unat_minus_one[of t] unat_gt_0[of t] by (auto simp: word_le_nat_alt word_gt_0)
  show "unat (tokens r') + (if w = Granted then 1 else 0) \<le> unat (tokens r) + unat (tokens_to_add r now)"
    "burst_capacity r' = burst_capacity r"
    using assms refill_tokens[of r now] d[of "tokens (refill r now)"]
    by (auto simp: acquire_once_def Let_def refill_frame split: if_splits)
  show "tokens r' \<le> burst_capacity r'" if "tokens r \<le> burst_capacity r"
    using assms refill_le_burst[OF that, of now] d[of "tokens (refill r now)"]
    by (auto simp: acquire_once_def Let_def refill_frame split: if_splits)
qed

lemma turns_tokens:
  "tokens r \<le> burst_capacity r \<Longrightarrow> turns r nows = (r', granted, refilled) \<Longrightarrow>
   granted + unat (tokens r') \<le> unat (tokens r) + refilled \<and> tokens r' \<le> burst_capacity r' \<and>
   burst_capacity r' = burst_capacity r"
proof (induction nows arbitrary: r r' granted refilled)
  case (Cons now nows)
  obtain r1 w where a: "acquire_once r now = (r1, w)" by fastforce
  obtain r2 g f where t: "turns r1 nows = (r2, g, f)" by (metis prod_cases3)
  have "granted = g + (if w = Granted then 1 else 0)" "refilled = f + unat (tokens_to_add r now)" "r' = r2"
    using Cons.prems(2) a t by auto
  with Cons.IH[OF _ t] acquire_once_tokens[OF a] Cons.prems(1) show ?case by (auto split: if_splits)
qed simp

lemma prune_window:
  "sorted ts \<Longrightarrow> prune now ts = filter (\<lambda>t. duration_since now t \<le> 10 ^ 9) ts"
proof (induction ts)
  case (Cons t ts)
  show ?case
  proof (cases "duration_since now t > 10 ^ 9")
    case False
    have "duration_since now u \<le> 10 ^ 9" if "u \<in> set ts" for u
    proof -
      have "t \<le> u" using Cons.prems that by simp
      then show ?thesis using False by (simp add: duration_since_def)
    qed
    with False show ?thesis by (auto intro!: filter_True[symmetric])
  qed (use Cons in auto)
qed simp

lemma acquire_once_times:
  assumes "sorted (request_timestamps r)" "acquire_once r now = (r', w)"
  shows "request_timestamps r' = filter (\<lambda>t. duration_since now t \<le> 10 ^ 9) (request_timestamps r) @
    (if w = Granted then [now] else [])"
  using assms by (auto simp: acquire_once_def Let_def refill_frame prune_window split: if_splits)

lemma turns_times:
  "sorted (request_timestamps r @ nows) \<Longrightarrow> nows \<noteq> [] \<Longrightarrow> turns r nows = (r', granted, refilled) \<Longrightarrow>
   sorted (request_timestamps r') \<and> (\<forall>t \<in> set (request_timestamps r'). t \<le> last nows \<and> last nows - t \<le> 10 ^ 9)"
proof (induction nows arbitrary: r r' granted refilled)
  case (Cons now nows)
  obtain r1 w where a: "acquire_once r now = (r1, w)" by fastforce
  obtain g f where t: "turns r1 nows = (r', g, f)"
    using Cons.prems(3) a by (auto split: prod.splits)
  have s: "sorted (request_timestamps r)" using Cons.prems(1) by (simp add: sorted_append)
  note ts = acquire_once_times[OF s a]
  have sf: "sorted (filter P (request_timestamps r))" for P
    using s sorted_filter[of "\<lambda>x. x"] by simp
  show ?case
  proof (cases nows)
    case Nil
    then have "r' = r1" using t by simp
    with Cons.prems(1) ts Nil show ?thesis
      by (auto simp: sorted_append sf duration_since_def)
  next
    case Cons2: (Cons n ns)
    have "sorted (request_timestamps r1 @ nows)"
      using Cons.prems(1) ts by (auto simp: sorted_append sf)
    from Cons.IH[OF this _ t] Cons2 show ?thesis by simp
  qed
qed simp

section \<open>Properties\<close>



end
