(* ===== verification/Backend.thy ===== *)
theory Backend
  imports Types
begin

text \<open>
  The execution backend: the trait of src/src/strategy/execution_backend.rs as a record of
  operations over a state \<open>'w\<close>, and the implementation of
  src/src/strategy/paper_trading_backend.rs.

  \<open>'w\<close> is everything outside the strategy: the exchanges, the clock and the source of UUIDs.  Every
  call returns the state after it, so an implementation may fill orders, fail or let time pass in any
  call.  \<open>'w env\<close> adds to the trait what the strategy uses of the standard library and of the uuid
  crate: \<open>Instant::now\<close>, the nanoseconds of \<open>SystemTime::now\<close>, \<open>tokio::time::sleep\<close> and
  \<open>Uuid::new_v4\<close>.  Errors (\<open>Box<dyn Error>\<close>) are their messages.

  The contracts that clients rely on are the locales \<open>clocked\<close> (time does not run backwards, a sleep
  takes at least its length) and \<open>immediate_fill\<close> (an accepted order is reported as filled); both are
  interpreted on the paper backend.
\<close>

section \<open>The trait\<close>

record 'w backend =
  set_leverage :: "'w \<Rightarrow> string \<Rightarrow> string \<Rightarrow> u8 \<Rightarrow> 'w \<times> (unit, string) result"
  set_margin_type_isolated :: "'w \<Rightarrow> string \<Rightarrow> string \<Rightarrow> 'w \<times> (unit, string) result"
  place_order :: "'w \<Rightarrow> simulated_order \<Rightarrow> 'w \<times> (simulated_order, string) result"
  place_market_order :: "'w \<Rightarrow> simulated_order \<Rightarrow> 'w \<times> (simulated_order, string) result"
  cancel_order :: "'w \<Rightarrow> string \<Rightarrow> string \<Rightarrow> 'w \<times> (unit, string) result"
  get_order_status :: "'w \<Rightarrow> string \<Rightarrow> string \<Rightarrow> 'w \<times> (order_status, string) result"
  get_order_status_detailed ::
    "'w \<Rightarrow> string \<Rightarrow> string \<Rightarrow> string \<Rightarrow> 'w \<times> (order_status_info, string) result"
  get_available_balance :: "'w \<Rightarrow> string \<Rightarrow> 'w \<times> (f64, string) result"
  get_all_balances :: "'w \<Rightarrow> 'w \<times> (string \<rightharpoonup> f64, string) result"
  is_symbol_tradeable :: "'w \<Rightarrow> string \<Rightarrow> string \<Rightarrow> 'w \<times> (bool, string) result"
  get_order_book_depth :: "'w \<Rightarrow> string \<Rightarrow> string \<Rightarrow> usize \<Rightarrow> 'w \<times> (order_book_depth, string) result"
  get_best_bid :: "'w \<Rightarrow> string \<Rightarrow> string \<Rightarrow> 'w \<times> (f64, string) result"
  get_best_ask :: "'w \<Rightarrow> string \<Rightarrow> string \<Rightarrow> 'w \<times> (f64, string) result"
  backend_name :: string
  get_quantity_step :: "'w \<Rightarrow> string \<Rightarrow> string \<Rightarrow> 'w \<times> (f64, string) result"

record 'w env = "'w backend" +
  instant_now :: "'w \<Rightarrow> instant"
  unix_nanos :: "'w \<Rightarrow> nat"
  sleep_ms :: "'w \<Rightarrow> nat \<Rightarrow> 'w"
  new_uuid :: "'w \<Rightarrow> 'w \<times> string"

text \<open>\<open>SystemTime::now().duration_since(UNIX_EPOCH).unwrap().as_secs()\<close>.\<close>

definition unix_secs :: "'w env \<Rightarrow> 'w \<Rightarrow> u64" where
  "unix_secs E w = of_nat (unix_nanos E w div 1000000000)"

section \<open>PaperTradingBackend\<close>

record paper_trading_backend =
  ptb_balances :: "string \<rightharpoonup> f64"
  ptb_orders :: "string \<rightharpoonup> simulated_order"

definition PaperTradingBackend_new :: "(string \<rightharpoonup> f64) \<Rightarrow> paper_trading_backend" where
  "PaperTradingBackend_new initial_balances =
     \<lparr>ptb_balances = initial_balances, ptb_orders = Map.empty\<rparr>"

text \<open>The backend with the clock (nanoseconds since the epoch) and the number of UUIDs drawn so far;
  \<open>uuid n\<close> is the n-th UUID.\<close>

record paper_world =
  pw_backend :: paper_trading_backend
  pw_time :: nat
  pw_uuids :: nat

definition paper_secs :: "paper_world \<Rightarrow> u64" where
  "paper_secs w = of_nat (pw_time w div 1000000000)"

definition paper_new_uuid :: "(nat \<Rightarrow> string) \<Rightarrow> paper_world \<Rightarrow> paper_world \<times> string" where
  "paper_new_uuid uuid w = (w\<lparr>pw_uuids := pw_uuids w + 1\<rparr>, uuid (pw_uuids w))"

definition paper_set_orders ::
  "paper_world \<Rightarrow> ((string \<rightharpoonup> simulated_order) \<Rightarrow> (string \<rightharpoonup> simulated_order)) \<Rightarrow> paper_world" where
  "paper_set_orders w f =
     w\<lparr>pw_backend := (pw_backend w)\<lparr>ptb_orders := f (ptb_orders (pw_backend w))\<rparr>\<rparr>"

definition PaperTradingBackend_set_leverage ::
  "paper_world \<Rightarrow> string \<Rightarrow> string \<Rightarrow> u8 \<Rightarrow> paper_world \<times> (unit, string) result" where
  "PaperTradingBackend_set_leverage w exchange symbol leverage = (w, Ok ())"

definition PaperTradingBackend_set_margin_type_isolated ::
  "paper_world \<Rightarrow> string \<Rightarrow> string \<Rightarrow> paper_world \<times> (unit, string) result" where
  "PaperTradingBackend_set_margin_type_isolated w exchange symbol = (w, Ok ())"

definition PaperTradingBackend_place_order ::
  "(nat \<Rightarrow> string) \<Rightarrow> paper_world \<Rightarrow> simulated_order \<Rightarrow> paper_world \<times> (simulated_order, string) result" where
  "PaperTradingBackend_place_order uuid w order =
     (let (w, order) =
            (if so_id order = []
             then let (w, u) = paper_new_uuid uuid w in (w, order\<lparr>so_id := u\<rparr>)
             else (w, order));
          order = order\<lparr>so_status := Filled\<rparr>;
          order = order\<lparr>so_filled_at := Some (paper_secs w)\<rparr>;
          order = order\<lparr>so_fill_price := Some (so_price order)\<rparr>;
          w = paper_set_orders w (\<lambda>orders. orders(so_id order \<mapsto> order))
      in (w, Ok order))"

definition PaperTradingBackend_place_market_order ::
  "(nat \<Rightarrow> string) \<Rightarrow> paper_world \<Rightarrow> simulated_order \<Rightarrow> paper_world \<times> (simulated_order, string) result" where
  "PaperTradingBackend_place_market_order uuid w order =
     (let (w, order) =
            (if so_id order = []
             then let (w, u) = paper_new_uuid uuid w in (w, order\<lparr>so_id := u\<rparr>)
             else (w, order));
          order = order\<lparr>so_status := Filled\<rparr>;
          order = order\<lparr>so_filled_at := Some (paper_secs w)\<rparr>;
          order = order\<lparr>so_fill_price := Some (so_price order)\<rparr>;
          w = paper_set_orders w (\<lambda>orders. orders(so_id order \<mapsto> order))
      in (w, Ok order))"

definition PaperTradingBackend_cancel_order ::
  "paper_world \<Rightarrow> string \<Rightarrow> string \<Rightarrow> paper_world \<times> (unit, string) result" where
  "PaperTradingBackend_cancel_order w exchange order_id =
     (paper_set_orders w (\<lambda>orders. orders(order_id := None)), Ok ())"

definition PaperTradingBackend_get_order_status ::
  "paper_world \<Rightarrow> string \<Rightarrow> string \<Rightarrow> paper_world \<times> (order_status, string) result" where
  "PaperTradingBackend_get_order_status w exchange order_id =
     (w, case ptb_orders (pw_backend w) order_id of
           Some order \<Rightarrow> Ok (so_status order)
         | None \<Rightarrow> Ok Cancelled)"

definition PaperTradingBackend_get_order_status_detailed ::
  "paper_world \<Rightarrow> string \<Rightarrow> string \<Rightarrow> string \<Rightarrow> paper_world \<times> (order_status_info, string) result" where
  "PaperTradingBackend_get_order_status_detailed w exchange order_id symbol =
     (w, case ptb_orders (pw_backend w) order_id of
           Some order \<Rightarrow> Ok (OrderStatusInfo_new (so_status order) (so_size order) (so_size order))
         | None \<Rightarrow> Ok (OrderStatusInfo_new Cancelled (lit 0) (lit 0)))"

definition PaperTradingBackend_get_available_balance ::
  "paper_world \<Rightarrow> string \<Rightarrow> paper_world \<times> (f64, string) result" where
  "PaperTradingBackend_get_available_balance w exchange =
     (w, case ptb_balances (pw_backend w) exchange of
           Some balance \<Rightarrow> Ok balance
         | None \<Rightarrow> Err ''Exchange not found'')"

definition PaperTradingBackend_get_all_balances ::
  "paper_world \<Rightarrow> paper_world \<times> (string \<rightharpoonup> f64, string) result" where
  "PaperTradingBackend_get_all_balances w = (w, Ok (ptb_balances (pw_backend w)))"

definition PaperTradingBackend_is_symbol_tradeable ::
  "paper_world \<Rightarrow> string \<Rightarrow> string \<Rightarrow> paper_world \<times> (bool, string) result" where
  "PaperTradingBackend_is_symbol_tradeable w exchange symbol = (w, Ok True)"

definition PaperTradingBackend_get_order_book_depth ::
  "paper_world \<Rightarrow> string \<Rightarrow> string \<Rightarrow> usize \<Rightarrow> paper_world \<times> (order_book_depth, string) result" where
  "PaperTradingBackend_get_order_book_depth w exchange symbol levels =
     (w, Err ''get_order_book_depth not yet implemented for paper trading'')"

definition PaperTradingBackend_get_best_bid ::
  "paper_world \<Rightarrow> string \<Rightarrow> string \<Rightarrow> paper_world \<times> (f64, string) result" where
  "PaperTradingBackend_get_best_bid w exchange symbol =
     (w, Err ''get_best_bid not yet implemented for paper trading'')"

definition PaperTradingBackend_get_best_ask ::
  "paper_world \<Rightarrow> string \<Rightarrow> string \<Rightarrow> paper_world \<times> (f64, string) result" where
  "PaperTradingBackend_get_best_ask w exchange symbol =
     (w, Err ''get_best_ask not yet implemented for paper trading'')"

definition PaperTradingBackend_get_quantity_step ::
  "paper_world \<Rightarrow> string \<Rightarrow> string \<Rightarrow> paper_world \<times> (f64, string) result" where
  "PaperTradingBackend_get_quantity_step w exchange symbol = (w, Ok (lit 0.1))"

definition PaperTradingBackend_backend_name :: string where
  "PaperTradingBackend_backend_name = ''PaperTrading''"

text \<open>The impl block.  The calls touch memory only; time passes in the sleeps.\<close>

definition paper_env :: "(nat \<Rightarrow> string) \<Rightarrow> paper_world env" where
  "paper_env uuid =
     \<lparr>set_leverage = PaperTradingBackend_set_leverage,
      set_margin_type_isolated = PaperTradingBackend_set_margin_type_isolated,
      place_order = PaperTradingBackend_place_order uuid,
      place_market_order = PaperTradingBackend_place_market_order uuid,
      cancel_order = PaperTradingBackend_cancel_order,
      get_order_status = PaperTradingBackend_get_order_status,
      get_order_status_detailed = PaperTradingBackend_get_order_status_detailed,
      get_available_balance = PaperTradingBackend_get_available_balance,
      get_all_balances = PaperTradingBackend_get_all_balances,
      is_symbol_tradeable = PaperTradingBackend_is_symbol_tradeable,
      get_order_book_depth = PaperTradingBackend_get_order_book_depth,
      get_best_bid = PaperTradingBackend_get_best_bid,
      get_best_ask = PaperTradingBackend_get_best_ask,
      backend_name = PaperTradingBackend_backend_name,
      get_quantity_step = PaperTradingBackend_get_quantity_step,
      instant_now = pw_time,
      unix_nanos = pw_time,
      sleep_ms = (\<lambda>w ms. w\<lparr>pw_time := pw_time w + from_millis ms\<rparr>),
      new_uuid = paper_new_uuid uuid\<rparr>"

definition paper_start :: "(string \<rightharpoonup> f64) \<Rightarrow> paper_world" where
  "paper_start balances = \<lparr>pw_backend = PaperTradingBackend_new balances, pw_time = 0, pw_uuids = 0\<rparr>"

text \<open>The paper backend has the order \<open>i\<close> filled with size \<open>q\<close>.\<close>

definition paper_filled :: "paper_world \<Rightarrow> string \<Rightarrow> f64 \<Rightarrow> bool" where
  "paper_filled w i q \<longleftrightarrow>
     (\<exists>order. ptb_orders (pw_backend w) i = Some order \<and> so_status order = Filled \<and> so_size order = q)"

text \<open>A concrete order for the examples.\<close>

definition paper_sample_order :: simulated_order where
  "paper_sample_order =
     \<lparr>so_id = [], so_exchange = ''bybit'', so_symbol = ''BTCUSDT'', so_side = Long,
      so_order_type = Limit, so_price = lit 100, so_size = lit 2, so_queue_position = None,
      so_created_at = 1, so_filled_at = None, so_fill_price = None, so_status = Pending\<rparr>"

section \<open>Contracts\<close>

text \<open>What an order keeps on its way through the backend.\<close>

definition same_instruction :: "simulated_order \<Rightarrow> simulated_order \<Rightarrow> bool" where
  "same_instruction a b \<longleftrightarrow> so_exchange a = so_exchange b \<and> so_symbol a = so_symbol b \<and>
     so_side a = so_side b \<and> so_order_type a = so_order_type b \<and> so_price a = so_price b \<and>
     so_size a = so_size b \<and> so_created_at a = so_created_at b \<and>
     (so_id b \<noteq> [] \<longrightarrow> so_id a = so_id b)"

locale clocked =
  fixes E :: "'w env"
  assumes time_place: "instant_now E w \<le> instant_now E (fst (place_order E w order))"
    and time_market: "instant_now E w \<le> instant_now E (fst (place_market_order E w order))"
    and time_cancel: "instant_now E w \<le> instant_now E (fst (cancel_order E w ex i))"
    and time_status: "instant_now E w \<le> instant_now E (fst (get_order_status E w ex i))"
    and time_detailed: "instant_now E w \<le> instant_now E (fst (get_order_status_detailed E w ex i symbol))"
    and time_bid: "instant_now E w \<le> instant_now E (fst (get_best_bid E w ex symbol))"
    and time_ask: "instant_now E w \<le> instant_now E (fst (get_best_ask E w ex symbol))"
    and time_depth: "instant_now E w \<le> instant_now E (fst (get_order_book_depth E w ex symbol n))"
    and time_uuid: "instant_now E w \<le> instant_now E (fst (new_uuid E w))"
    and time_sleep: "instant_now E w + from_millis ms \<le> instant_now E (sleep_ms E w ms)"

locale immediate_fill =
  fixes E :: "'w env" and filled :: "'w \<Rightarrow> string \<Rightarrow> f64 \<Rightarrow> bool"
  assumes place_fills: "place_order E w order = (w', r) \<Longrightarrow>
      \<exists>o'. r = Ok o' \<and> so_status o' = Filled \<and> same_instruction o' order \<and> filled w' (so_id o') (so_size order)"
    and market_fills: "place_market_order E w order = (w', r) \<Longrightarrow>
      \<exists>o'. r = Ok o' \<and> so_status o' = Filled \<and> same_instruction o' order \<and> filled w' (so_id o') (so_size order)"
    and status_filled: "filled w i q \<Longrightarrow> get_order_status E w ex i = (w', rs) \<Longrightarrow>
      rs = Ok Filled \<and> filled w' i q"
    and detailed_filled: "filled w i q \<Longrightarrow> get_order_status_detailed E w ex i symbol = (w', rd) \<Longrightarrow>
      rd = Ok (OrderStatusInfo_new Filled q q) \<and> filled w' i q"

section \<open>Lemmas\<close>

lemmas paper_defs = paper_set_orders_def paper_new_uuid_def PaperTradingBackend_place_order_def
  PaperTradingBackend_place_market_order_def PaperTradingBackend_cancel_order_def
  PaperTradingBackend_get_order_status_def PaperTradingBackend_get_order_status_detailed_def
  PaperTradingBackend_get_best_bid_def PaperTradingBackend_get_best_ask_def
  PaperTradingBackend_get_order_book_depth_def

lemma clocked_paper: "clocked (paper_env uuid)"
  by unfold_locales (simp_all add: paper_env_def paper_defs Let_def)

lemma immediate_fill_paper: "immediate_fill (paper_env uuid) paper_filled"
  by unfold_locales
    (auto simp: paper_env_def paper_defs paper_filled_def same_instruction_def Let_def split: if_splits)

interpretation paper_clock: clocked "paper_env uuid" for uuid
  by (rule clocked_paper)

interpretation paper_fill: immediate_fill "paper_env uuid" paper_filled for uuid
  by (rule immediate_fill_paper)

section \<open>Properties\<close>

text \<open>Paper orders: a placed order, limit or market, is accepted and reported as filled in full at
  its own price; the status of every other order is what it was; and a cancelled order is reported as
  cancelled with nothing filled.\<close>

theorem paper_order_status:
  assumes "PaperTradingBackend_place_order uuid w order = (w', r)"
    and "detailed = (\<lambda>w i. snd (PaperTradingBackend_get_order_status_detailed w ex i symbol))"
  shows "PaperTradingBackend_place_market_order uuid w order = (w', r) \<and>
    (\<exists>placed. r = Ok placed \<and> same_instruction placed order \<and>
       so_fill_price placed = Some (so_price order) \<and>
       detailed w' i = (if i = so_id placed
         then Ok (OrderStatusInfo_new Filled (so_size order) (so_size order)) else detailed w i)) \<and>
    detailed (fst (PaperTradingBackend_cancel_order w' ex i)) i =
      Ok (OrderStatusInfo_new Cancelled (lit 0) (lit 0))"
  using assms by (auto simp: paper_defs same_instruction_def Let_def split: if_splits)

end
