(* ===== verification/Depth_Checker.thy ===== *)
theory Depth_Checker
  imports Backend
begin

text \<open>
  src/src/strategy/depth_checker.rs: the pre-flight check that the order book can absorb a hedge,
  with its cache of order books.  A cache entry is the book with the time it was stored; two readings
  of the clock with no call between them are equal.

  The lemmas give the verdict as a function of the depth ratio, show that a larger hedge never gets a
  better verdict, and describe when the cache answers.
\<close>

section \<open>Result\<close>

record depth_check_result =
  dcr_exchange :: string
  dcr_symbol :: string
  dcr_available_liquidity :: f64
  dcr_required_liquidity :: f64
  dcr_depth_ratio :: f64
  dcr_is_sufficient :: bool
  dcr_is_critical :: bool
  dcr_check_duration_ms :: "128 word"
  dcr_timestamp :: u64

definition should_abort :: "depth_check_result \<Rightarrow> bool" where
  "should_abort r = dcr_is_critical r"

definition should_warn :: "depth_check_result \<Rightarrow> bool" where
  "should_warn r = (\<not> dcr_is_sufficient r \<and> \<not> dcr_is_critical r)"

section \<open>Checker\<close>

record depth_checker =
  dck_cache :: "string \<rightharpoonup> order_book_depth \<times> instant"
  dck_cache_ttl :: nat

definition DepthChecker_new :: depth_checker where
  "DepthChecker_new = \<lparr>dck_cache = Map.empty, dck_cache_ttl = from_millis 100\<rparr>"

definition calculate_depth_result ::
  "string \<Rightarrow> string \<Rightarrow> order_book_depth \<Rightarrow> f64 \<Rightarrow> nat \<Rightarrow> depth_check_result" where
  "calculate_depth_result exchange symbol depth hedge_quantity duration_ms =
     (let available_liquidity = fsum (map pl_quantity (take 5 (obd_bids depth)));
          required_liquidity = hedge_quantity * lit 1.5;
          depth_ratio =
            (if required_liquidity > lit 0 then available_liquidity / required_liquidity else lit 0)
      in \<lparr>dcr_exchange = exchange, dcr_symbol = symbol,
          dcr_available_liquidity = available_liquidity,
          dcr_required_liquidity = required_liquidity, dcr_depth_ratio = depth_ratio,
          dcr_is_sufficient = (depth_ratio \<ge> lit 1), dcr_is_critical = (depth_ratio < lit 0.73),
          dcr_check_duration_ms = of_nat duration_ms, dcr_timestamp = obd_timestamp depth\<rparr>)"

definition cache_key :: "string \<Rightarrow> string \<Rightarrow> string" where
  "cache_key exchange symbol = exchange @ '':'' @ symbol"

definition cache_lookup :: "depth_checker \<Rightarrow> string \<Rightarrow> instant \<Rightarrow> order_book_depth option" where
  "cache_lookup c key t =
     (case dck_cache c key of
        Some (depth, stored) \<Rightarrow> if duration_since t stored < dck_cache_ttl c then Some depth else None
      | None \<Rightarrow> None)"

definition check_depth_for_hedge ::
  "'w env \<Rightarrow> depth_checker \<Rightarrow> 'w \<Rightarrow> string \<Rightarrow> string \<Rightarrow> f64 \<Rightarrow>
   depth_checker \<times> 'w \<times> (depth_check_result, string) result" where
  "check_depth_for_hedge E c w exchange symbol hedge_quantity =
     (let start = instant_now E w; key = cache_key exchange symbol in
      case cache_lookup c key (instant_now E w) of
        Some depth \<Rightarrow>
          (c, w, Ok (calculate_depth_result exchange symbol depth hedge_quantity
             (as_millis (duration_since (instant_now E w) start))))
      | None \<Rightarrow>
          (case get_order_book_depth E w exchange symbol 10 of
             (w, Err e) \<Rightarrow> (c, w, Err (''Failed to get order book depth: '' @ e))
           | (w, Ok depth) \<Rightarrow>
               (c\<lparr>dck_cache := (dck_cache c)(key \<mapsto> (depth, instant_now E w))\<rparr>, w,
                Ok (calculate_depth_result exchange symbol depth hedge_quantity
                  (as_millis (duration_since (instant_now E w) start))))))"

text \<open>A concrete market for the examples.\<close>

definition sample_book :: order_book_depth where
  "sample_book = \<lparr>obd_bids = [\<lparr>pl_price = lit 100, pl_quantity = lit 3\<rparr>], obd_asks = [], obd_timestamp = 7\<rparr>"

definition book_env :: "paper_world env" where
  "book_env = (paper_env (\<lambda>n. nat_str n))
     \<lparr>get_order_book_depth := (\<lambda>w ex symbol levels. (w, Ok sample_book))\<rparr>"

section \<open>Lemmas\<close>

text \<open>The three verdicts exclude each other, and one of them holds for every ratio, NaN included
  (NaN warns).\<close>

lemma verdict_fields:
  assumes "r = calculate_depth_result ex symbol depth q d"
  shows "dcr_is_sufficient r = (lit 1 \<le> dcr_depth_ratio r)"
    and "should_abort r = (dcr_depth_ratio r < lit 0.73)"
    and "should_warn r = (\<not> lit 1 \<le> dcr_depth_ratio r \<and> \<not> dcr_depth_ratio r < lit 0.73)"
  unfolding assms by (simp_all only: calculate_depth_result_def Let_def should_abort_def
      should_warn_def depth_check_result.simps)

lemma ratio_1_not_critical: "lit 1 \<le> x \<Longrightarrow> \<not> x < lit 0.73"
  using f_less_not_le f_le_trans[OF lit_mono[of "0.73" 1]] by auto

lemma mk_nonneg: "0 \<le> r \<Longrightarrow> Fin 0 \<le> mk s r" "NZero \<le> mk True 0"
  using rnd_nonneg[of r] by (auto simp: mk_simps)

lemma div_antimono_right:
  assumes "0 \<le> a" "is_finite a" "0 < b" "b \<le> (c :: f64)"
  shows "a / c \<le> a / b"
  using assms
  by (cases a; cases b; cases c)
     (auto simp: divide_f64_def zero_f64_def Let_def mk_nonneg
       intro!: mk_mono divide_left_mono mult_pos_pos)

text \<open>The ratio falls when the hedge grows.\<close>

lemma ratio_antimono:
  assumes "0 \<le> a" "is_finite a" "lit 0 < q * lit 1.5" "q \<le> q'"
  shows "(if lit 0 < q' * lit 1.5 then a / (q' * lit 1.5) else lit 0) \<le>
    (if lit 0 < q * lit 1.5 then a / (q * lit 1.5) else lit 0)"
proof -
  have "is_finite (lit 1.5)" "0 < lit 1.5" by code_simp+
  from mul_mono_left[OF assms(4) this] have m: "q * lit 1.5 \<le> q' * lit 1.5" .
  from f_less_le_trans[OF assms(3) m] div_antimono_right[OF assms(1,2) _ m] assms(3)
  show ?thesis by simp
qed

lemma cache_after_query:
  assumes "check_depth_for_hedge E c w ex sy q = (c1, w1, Ok r1)"
    and "cache_lookup c (cache_key ex sy) (instant_now E w) = None"
  obtains depth d where "get_order_book_depth E w ex sy 10 = (w1, Ok depth)"
    "dck_cache c1 (cache_key ex sy) = Some (depth, instant_now E w1)"
    "dck_cache_ttl c1 = dck_cache_ttl c" "r1 = calculate_depth_result ex sy depth q d"
  using assms by (auto simp: check_depth_for_hedge_def Let_def split: prod.splits result.splits)

section \<open>Properties\<close>

text \<open>The verdict: every check ends in exactly one of abort (ratio below 0.73), warn, and
  sufficient (ratio at least 1), and for the same book a larger hedge never gets a better verdict: an
  abort stays an abort and a sufficient depth for the larger hedge suffices for the smaller.\<close>

lemma depth_verdict:
  assumes "r = calculate_depth_result ex symbol depth q d"
    and "r' = calculate_depth_result ex symbol depth q' d'"
    and "0 \<le> dcr_available_liquidity r" and "is_finite (dcr_available_liquidity r)"
    and "lit 0 < dcr_required_liquidity r" and "q \<le> q'"
  shows "(should_abort r \<and> \<not> should_warn r \<and> \<not> dcr_is_sufficient r \<or>
      \<not> should_abort r \<and> should_warn r \<and> \<not> dcr_is_sufficient r \<or>
      \<not> should_abort r \<and> \<not> should_warn r \<and> dcr_is_sufficient r) \<and>
    (should_abort r \<longrightarrow> should_abort r') \<and> (dcr_is_sufficient r' \<longrightarrow> dcr_is_sufficient r)"
proof -
  have "dcr_depth_ratio r' \<le> dcr_depth_ratio r"
    using assms(3-6) unfolding assms(1,2) calculate_depth_result_def Let_def depth_check_result.simps
    by (intro ratio_antimono) assumption+
  note verdict_fields[OF assms(1)] verdict_fields[OF assms(2)] f_le_trans[OF _ this]
    f_le_less_trans[OF this] ratio_1_not_critical[of "dcr_depth_ratio r"]
  then show ?thesis by metis
qed

text \<open>The depth cache: for 100 ms after a query the next check of the same symbol answers from the
  stored book without a call to the backend and without changing the cache; after that the book is
  queried again.\<close>

lemma depth_cache:
  assumes "check_depth_for_hedge E c w ex symbol q = (c1, w1, Ok r1)"
    and "cache_lookup c (cache_key ex symbol) (instant_now E w) = None"
  shows "if instant_now E w2 - instant_now E w1 < dck_cache_ttl c
    then (\<exists>r2. check_depth_for_hedge E c1 w2 ex symbol q2 = (c1, w2, Ok r2) \<and>
      dcr_available_liquidity r2 = dcr_available_liquidity r1 \<and> dcr_timestamp r2 = dcr_timestamp r1)
    else cache_lookup c1 (cache_key ex symbol) (instant_now E w2) = None"
proof -
  obtain depth d where "dck_cache c1 (cache_key ex symbol) = Some (depth, instant_now E w1)"
    "dck_cache_ttl c1 = dck_cache_ttl c" "r1 = calculate_depth_result ex symbol depth q d"
    using cache_after_query[OF assms] by metis
  then show ?thesis
    by (simp add: check_depth_for_hedge_def cache_lookup_def duration_since_def
        calculate_depth_result_def Let_def)
qed

end
