(* ===== verification/Price_Chaser.thy ===== *)
theory Price_Chaser
  imports Backend
begin

text \<open>
  src/src/strategy/price_chaser.rs: repricing of a resting limit order.  The data types of the file
  (\<open>RepricingConfig\<close>, \<open>RepricingEvent\<close>, \<open>RepricingMetrics\<close>) are in the theory of the shared types.
  The loop of \<open>chase_until_filled\<close> is \<open>chase_loop\<close>, a partial function whose value \<open>None\<close> is a run
  that does not end; one turn of it is \<open>chase_turn\<close>.

  The lemmas show that the loop ends on every backend whose clock moves, how many repricings it can
  make, and what each outcome means.
\<close>

section \<open>PriceChaser\<close>

definition should_reprice :: "repricing_config \<Rightarrow> f64 \<Rightarrow> f64 \<Rightarrow> bool" where
  "should_reprice config order_price current_best_price =
     (let price_deviation = (\<bar>current_best_price - order_price\<bar> / order_price) * lit 10000
      in price_deviation > rc_reprice_threshold_bps config)"

definition reprice_order ::
  "'w env \<Rightarrow> 'w \<Rightarrow> simulated_order \<Rightarrow> f64 \<Rightarrow> repricing_metrics \<Rightarrow>
   'w \<times> repricing_metrics \<times> (simulated_order, string) result" where
  "reprice_order E w order new_price metrics =
     (let start = instant_now E w in
      case cancel_order E w (so_exchange order) (so_id order) of
        (w, Err e) \<Rightarrow> (w, metrics, Err (''Failed to cancel order: '' @ e))
      | (w, Ok _) \<Rightarrow>
          let new_order = order\<lparr>so_price := new_price, so_id := [], so_created_at := unix_secs E w\<rparr> in
          case place_order E w new_order of
            (w, Err e) \<Rightarrow> (w, metrics, Err (''Failed to place repriced order: '' @ e))
          | (w, Ok placed_order) \<Rightarrow>
              let elapsed_ms = of_nat (as_millis (duration_since (instant_now E w) start));
                  event = \<lparr>re_timestamp = unix_secs E w, re_old_price = so_price order,
                    re_new_price = new_price, re_reason = ''price_moved_away'',
                    re_elapsed_ms = elapsed_ms, re_exchange = so_exchange order,
                    re_side = so_side order\<rparr>;
                  metrics = metrics\<lparr>rm_reprice_count := rm_reprice_count metrics + 1\<rparr>;
                  metrics = metrics\<lparr>rm_reprice_total_time_ms :=
                    rm_reprice_total_time_ms metrics + elapsed_ms\<rparr>;
                  metrics = metrics\<lparr>rm_final_price := new_price\<rparr>;
                  metrics = metrics\<lparr>rm_repricing_events := rm_repricing_events metrics @ [event]\<rparr>
              in (w, metrics, Ok placed_order))"

definition get_best_price_for_order ::
  "'w env \<Rightarrow> 'w \<Rightarrow> simulated_order \<Rightarrow> 'w \<times> (f64, string) result" where
  "get_best_price_for_order E w order =
     (case so_side order of
        Long \<Rightarrow> let (w, r) = get_best_bid E w (so_exchange order) (so_symbol order)
          in (w, map_err (\<lambda>e. ''Failed to get best bid: '' @ e) r)
      | Short \<Rightarrow> let (w, r) = get_best_ask E w (so_exchange order) (so_symbol order)
          in (w, map_err (\<lambda>e. ''Failed to get best ask: '' @ e) r))"

text \<open>One turn of the loop: \<open>Inl order\<close> goes on with that order, \<open>Inr r\<close> returns \<open>r\<close>.\<close>

definition chase_turn ::
  "'w env \<Rightarrow> repricing_config \<Rightarrow> 'w \<Rightarrow> simulated_order \<Rightarrow> repricing_metrics \<Rightarrow>
   'w \<times> repricing_metrics \<times> (simulated_order + (simulated_order, string) result)" where
  "chase_turn E config w order metrics =
     (case get_order_status E w (so_exchange order) (so_id order) of
        (w, Err e) \<Rightarrow> (w, metrics, Inr (Err (''Failed to get order status: '' @ e)))
      | (w, Ok status) \<Rightarrow>
          if status = Filled then (w, RepricingMetrics_finalize metrics, Inr (Ok order))
          else if rm_reprice_count metrics \<ge> rc_max_reprices config
          then (w, metrics\<lparr>rm_max_reprices_reached := True\<rparr>,
            Inr (Err (''Max reprices ('' @ nat_str (unat (rc_max_reprices config)) @ '') reached'')))
          else case get_best_price_for_order E w order of
            (w, Err e) \<Rightarrow> (w, metrics, Inr (Err e))
          | (w, Ok best_price) \<Rightarrow>
              if should_reprice config (so_price order) best_price
              then case reprice_order E w order best_price metrics of
                     (w, metrics, Err e) \<Rightarrow> (w, metrics, Inr (Err e))
                   | (w, metrics, Ok order) \<Rightarrow>
                       (sleep_ms E w (unat (rc_reprice_interval_ms config)), metrics, Inl order)
              else (sleep_ms E w (unat (rc_reprice_interval_ms config)), metrics, Inl order))"

partial_function (option) chase_loop ::
  "'w env \<Rightarrow> repricing_config \<Rightarrow> instant \<Rightarrow> nat \<Rightarrow> 'w \<Rightarrow> simulated_order \<Rightarrow> repricing_metrics \<Rightarrow>
   ('w \<times> repricing_metrics \<times> (simulated_order, string) result) option" where
  "chase_loop E config start timeout w order metrics =
     (if duration_since (instant_now E w) start < timeout
      then let (w, metrics, next_turn) = chase_turn E config w order metrics in
        case next_turn of
          Inl order \<Rightarrow> chase_loop E config start timeout w order metrics
        | Inr r \<Rightarrow> Some (w, metrics, r)
      else Some (w, metrics, Err ''Timeout reached without fill''))"

definition chase_until_filled ::
  "'w env \<Rightarrow> repricing_config \<Rightarrow> 'w \<Rightarrow> simulated_order \<Rightarrow> nat \<Rightarrow>
   ('w \<times> repricing_metrics \<times> (simulated_order, string) result) option" where
  "chase_until_filled E config w order timeout =
     chase_loop E config (instant_now E w) timeout w order (RepricingMetrics_new (so_price order))"

text \<open>The metrics agree with each other and with the limit.\<close>

definition metrics_ok :: "repricing_config \<Rightarrow> repricing_metrics \<Rightarrow> bool" where
  "metrics_ok config m \<longleftrightarrow> length (rm_repricing_events m) = unat (rm_reprice_count m) \<and>
     rm_reprice_count m \<le> rc_max_reprices config"

text \<open>An exchange that never fills, with a best bid that keeps moving away.\<close>

definition moving_env :: "paper_world env" where
  "moving_env = (paper_env (\<lambda>n. nat_str n))
     \<lparr>get_order_status := (\<lambda>w ex i. (w, Ok Pending)),
      get_best_bid := (\<lambda>w ex symbol. (w, Ok (lit 200)))\<rparr>"

section \<open>Lemmas\<close>

lemma reprice_order_cases:
  assumes "reprice_order E w order p m = (w', m', r)"
  obtains (err) e where "r = Err e" "m' = m"
  | (ok) o' ev where "r = Ok o'" "rm_reprice_count m' = rm_reprice_count m + 1"
      "rm_repricing_events m' = rm_repricing_events m @ [ev]"
  using assms by (auto simp: reprice_order_def Let_def split: prod.splits result.splits)

lemma chase_turn_metrics:
  assumes "metrics_ok c m" "chase_turn E c w order m = (w', m', x)"
  shows "metrics_ok c m'"
proof -
  have step: "metrics_ok c m1" if "reprice_order E w1 order p m = (w2, m1, r)"
    "\<not> rc_max_reprices c \<le> rm_reprice_count m" for w1 p w2 m1 r
    using that(1)
  proof (cases rule: reprice_order_cases)
    case (ok o' ev)
    have "rm_reprice_count m < rc_max_reprices c" using that(2) by simp
    from unat_succ_of_less[OF this] ok assms(1) show ?thesis by (simp add: metrics_ok_def)
  qed (use assms(1) in simp)
  show ?thesis
    using assms step
    by (auto simp: chase_turn_def metrics_ok_def RepricingMetrics_finalize_def
        split: prod.splits result.splits if_splits)
qed

lemma chase_turn_returns_filled:
  assumes "chase_turn E c w order m = (w', m', Inr (Ok o'))"
  shows "o' = order \<and> get_order_status E w (so_exchange order) (so_id order) = (w', Ok Filled)"
  using assms by (auto simp: chase_turn_def split: prod.splits result.splits if_splits)

lemma chase_loop_metrics:
  assumes "chase_loop E c start timeout w order m = Some y"
  shows "metrics_ok c m \<longrightarrow> metrics_ok c (fst (snd y))"
  by (rule chase_loop.raw_induct[where P = "\<lambda>E c start timeout w order m y.
        metrics_ok c m \<longrightarrow> metrics_ok c (fst (snd y))", OF _ assms])
    (fastforce dest: chase_turn_metrics split: if_splits prod.splits sum.splits)

lemma chase_loop_filled:
  assumes "chase_loop E c start timeout w order m = Some y"
  shows "\<forall>o'. snd (snd y) = Ok o' \<longrightarrow>
    (\<exists>w0. get_order_status E w0 (so_exchange o') (so_id o') = (fst y, Ok Filled))"
  by (rule chase_loop.raw_induct[where P = "\<lambda>E c start timeout w order m y.
        \<forall>o'. snd (snd y) = Ok o' \<longrightarrow>
          (\<exists>w0. get_order_status E w0 (so_exchange o') (so_id o') = (fst y, Ok Filled))", OF _ assms])
    (fastforce dest: chase_turn_returns_filled split: if_splits prod.splits sum.splits)

lemma metrics_ok_new: "metrics_ok c (RepricingMetrics_new p)"
  by (simp add: metrics_ok_def RepricingMetrics_new_def)

context clocked
begin

lemma time_best: "get_best_price_for_order E w order = (w', r) \<Longrightarrow> instant_now E w \<le> instant_now E w'"
  using time_bid[of w "so_exchange order" "so_symbol order"]
    time_ask[of w "so_exchange order" "so_symbol order"]
  by (auto simp: get_best_price_for_order_def split: order_side.splits prod.splits)

lemma time_reprice:
  assumes "reprice_order E w order p m = (w', m', r)"
  shows "instant_now E w \<le> instant_now E w'"
proof -
  obtain w1 rc where c: "cancel_order E w (so_exchange order) (so_id order) = (w1, rc)" by fastforce
  have le: "instant_now E w \<le> instant_now E w1"
    using time_cancel[of w "so_exchange order" "so_id order"] c by simp
  have pl: "instant_now E w1 \<le> instant_now E (fst (place_order E w1 o1))" for o1 by (rule time_place)
  show ?thesis
  proof (cases rc)
    case (Ok u)
    obtain w2 rp where q: "place_order E w1
      (order\<lparr>so_price := p, so_id := [], so_created_at := unix_secs E w1\<rparr>) = (w2, rp)" by fastforce
    have "w' = w2" using assms c Ok q by (auto simp: reprice_order_def Let_def split: result.splits)
    with le pl[of "order\<lparr>so_price := p, so_id := [], so_created_at := unix_secs E w1\<rparr>"] q
    show ?thesis by simp
  qed (use assms c le in \<open>simp add: reprice_order_def\<close>)
qed

text \<open>A turn that goes on has slept for the interval.\<close>

lemma chase_turn_time:
  assumes "chase_turn E c w order m = (w', m', Inl o')"
  shows "instant_now E w + from_millis (unat (rc_reprice_interval_ms c)) \<le> instant_now E w'"
proof -
  obtain w1 rs where s: "get_order_status E w (so_exchange order) (so_id order) = (w1, rs)" by fastforce
  obtain w2 rb where b: "get_best_price_for_order E w1 order = (w2, rb)" by fastforce
  have t: "instant_now E w \<le> instant_now E w2"
    using time_status[of w "so_exchange order" "so_id order"] s time_best[OF b] by simp
  obtain p where p: "rb = Ok p"
    using assms s b by (auto simp: chase_turn_def split: result.splits if_splits)
  have "\<exists>w3. w' = sleep_ms E w3 (unat (rc_reprice_interval_ms c)) \<and> instant_now E w2 \<le> instant_now E w3"
  proof (cases "should_reprice c (so_price order) p")
    case True
    obtain w3 m3 r3 where r: "reprice_order E w2 order p m = (w3, m3, r3)" by (metis prod_cases3)
    with True assms s b p time_reprice[OF r] show ?thesis
      by (auto simp: chase_turn_def split: result.splits if_splits)
  qed (use assms s b p in \<open>auto simp: chase_turn_def split: result.splits if_splits\<close>)
  with t time_sleep show ?thesis by (meson add_le_mono1 le_trans)
qed

lemma chase_loop_ends:
  assumes "0 < rc_reprice_interval_ms c" "start \<le> instant_now E w"
  shows "\<exists>y. chase_loop E c start timeout w order m = Some y"
  using assms(2)
proof (induction "start + timeout - instant_now E w" arbitrary: w order m rule: less_induct)
  case less
  obtain w1 m1 x where t: "chase_turn E c w order m = (w1, m1, x)" by (metis prod_cases3)
  show ?case
  proof (cases x)
    case (Inl o1)
    have "0 < unat (rc_reprice_interval_ms c)" using assms(1) by (simp add: word_less_nat_alt)
    with chase_turn_time[of c w order m w1 m1 o1] t Inl
    have lt: "instant_now E w < instant_now E w1" by (simp add: from_millis_def)
    show ?thesis
    proof (cases "duration_since (instant_now E w) start < timeout")
      case True
      then have "start + timeout - instant_now E w1 < start + timeout - instant_now E w"
        using lt less.prems by (simp add: duration_since_def)
      from less.hyps[OF this] lt less.prems t Inl True show ?thesis
        by (subst chase_loop.simps) simp
    qed (simp add: chase_loop.simps)
  qed (simp add: t chase_loop.simps)
qed

end

section \<open>Properties\<close>

text \<open>C32. Chasing a price ends: on every backend whose clock does not run backwards, with a positive
  interval, the loop returns, whatever the orders and prices do.  By then it has repriced at most
  \<open>max_reprices\<close> times with one event each, and when it returns an order, the last answer of the
  backend was that this order is filled.\<close>

theorem chase_ends:
  assumes "clocked E" and "0 < rc_reprice_interval_ms config"
  shows "\<exists>w' m r. chase_until_filled E config w order timeout = Some (w', m, r) \<and>
    rm_reprice_count m \<le> rc_max_reprices config \<and>
    length (rm_repricing_events m) = unat (rm_reprice_count m) \<and>
    (\<forall>o'. r = Ok o' \<longrightarrow> (\<exists>w0. get_order_status E w0 (so_exchange o') (so_id o') = (w', Ok Filled)))"
proof -
  obtain w' m r where c: "chase_until_filled E config w order timeout = Some (w', m, r)"
    using clocked.chase_loop_ends[OF assms(1,2) order_refl, of w timeout order]
    unfolding chase_until_filled_def by (metis prod_cases3)
  moreover have "metrics_ok config m"
    using chase_loop_metrics[OF c[unfolded chase_until_filled_def]] metrics_ok_new by simp
  ultimately show ?thesis
    using chase_loop_filled[OF c[unfolded chase_until_filled_def]] by (auto simp: metrics_ok_def)
qed

theorem chase_ends_witness:
  "\<exists>w' m r. chase_until_filled moving_env RepricingConfig_balanced (paper_start Map.empty)
     paper_sample_order 3000000000 = Some (w', m, r) \<and> rm_reprice_count m \<le> 5"
proof -
  have "clocked moving_env"
    by unfold_locales (simp_all add: moving_env_def paper_env_def paper_defs Let_def)
  from chase_ends[OF this, of RepricingConfig_balanced "paper_start Map.empty" paper_sample_order
      3000000000] show ?thesis
    by (auto simp: RepricingConfig_balanced_def)
qed

end
