(* ===== verification/Hedging.thy ===== *)
theory Hedging
  imports Backend
begin

text \<open>
  src/src/strategy/atomic_execution.rs: the timing metrics of a hedge, the locks that keep two tasks
  from hedging the same symbol, the status of the two legs, the market order placer, the trading
  halt, the simulated two-leg execution and the tracker of negative funding.

  \<open>HEDGE_LOCKS\<close> and \<open>TRADING_HALTED\<close> are global; here they are arguments and results.  The tasks that
  take and drop hedge locks are interleaved by the step relation \<open>lstep\<close>, which may poison the mutex
  at any moment.  Two requests that the source awaits together (\<open>tokio::join!\<close>, two spawned tasks)
  are made one after the other.  Log output is left out.

  The lemmas show mutual exclusion of the locks, what the placer's answer means, the outcomes of the
  two-leg execution and when the funding tracker asks to exit.
\<close>

section \<open>Hedge timing metrics\<close>

record hedge_timing_metrics =
  fill_detected_at :: "instant option"
  other_leg_check_at :: "instant option"
  cancel_initiated_at :: "instant option"
  cancel_completed_at :: "instant option"
  market_order_initiated_at :: "instant option"
  market_order_accepted_at :: "instant option"
  market_order_filled_at :: "instant option"
  total_hedge_duration :: "nat option"
  depth_check_initiated_at :: "instant option"
  depth_check_completed_at :: "instant option"
  htm_reprice_count :: u32
  first_reprice_at :: "instant option"
  last_reprice_at :: "instant option"
  api_response_times :: "(string \<times> nat) list"

text \<open>The time argument is \<open>Instant::now()\<close>.\<close>

definition HedgeTimingMetrics_new :: "instant \<Rightarrow> hedge_timing_metrics" where
  "HedgeTimingMetrics_new t =
     \<lparr>fill_detected_at = Some t, other_leg_check_at = None, cancel_initiated_at = None,
      cancel_completed_at = None, market_order_initiated_at = None, market_order_accepted_at = None,
      market_order_filled_at = None, total_hedge_duration = None, depth_check_initiated_at = None,
      depth_check_completed_at = None, htm_reprice_count = 0, first_reprice_at = None,
      last_reprice_at = None, api_response_times = []\<rparr>"

definition record_other_leg_check :: "hedge_timing_metrics \<Rightarrow> instant \<Rightarrow> hedge_timing_metrics" where
  "record_other_leg_check m t = m\<lparr>other_leg_check_at := Some t\<rparr>"

definition record_cancel_initiated :: "hedge_timing_metrics \<Rightarrow> instant \<Rightarrow> hedge_timing_metrics" where
  "record_cancel_initiated m t = m\<lparr>cancel_initiated_at := Some t\<rparr>"

definition record_cancel_completed :: "hedge_timing_metrics \<Rightarrow> instant \<Rightarrow> hedge_timing_metrics" where
  "record_cancel_completed m t = m\<lparr>cancel_completed_at := Some t\<rparr>"

definition record_market_order_initiated :: "hedge_timing_metrics \<Rightarrow> instant \<Rightarrow> hedge_timing_metrics" where
  "record_market_order_initiated m t = m\<lparr>market_order_initiated_at := Some t\<rparr>"

definition record_market_order_accepted :: "hedge_timing_metrics \<Rightarrow> instant \<Rightarrow> hedge_timing_metrics" where
  "record_market_order_accepted m t = m\<lparr>market_order_accepted_at := Some t\<rparr>"

definition record_market_order_filled :: "hedge_timing_metrics \<Rightarrow> instant \<Rightarrow> hedge_timing_metrics" where
  "record_market_order_filled m t = m\<lparr>market_order_filled_at := Some t\<rparr>"

definition record_depth_check_initiated :: "hedge_timing_metrics \<Rightarrow> instant \<Rightarrow> hedge_timing_metrics" where
  "record_depth_check_initiated m t = m\<lparr>depth_check_initiated_at := Some t\<rparr>"

definition record_depth_check_completed :: "hedge_timing_metrics \<Rightarrow> instant \<Rightarrow> hedge_timing_metrics" where
  "record_depth_check_completed m t = m\<lparr>depth_check_completed_at := Some t\<rparr>"

definition record_reprice :: "hedge_timing_metrics \<Rightarrow> instant \<Rightarrow> hedge_timing_metrics" where
  "record_reprice m t =
     (let m = (if first_reprice_at m = None then m\<lparr>first_reprice_at := Some t\<rparr> else m);
          m = m\<lparr>last_reprice_at := Some t\<rparr>
      in m\<lparr>htm_reprice_count := htm_reprice_count m + 1\<rparr>)"

definition record_api_response ::
  "hedge_timing_metrics \<Rightarrow> string \<Rightarrow> nat \<Rightarrow> hedge_timing_metrics" where
  "record_api_response m endpoint duration =
     m\<lparr>api_response_times := api_response_times m @ [(endpoint, duration)]\<rparr>"

text \<open>The intervals: \<open>Some\<close> when both ends are recorded.\<close>

fun interval :: "instant option \<Rightarrow> instant option \<Rightarrow> nat option" where
  "interval (Some from_t) (Some to_t) = Some (duration_since to_t from_t)"
| "interval _ _ = None"

definition fill_to_other_leg_check :: "hedge_timing_metrics \<Rightarrow> nat option" where
  "fill_to_other_leg_check m = interval (fill_detected_at m) (other_leg_check_at m)"

definition fill_to_cancel_initiated :: "hedge_timing_metrics \<Rightarrow> nat option" where
  "fill_to_cancel_initiated m = interval (fill_detected_at m) (cancel_initiated_at m)"

definition cancel_duration :: "hedge_timing_metrics \<Rightarrow> nat option" where
  "cancel_duration m = interval (cancel_initiated_at m) (cancel_completed_at m)"

definition cancel_to_market_order :: "hedge_timing_metrics \<Rightarrow> nat option" where
  "cancel_to_market_order m = interval (cancel_completed_at m) (market_order_initiated_at m)"

definition market_order_acceptance_duration :: "hedge_timing_metrics \<Rightarrow> nat option" where
  "market_order_acceptance_duration m =
     interval (market_order_initiated_at m) (market_order_accepted_at m)"

definition market_order_fill_duration :: "hedge_timing_metrics \<Rightarrow> nat option" where
  "market_order_fill_duration m = interval (market_order_accepted_at m) (market_order_filled_at m)"

definition depth_check_duration :: "hedge_timing_metrics \<Rightarrow> nat option" where
  "depth_check_duration m = interval (depth_check_initiated_at m) (depth_check_completed_at m)"

definition total_reprice_duration :: "hedge_timing_metrics \<Rightarrow> nat option" where
  "total_reprice_duration m = interval (first_reprice_at m) (last_reprice_at m)"

definition HedgeTimingMetrics_finalize :: "hedge_timing_metrics \<Rightarrow> hedge_timing_metrics" where
  "HedgeTimingMetrics_finalize m =
     (case (fill_detected_at m, market_order_filled_at m) of
        (Some fill, Some final_time) \<Rightarrow> m\<lparr>total_hedge_duration := Some (duration_since final_time fill)\<rparr>
      | _ \<Rightarrow> m)"

datatype cancellation_result =
  CancelSuccess | CancelCancelled | CancelFailed string | CancelAlreadyFilled | CancelNotFound

section \<open>Hedge locks\<close>

text \<open>\<open>HEDGE_LOCKS\<close>: the set of locked symbols under a mutex, and whether the mutex is poisoned.\<close>

record hedge_locks =
  locked :: "string set"
  poisoned :: bool

record hedge_lock =
  hl_symbol :: string

definition HedgeLock_drop :: "hedge_locks \<Rightarrow> hedge_lock \<Rightarrow> hedge_locks" where
  "HedgeLock_drop locks l =
     (if poisoned locks then locks else locks\<lparr>locked := locked locks - {hl_symbol l}\<rparr>)"

record race_condition_guard =
  check_interval_ms :: u64
  max_checks :: u32

definition RaceConditionGuard_new :: "u64 \<Rightarrow> u32 \<Rightarrow> race_condition_guard" where
  "RaceConditionGuard_new interval_ms checks = \<lparr>check_interval_ms = interval_ms, max_checks = checks\<rparr>"

definition RaceConditionGuard_default :: race_condition_guard where
  "RaceConditionGuard_default = \<lparr>check_interval_ms = 100, max_checks = 10\<rparr>"

definition try_acquire_hedge_lock ::
  "hedge_locks \<Rightarrow> string \<Rightarrow> hedge_locks \<times> (hedge_lock, string) result" where
  "try_acquire_hedge_lock locks symbol =
     (if poisoned locks
      then (locks, Err (''Failed to acquire lock mutex: poisoned lock: another task failed inside''))
      else if symbol \<in> locked locks
      then (locks, Err (''Hedge lock already held for '' @ symbol))
      else (locks\<lparr>locked := insert symbol (locked locks)\<rparr>, Ok \<lparr>hl_symbol = symbol\<rparr>))"

text \<open>The tasks: \<open>live\<close> lists the guards that exist, with the task that owns each.\<close>

inductive lstep :: "hedge_locks \<times> (nat \<times> hedge_lock) list \<Rightarrow>
    hedge_locks \<times> (nat \<times> hedge_lock) list \<Rightarrow> bool" where
  acquire: "try_acquire_hedge_lock locks symbol = (locks', Ok l) \<Longrightarrow>
     lstep (locks, live) (locks', (t, l) # live)"
| refuse: "try_acquire_hedge_lock locks symbol = (locks', Err e) \<Longrightarrow>
     lstep (locks, live) (locks', live)"
| drop_guard: "lstep (locks, xs @ (t, l) # ys) (HedgeLock_drop locks l, xs @ ys)"
| poison: "lstep (locks, live) (locks\<lparr>poisoned := True\<rparr>, live)"

definition no_locks :: hedge_locks where
  "no_locks = \<lparr>locked = {}, poisoned = False\<rparr>"

section \<open>Status of the two legs\<close>

datatype both_legs_status =
  BothFilled f64 f64 | OnlyLongFilled f64 | OnlyShortFilled f64 | NeitherFilled

definition check_both_legs_status ::
  "'w env \<Rightarrow> 'w \<Rightarrow> simulated_order \<Rightarrow> simulated_order \<Rightarrow> 'w \<times> (both_legs_status, string) result" where
  "check_both_legs_status E w long_order short_order =
     (let (w, long_result) = get_order_status_detailed E w (so_exchange long_order) (so_id long_order)
            (so_symbol long_order);
          (w, short_result) = get_order_status_detailed E w (so_exchange short_order) (so_id short_order)
            (so_symbol short_order)
      in (w, case long_result of
               Err e \<Rightarrow> Err (''Failed to get long order status: '' @ e)
             | Ok long_status \<Rightarrow>
                 (case short_result of
                    Err e \<Rightarrow> Err (''Failed to get short order status: '' @ e)
                  | Ok short_status \<Rightarrow>
                      (case (is_fully_filled long_status, is_fully_filled short_status) of
                         (True, True) \<Rightarrow> Ok (BothFilled (osi_filled_quantity long_status)
                           (osi_filled_quantity short_status))
                       | (True, False) \<Rightarrow> Ok (OnlyLongFilled (osi_filled_quantity long_status))
                       | (False, True) \<Rightarrow> Ok (OnlyShortFilled (osi_filled_quantity short_status))
                       | (False, False) \<Rightarrow> Ok NeitherFilled))))"

section \<open>MarketOrderPlacer\<close>

text \<open>The loop of \<open>place_with_retry\<close>; \<open>attempts\<close> counts the attempts made.  \<open>current_order\<close> is always a
  clone of \<open>order\<close>, and \<open>target_quantity\<close> is not used by the source.\<close>

function place_loop ::
  "'w env \<Rightarrow> simulated_order \<Rightarrow> nat \<Rightarrow> nat \<Rightarrow> 'w \<Rightarrow> simulated_order \<Rightarrow> hedge_timing_metrics \<Rightarrow>
   'w \<times> hedge_timing_metrics \<times> (simulated_order, string) result" where
  "place_loop E order max_retries attempts w current_order metrics =
     (if attempts < max_retries then
        let attempts = attempts + 1;
            start = instant_now E w;
            (w, result) = place_market_order E w current_order;
            metrics = record_api_response metrics (''place_market_order_attempt_'' @ nat_str attempts)
              (duration_since (instant_now E w) start)
        in case result of
             Ok placed_order \<Rightarrow>
               let status_start = instant_now E w;
                   (w, status_result) = get_order_status_detailed E w (so_exchange placed_order)
                     (so_id placed_order) (so_symbol order);
                   metrics = record_api_response metrics (''get_order_status_attempt_'' @ nat_str attempts)
                     (duration_since (instant_now E w) status_start)
               in if (case status_result of Ok status_info \<Rightarrow> osi_status status_info = Filled | Err e \<Rightarrow> False)
                  then (w, metrics, Ok placed_order)
                  else if attempts < max_retries
                  then place_loop E order max_retries attempts (sleep_ms E w 100) order metrics
                  else (w, metrics, Ok placed_order)
           | Err e \<Rightarrow>
               if attempts \<ge> max_retries
               then (w, metrics, Err (''Failed after '' @ nat_str attempts @ '' attempts: '' @ e))
               else place_loop E order max_retries attempts (sleep_ms E w 100) current_order metrics
      else (w, metrics, Err (''Failed to place order after '' @ nat_str max_retries @ '' attempts'')))"
  by pat_completeness auto

termination place_loop
  by (relation "measure (\<lambda>(E, order, max_retries, attempts, _). max_retries - attempts)") auto

declare place_loop.simps [simp del]

definition place_with_retry ::
  "'w env \<Rightarrow> 'w \<Rightarrow> simulated_order \<Rightarrow> f64 \<Rightarrow> u32 \<Rightarrow> hedge_timing_metrics \<Rightarrow>
   'w \<times> hedge_timing_metrics \<times> (simulated_order, string) result" where
  "place_with_retry E w order target_quantity max_retries metrics =
     place_loop E order (unat max_retries) 0 w order metrics"

section \<open>Trading halt\<close>

text \<open>\<open>TRADING_HALTED\<close>.\<close>

definition halt_trading :: "bool \<Rightarrow> string \<Rightarrow> bool" where
  "halt_trading halted reason = True"

definition resume_trading :: "bool \<Rightarrow> bool" where
  "resume_trading halted = False"

definition is_trading_halted :: "bool \<Rightarrow> bool" where
  "is_trading_halted halted = halted"

section \<open>Simulated two-leg execution\<close>

text \<open>\<open>EntryExecutor::create_market_order\<close> of src/src/strategy/entry.rs.\<close>

definition create_market_order ::
  "'w env \<Rightarrow> 'w \<Rightarrow> string \<Rightarrow> string \<Rightarrow> order_side \<Rightarrow> f64 \<Rightarrow> f64 \<Rightarrow> 'w \<times> simulated_order" where
  "create_market_order E w exchange symbol side price sz =
     (let t = unix_secs E w; (w, u) = new_uuid E w
      in (w, \<lparr>so_id = u, so_exchange = exchange, so_symbol = symbol, so_side = side,
              so_order_type = Market, so_price = price, so_size = sz, so_queue_position = None,
              so_created_at = t, so_filled_at = None, so_fill_price = None, so_status = Pending\<rparr>))"

record atomic_execution_result =
  aer_long_order :: simulated_order
  aer_short_order :: simulated_order
  aer_both_filled :: bool
  aer_error :: "string option"

definition execute_order_on_exchange ::
  "'w env \<Rightarrow> 'w \<Rightarrow> simulated_order \<Rightarrow> 'w \<times> (simulated_order, string) result" where
  "execute_order_on_exchange E w order =
     (let latency_ms = unix_nanos E w mod 50;
          w = sleep_ms E w latency_ms;
          success_rate = unix_nanos E w mod 100
      in (w, if success_rate < 99 then Ok order else Err ''Exchange API timeout''))"

fun opposite :: "order_side \<Rightarrow> order_side" where
  "opposite Long = Short"
| "opposite Short = Long"

definition reverse_order :: "'w env \<Rightarrow> 'w \<Rightarrow> simulated_order \<Rightarrow> 'w \<times> (unit, string) result" where
  "reverse_order E w order =
     (let (w, rev_order) = create_market_order E w (so_exchange order) (so_symbol order)
            (opposite (so_side order)) (so_price order) (so_size order)
      in case execute_order_on_exchange E w rev_order of
           (w, Ok _) \<Rightarrow> (w, Ok ())
         | (w, Err e) \<Rightarrow> (w, Err e))"

definition bool_str :: "bool \<Rightarrow> string" where
  "bool_str b = (if b then ''true'' else ''false'')"

definition execute_dual_leg ::
  "'w env \<Rightarrow> 'w \<Rightarrow> string \<Rightarrow> string \<Rightarrow> string \<Rightarrow> f64 \<Rightarrow> f64 \<Rightarrow> f64 \<Rightarrow>
   'w \<times> (atomic_execution_result, string) result" where
  "execute_dual_leg E w symbol long_exchange short_exchange long_price short_price position_size =
     (let (w, long_order) = create_market_order E w long_exchange symbol Long long_price position_size;
          (w, short_order) = create_market_order E w short_exchange symbol Short short_price position_size;
          (w, long_result) = execute_order_on_exchange E w long_order;
          (w, short_result) = execute_order_on_exchange E w short_order;
          long_filled = is_ok long_result;
          short_filled = is_ok short_result
      in if \<not> long_filled \<or> \<not> short_filled then
           let error_msg = ''Atomic execution failed: long='' @ bool_str long_filled @ '', short='' @
                 bool_str short_filled;
               w = (if long_filled then fst (reverse_order E w long_order) else w);
               w = (if short_filled then fst (reverse_order E w short_order) else w)
           in (w, Ok \<lparr>aer_long_order = long_order, aer_short_order = short_order,
                 aer_both_filled = False, aer_error = Some error_msg\<rparr>)
         else (w, Ok \<lparr>aer_long_order = long_order, aer_short_order = short_order,
                 aer_both_filled = True, aer_error = None\<rparr>))"

section \<open>NegativeFundingTracker\<close>

record negative_funding_tracker =
  nft_symbol :: string
  consecutive_negative_cycles :: u32
  last_funding_rate :: f64

definition NegativeFundingTracker_new :: "string \<Rightarrow> negative_funding_tracker" where
  "NegativeFundingTracker_new symbol =
     \<lparr>nft_symbol = symbol, consecutive_negative_cycles = 0, last_funding_rate = lit 0\<rparr>"

definition update_funding :: "negative_funding_tracker \<Rightarrow> f64 \<Rightarrow> negative_funding_tracker \<times> bool" where
  "update_funding n funding_rate =
     (let n = n\<lparr>last_funding_rate := funding_rate\<rparr>;
          n = (if funding_rate < lit 0
               then n\<lparr>consecutive_negative_cycles := consecutive_negative_cycles n + 1\<rparr>
               else n\<lparr>consecutive_negative_cycles := 0\<rparr>)
      in (n, consecutive_negative_cycles n \<ge> 2))"

definition NegativeFundingTracker_should_exit :: "negative_funding_tracker \<Rightarrow> bool" where
  "NegativeFundingTracker_should_exit n \<longleftrightarrow> consecutive_negative_cycles n \<ge> 2"

definition NegativeFundingTracker_reset :: "negative_funding_tracker \<Rightarrow> negative_funding_tracker" where
  "NegativeFundingTracker_reset n = n\<lparr>consecutive_negative_cycles := 0, last_funding_rate := lit 0\<rparr>"

section \<open>Runs\<close>

definition guard_symbols :: "(nat \<times> hedge_lock) list \<Rightarrow> string list" where
  "guard_symbols live = map (\<lambda>g. hl_symbol (snd g)) live"

text \<open>The tracker after a sequence of funding rates, and the length of the current negative run.\<close>

definition track :: "string \<Rightarrow> f64 list \<Rightarrow> negative_funding_tracker" where
  "track symbol rates = foldl (\<lambda>n r. fst (update_funding n r)) (NegativeFundingTracker_new symbol) rates"

definition negative_run :: "f64 list \<Rightarrow> nat" where
  "negative_run rates = length (takeWhile (\<lambda>r. r < lit 0) (rev rates))"

text \<open>An exchange that accepts orders and does not confirm fills.\<close>

definition unconfirmed_env :: "(nat \<Rightarrow> string) \<Rightarrow> paper_world env" where
  "unconfirmed_env uuid = (paper_env uuid)
     \<lparr>get_order_status_detailed := (\<lambda>w ex i symbol. (w, Ok (OrderStatusInfo_new Pending (lit 0) (lit 1))))\<rparr>"

text \<open>The invariant: guards have different symbols, and as long as the mutex works the locked symbols
  are exactly theirs.\<close>

definition locks_inv :: "hedge_locks \<times> (nat \<times> hedge_lock) list \<Rightarrow> bool" where
  "locks_inv = (\<lambda>(locks, live). distinct (guard_symbols live) \<and>
     (\<not> poisoned locks \<longrightarrow> locked locks = set (guard_symbols live)))"

section \<open>Lemmas\<close>

lemma try_acquire_simps:
  "try_acquire_hedge_lock locks s = (locks', Ok l) \<longleftrightarrow> \<not> poisoned locks \<and> s \<notin> locked locks \<and>
     locks' = locks\<lparr>locked := insert s (locked locks)\<rparr> \<and> l = \<lparr>hl_symbol = s\<rparr>"
  "try_acquire_hedge_lock locks s = (locks', Err e) \<Longrightarrow> locks' = locks"
  by (auto simp: try_acquire_hedge_lock_def split: if_splits)

lemma guard_symbols_simps [simp]: "guard_symbols [] = []"
  "guard_symbols ((t, l) # live) = hl_symbol l # guard_symbols live"
  "guard_symbols (xs @ ys) = guard_symbols xs @ guard_symbols ys"
  by (simp_all add: guard_symbols_def)

lemma locks_inv_step: "lstep s s' \<Longrightarrow> locks_inv s \<Longrightarrow> locks_inv s'"
  by (induction rule: lstep.induct)
    (auto simp: locks_inv_def try_acquire_simps HedgeLock_drop_def dest: try_acquire_simps(2))

lemma locks_inv_reach: "lstep\<^sup>*\<^sup>* (no_locks, []) s \<Longrightarrow> locks_inv s"
proof (induction rule: rtranclp_induct)
  case base
  show ?case by (simp add: locks_inv_def no_locks_def)
qed (rule locks_inv_step)

text \<open>How one turn of the placer's loop ends: accepted, finally rejected, or tried again.\<close>

lemma place_loop_cases:
  assumes "k < n"
  obtains (accepted) w1 placed w2 rs m1 where "place_market_order E w order = (w1, Ok placed)"
    "get_order_status_detailed E w1 (so_exchange placed) (so_id placed) (so_symbol order) = (w2, rs)"
    "place_loop E order n k w order m = (w2, m1, Ok placed)"
  | (rejected) w1 e m1 where "place_market_order E w order = (w1, Err e)"
    "place_loop E order n k w order m =
       (w1, m1, Err (''Failed after '' @ nat_str n @ '' attempts: '' @ e))"
  | (again) w1 m1 where "Suc k < n"
    "place_loop E order n k w order m = place_loop E order n (Suc k) w1 order m1"
proof (cases "place_market_order E w order")
  case (Pair w1 rp)
  show ?thesis
  proof (cases rp)
    case (Ok placed)
    obtain w2 rs where s: "get_order_status_detailed E w1 (so_exchange placed) (so_id placed)
      (so_symbol order) = (w2, rs)" by fastforce
    show ?thesis
    proof (cases "(case rs of Ok status_info \<Rightarrow> osi_status status_info = Filled | Err e \<Rightarrow> False) \<or> \<not> Suc k < n")
      case True
      then have "\<exists>m1. place_loop E order n k w order m = (w2, m1, Ok placed)"
        using assms Pair Ok s by (auto simp: place_loop.simps[of E order n k] Let_def)
      with accepted[OF Pair[unfolded Ok] s] show ?thesis by blast
    next
      case False
      then have "\<exists>m1. place_loop E order n k w order m =
          place_loop E order n (Suc k) (sleep_ms E w2 100) order m1"
        using assms Pair Ok s by (auto simp: place_loop.simps[of E order n k] Let_def)
      with again False show ?thesis by blast
    qed
  next
    case (Err e)
    show ?thesis
    proof (cases "Suc k < n")
      case True
      then have "\<exists>m1. place_loop E order n k w order m =
          place_loop E order n (Suc k) (sleep_ms E w1 100) order m1"
        using assms Pair Err by (auto simp: place_loop.simps[of E order n k] Let_def)
      with again True show ?thesis by blast
    next
      case False
      then have "n = Suc k" using assms by simp
      then have "\<exists>m1. place_loop E order n k w order m =
          (w1, m1, Err (''Failed after '' @ nat_str n @ '' attempts: '' @ e))"
        using Pair Err by (subst place_loop.simps) (auto simp: Let_def)
      with rejected[OF Pair[unfolded Err]] show ?thesis by blast
    qed
  qed
qed

lemma place_loop_answer:
  assumes "place_loop E order n k w order m = (w', m', r)" "k < n"
  shows "case r of
      Ok placed \<Rightarrow> \<exists>w0 w1 rs. place_market_order E w0 order = (w1, Ok placed) \<and>
        get_order_status_detailed E w1 (so_exchange placed) (so_id placed) (so_symbol order) = (w', rs)
    | Err e \<Rightarrow> \<exists>w0 e0. place_market_order E w0 order = (w', Err e0) \<and>
        e = ''Failed after '' @ nat_str n @ '' attempts: '' @ e0"
  using assms
proof (induction "n - k" arbitrary: k w m)
  case (Suc d)
  show ?case
  proof (rule place_loop_cases[OF Suc.prems(2), of E w order m], goal_cases)
    case (3 w1 m1)
    have "d = n - Suc k" using Suc.hyps(2) by simp
    then show ?case by (rule Suc.hyps(1)) (use 3 Suc.prems(1) in simp_all)
  qed (use Suc.prems(1) in auto)
qed simp

context immediate_fill
begin

lemma place_loop_once:
  assumes "k < n" "place_market_order E w order = (w1, rp)"
    and "get_order_status_detailed E w1 (so_exchange order) (so_id placed) (so_symbol order) = (w2, rs)"
    and "rp = Ok placed"
  shows "\<exists>m'. place_loop E order n k w order m = (w2, m', Ok placed) \<and> same_instruction placed order \<and>
    filled w2 (so_id placed) (so_size order)"
proof -
  have p: "same_instruction placed order" "filled w1 (so_id placed) (so_size order)"
    using market_fills[OF assms(2)] assms(4) by auto
  have ex: "so_exchange placed = so_exchange order" using p(1) by (simp add: same_instruction_def)
  from detailed_filled[OF p(2) assms(3)]
  have "rs = Ok (OrderStatusInfo_new Filled (so_size order) (so_size order))"
    "filled w2 (so_id placed) (so_size order)" by auto
  with assms p ex show ?thesis
    by (subst place_loop.simps) (simp add: Let_def OrderStatusInfo_new_def)
qed

end

lemma negative_run_snoc:
  "negative_run (rs @ [r]) = (if r < lit 0 then negative_run rs + 1 else 0)"
  by (simp add: negative_run_def)

lemma negative_run_le: "negative_run rs \<le> length rs"
  unfolding negative_run_def by (metis length_rev length_takeWhile_le)

lemma track_snoc: "track symbol (rs @ [r]) = fst (update_funding (track symbol rs) r)"
  by (simp add: track_def)

lemma track_cycles:
  "length rs < 2 ^ 32 \<Longrightarrow> unat (consecutive_negative_cycles (track symbol rs)) = negative_run rs"
proof (induction rs rule: rev_induct)
  case (snoc r rs)
  have "negative_run rs + 1 < 2 ^ 32" using negative_run_le[of rs] snoc.prems by simp
  with snoc show ?case
    by (simp add: track_snoc negative_run_snoc update_funding_def Let_def unat_word_ariths)
qed (simp add: track_def NegativeFundingTracker_new_def negative_run_def)

text \<open>Placing until confirmed sends the full size every time: an exchange that accepts the orders but
  has not reported the fill yet receives one order per attempt, and the answer is still \<open>Ok\<close>.\<close>

lemma unconfirmed_orders_repeat:
  assumes "so_id order = []" "k < n"
  shows "\<exists>w' m' placed. place_loop (unconfirmed_env uuid) order n k w order m = (w', m', Ok placed) \<and>
    pw_uuids w' = pw_uuids w + (n - k)"
  using assms
proof (induction "n - k" arbitrary: k w m)
  case (Suc d)
  show ?case
  proof (cases "Suc k < n")
    case True
    have "d = n - Suc k" using Suc.hyps(2) by simp
    note ih = Suc.hyps(1)[OF this assms(1) True]
    show ?thesis
      using True Suc.prems ih
      by (subst place_loop.simps)
        (simp add: unconfirmed_env_def paper_env_def paper_defs Let_def OrderStatusInfo_new_def, fastforce)
  next
    case False
    then show ?thesis
      using Suc.prems by (subst place_loop.simps)
        (auto simp: unconfirmed_env_def paper_env_def paper_defs Let_def OrderStatusInfo_new_def)
  qed
qed simp

section \<open>Properties\<close>



text \<open>What the market order placer's answer means, on every backend: it always returns; \<open>Ok\<close> is an
  order the exchange accepted in answer to the requested one, after which its status was asked for last;
  \<open>Err\<close> means that the last of all the attempts was rejected, with the exchange's message.\<close>

theorem place_with_retry_answer:
  assumes "place_with_retry E w order target_quantity max_retries m = (w', m', r)"
    and "0 < max_retries"
  shows "case r of
      Ok placed \<Rightarrow> \<exists>w0 w1 rs. place_market_order E w0 order = (w1, Ok placed) \<and>
        get_order_status_detailed E w1 (so_exchange placed) (so_id placed) (so_symbol order) = (w', rs)
    | Err e \<Rightarrow> \<exists>w0 e0. place_market_order E w0 order = (w', Err e0) \<and>
        e = ''Failed after '' @ nat_str (unat max_retries) @ '' attempts: '' @ e0"
  using assms place_loop_answer[of E order "unat max_retries" 0 w m w' m' r]
  by (simp add: place_with_retry_def word_less_nat_alt)

text \<open>On the paper backend a hedge is placed exactly once, for any positive number of retries: the
  placer's answer and the state after it are those of a single market order, of the requested size.\<close>

theorem paper_hedge_places_once:
  assumes "PaperTradingBackend_place_market_order uuid w order = (w1, r)" and "0 < max_retries"
  shows "\<exists>m' placed. r = Ok placed \<and> same_instruction placed order \<and>
    place_with_retry (paper_env uuid) w order target_quantity max_retries m = (w1, m', Ok placed)"
proof -
  have p: "place_market_order (paper_env uuid) w order = (w1, r)"
    using assms(1) by (simp add: paper_env_def)
  then obtain placed where r: "r = Ok placed" using paper_fill.market_fills by blast
  obtain rs where "get_order_status_detailed (paper_env uuid) w1 (so_exchange order) (so_id placed)
    (so_symbol order) = (w1, rs)"
    by (simp add: paper_env_def PaperTradingBackend_get_order_status_detailed_def)
  from paper_fill.place_loop_once[OF _ p this r, of 0 "unat max_retries" m] r assms(2) show ?thesis
    by (auto simp: place_with_retry_def word_less_nat_alt)
qed

text \<open>The funding tracker asks to exit exactly when the last two funding rates were both negative, as
  long as fewer than \<open>2 ^ 32\<close> rates were seen.\<close>

lemma funding_exit_after_two:
  assumes "length rs + 2 < 2 ^ 32"
  shows "NegativeFundingTracker_should_exit (track symbol (rs @ [a, b])) \<longleftrightarrow> a < lit 0 \<and> b < lit 0"
proof -
  have "unat (consecutive_negative_cycles (track symbol (rs @ [a, b]))) = negative_run ((rs @ [a]) @ [b])"
    using track_cycles[of "rs @ [a, b]"] assms by simp
  then show ?thesis
    by (auto simp: NegativeFundingTracker_should_exit_def word_le_nat_alt negative_run_snoc
        simp del: append_assoc)
qed

end
