(* ===== verification/Entry.thy ===== *)
theory Entry
  imports Hedging "HOL-Library.Sublist"
begin

text \<open>
  src/src/strategy/entry.rs, first part: which leg is harder to fill, position sizing and slippage,
  the creation and simulated fill of limit orders, the simulated entry \<open>execute_atomic_entry\<close>, and the
  two safety nets of real execution, \<open>place_market_order_with_retry\<close> and
  \<open>emergency_close_position\<close>.

  Error messages that contain formatted floating-point numbers are constructors that carry the
  numbers; the others are strings.  Log output is left out.

  The lemmas show the symmetry of the harder leg, the bounds of sizes and slippage, that a completed
  entry has two filled legs of the same size, that a hedge reported as placed covers its target, and
  that a failed emergency close halts trading.
\<close>

section \<open>Harder leg\<close>

definition get_exchange_tier :: "string \<Rightarrow> u8" where
  "get_exchange_tier exchange =
     (let e = to_lowercase exchange in
      if e = ''binance'' then 1 else if e = ''bybit'' then 1 else if e = ''okx'' then 1
      else if e = ''deribit'' then 1
      else if e = ''bitget'' then 2 else if e = ''kucoin'' then 2
      else if e = ''gate'' \<or> e = ''gateio'' \<or> e = ''gate.io'' then 2
      else if e = ''hyperliquid'' then 3 else if e = ''paradex'' then 3 else if e = ''lighter'' then 3
      else 3)"

definition identify_harder_leg :: "string \<Rightarrow> string \<Rightarrow> string" where
  "identify_harder_leg long_exchange short_exchange =
     (let long_tier = get_exchange_tier long_exchange;
          short_tier = get_exchange_tier short_exchange
      in if long_tier > short_tier then ''long''
         else if short_tier > long_tier then ''short''
         else if str_less (to_lowercase long_exchange) (to_lowercase short_exchange) then ''long''
         else if str_less (to_lowercase short_exchange) (to_lowercase long_exchange) then ''short''
         else ''long'')"

section \<open>Hedging with retries\<close>

datatype hedge_error = VerifyFailed string | MarketOrderFailed string | NotFullyHedged f64 f64

definition MAX_RETRIES :: nat where
  "MAX_RETRIES = 3"

text \<open>\<open>if let Some(m) = metrics\<close>.\<close>

definition record_opt ::
  "hedge_timing_metrics option \<Rightarrow> string \<Rightarrow> nat \<Rightarrow> hedge_timing_metrics option" where
  "record_opt metrics endpoint duration =
     map_option (\<lambda>m. record_api_response m endpoint duration) metrics"

text \<open>The loop over the attempts that are left.\<close>

fun hedge_loop ::
  "'w env \<Rightarrow> simulated_order \<Rightarrow> f64 \<Rightarrow> nat list \<Rightarrow> 'w \<Rightarrow> f64 \<Rightarrow> simulated_order \<Rightarrow>
   hedge_timing_metrics option \<Rightarrow>
   'w \<times> hedge_timing_metrics option \<times> (simulated_order, hedge_error) result" where
  "hedge_loop E order_template target_quantity [] w total_filled last_order metrics =
     (w, metrics, Err (NotFullyHedged total_filled target_quantity))"
| "hedge_loop E order_template target_quantity (attempt # attempts) w total_filled last_order metrics =
     (let remaining_qty = target_quantity - total_filled in
      if remaining_qty \<le> lit 0 then (w, metrics, Ok (last_order\<lparr>so_size := total_filled\<rparr>))
      else
        let current_order = order_template\<lparr>so_size := remaining_qty\<rparr>;
            api_start = instant_now E w;
            (w, result) = place_market_order E w current_order
        in case result of
          Ok filled_order \<Rightarrow>
            let metrics = record_opt metrics (''place_market_order('' @ so_exchange order_template @ '')'')
                  (duration_since (instant_now E w) api_start);
                last_order = filled_order;
                api_start2 = instant_now E w;
                (w, status) = get_order_status_detailed E w (so_exchange filled_order)
                  (so_id filled_order) (so_symbol order_template)
            in (case status of
              Ok status_info \<Rightarrow>
                let metrics = record_opt metrics
                      (''get_order_status_detailed('' @ so_exchange order_template @ '')'')
                      (duration_since (instant_now E w) api_start2);
                    filled_qty = osi_filled_quantity status_info;
                    total_filled = total_filled + filled_qty
                in if total_filled \<ge> target_quantity
                   then (w, metrics, Ok (last_order\<lparr>so_size := total_filled\<rparr>))
                   else hedge_loop E order_template target_quantity attempts w total_filled last_order
                     metrics
            | Err e \<Rightarrow>
                if attempt < MAX_RETRIES
                then hedge_loop E order_template target_quantity attempts
                  (sleep_ms E w (100 * 2 ^ (attempt - 1))) total_filled last_order metrics
                else (w, metrics, Err (VerifyFailed e)))
        | Err e \<Rightarrow>
            if attempt = MAX_RETRIES then (w, metrics, Err (MarketOrderFailed e))
            else hedge_loop E order_template target_quantity attempts (sleep_ms E w 500) total_filled
              last_order metrics)"

definition place_market_order_with_retry ::
  "'w env \<Rightarrow> 'w \<Rightarrow> simulated_order \<Rightarrow> f64 \<Rightarrow> hedge_timing_metrics option \<Rightarrow>
   'w \<times> hedge_timing_metrics option \<times> (simulated_order, hedge_error) result" where
  "place_market_order_with_retry E w order_template target_quantity metrics =
     hedge_loop E order_template target_quantity [1..<MAX_RETRIES + 1] w (lit 0) order_template metrics"

section \<open>Emergency close\<close>

definition close_order_of :: "simulated_order \<Rightarrow> string \<Rightarrow> u64 \<Rightarrow> simulated_order" where
  "close_order_of filled_order uuid t =
     \<lparr>so_id = ''emergency_close_'' @ uuid, so_exchange = so_exchange filled_order,
      so_symbol = so_symbol filled_order, so_side = opposite (so_side filled_order),
      so_order_type = Market, so_price = so_price filled_order, so_size = so_size filled_order,
      so_queue_position = None, so_created_at = t, so_filled_at = None, so_fill_price = None,
      so_status = Pending\<rparr>"

definition quantity_limit_error :: "string \<Rightarrow> bool" where
  "quantity_limit_error e \<longleftrightarrow>
     sublist ''Quantity greater than max quantity'' e \<or> sublist ''exceeds minimum limit'' e"

text \<open>Closing in two halves: whether both halves were placed.\<close>

definition close_in_halves ::
  "'w env \<Rightarrow> 'w \<Rightarrow> simulated_order \<Rightarrow> hedge_timing_metrics \<Rightarrow> 'w \<times> bool" where
  "close_in_halves E w close_order metrics =
     (let half_size = so_size close_order / lit 2;
          close_order_half = close_order\<lparr>so_size := half_size\<rparr>
      in case place_with_retry E w close_order_half half_size 5 metrics of
           (w, metrics, Ok _) \<Rightarrow>
             let (w, u) = new_uuid E w;
                 close_order_half = close_order_half\<lparr>so_id := ''emergency_close_'' @ u\<rparr>
             in (case place_with_retry E w close_order_half half_size 5 metrics of
                   (w, metrics, Ok _) \<Rightarrow> (w, True)
                 | (w, metrics, Err e2) \<Rightarrow> (w, False))
         | (w, metrics, Err e1) \<Rightarrow> (w, False))"

definition emergency_close_position ::
  "'w env \<Rightarrow> 'w \<Rightarrow> bool \<Rightarrow> simulated_order \<Rightarrow> 'w \<times> bool \<times> (unit, string) result" where
  "emergency_close_position E w halted filled_order =
     (let start_time = instant_now E w;
          (w, u) = new_uuid E w;
          close_order = close_order_of filled_order u (unix_secs E w);
          metrics = HedgeTimingMetrics_new (instant_now E w)
      in case place_with_retry E w close_order (so_size close_order) 10 metrics of
           (w, metrics, Ok _) \<Rightarrow> (w, halted, Ok ())
         | (w, metrics, Err e) \<Rightarrow>
             let (w, closed) = (if quantity_limit_error e then close_in_halves E w close_order metrics
                   else (w, False))
             in if closed then (w, halted, Ok ())
                else
                  let elapsed = duration_since (instant_now E w) start_time;
                      halt_reason = ''Emergency close failed: '' @ so_symbol filled_order @ '' on '' @
                        so_exchange filled_order @ '' ('' @ e @ '')'';
                      halted = halt_trading halted halt_reason
                  in (w, halted, Err (''CRITICAL: Failed to emergency close position after '' @ nat_str 10 @
                        '' attempts in '' @ nat_str (as_millis elapsed) @ ''ms: '' @ e)))"

section \<open>Sizing\<close>

definition calculate_position_size :: "f64 \<Rightarrow> f64 \<Rightarrow> f64 \<Rightarrow> f64 \<Rightarrow> f64 \<Rightarrow> f64" where
  "calculate_position_size spread_bps available_capital fees_bps funding_cost_bps starting_capital =
     (let target_position = starting_capital * lit 0.10;
          position_size = fmin target_position available_capital
      in if position_size < lit 10 then lit 0 else position_size)"

definition calculate_slippage :: "f64 \<Rightarrow> f64 \<Rightarrow> f64" where
  "calculate_slippage position_size order_book_depth =
     (let base_slippage = lit 0.0002;
          depth_ratio = position_size / order_book_depth;
          additional_slippage = depth_ratio * lit 0.0003
      in fmin (base_slippage + additional_slippage) (lit 0.0005))"

section \<open>Simulated entry\<close>

definition create_limit_order ::
  "'w env \<Rightarrow> 'w \<Rightarrow> string \<Rightarrow> string \<Rightarrow> order_side \<Rightarrow> f64 \<Rightarrow> f64 \<Rightarrow> f64 \<Rightarrow> 'w \<times> simulated_order" where
  "create_limit_order E w exchange symbol side price sz resting_depth =
     (let t = unix_secs E w;
          queue_pos = \<lparr>qp_price = price, qp_cumulative_volume_at_price = lit 0,
            qp_resting_depth_at_entry = resting_depth, qp_fill_threshold_pct = lit 0.20,
            qp_is_filled = False\<rparr>;
          (w, u) = new_uuid E w
      in (w, \<lparr>so_id = u, so_exchange = exchange, so_symbol = symbol, so_side = side,
              so_order_type = Limit, so_price = price, so_size = sz, so_queue_position = Some queue_pos,
              so_created_at = t, so_filled_at = None, so_fill_price = None, so_status = Pending\<rparr>))"

definition simulate_order_fill ::
  "'w env \<Rightarrow> 'w \<Rightarrow> simulated_order \<Rightarrow> f64 \<Rightarrow> simulated_order \<times> bool" where
  "simulate_order_fill E w order cumulative_volume =
     (case so_queue_position order of
        Some queue_pos \<Rightarrow>
          let queue_pos = queue_pos\<lparr>qp_cumulative_volume_at_price := cumulative_volume\<rparr>;
              fill_threshold = qp_resting_depth_at_entry queue_pos * qp_fill_threshold_pct queue_pos
          in if cumulative_volume \<ge> fill_threshold
             then (order\<lparr>so_queue_position := Some (queue_pos\<lparr>qp_is_filled := True\<rparr>),
                     so_status := Filled, so_fill_price := Some (qp_price queue_pos),
                     so_filled_at := Some (unix_secs E w)\<rparr>, True)
             else (order\<lparr>so_queue_position := Some queue_pos\<rparr>, False)
      | None \<Rightarrow> (order, False))"

datatype entry_error =
  SizeNotPositive | ExceedsAvailable f64 f64 | HarderLegFailed order_side string
| EasierLegFailed order_side string

definition execute_atomic_entry ::
  "'w env \<Rightarrow> 'w \<Rightarrow> arbitrage_opportunity \<Rightarrow> f64 \<Rightarrow> f64 \<Rightarrow> 'w \<times> (paper_trade, entry_error) result" where
  "execute_atomic_entry E w opportunity available_capital position_size =
     (if position_size \<le> lit 0 then (w, Err SizeNotPositive)
      else if position_size > available_capital
      then (w, Err (ExceedsAvailable position_size available_capital))
      else
        let harder_leg = identify_harder_leg (ao_long_exchange opportunity) (ao_short_exchange opportunity);
            t = unix_secs E w;
            (w, long_order) = create_limit_order E w (ao_long_exchange opportunity)
              (ao_symbol opportunity) Long (ao_long_price opportunity) position_size
              (ao_order_book_depth_long opportunity);
            (w, short_order) = create_limit_order E w (ao_short_exchange opportunity)
              (ao_symbol opportunity) Short (ao_short_price opportunity) position_size
              (ao_order_book_depth_short opportunity);
            harder_leg_is_long = (harder_leg = ''long'');
            (harder_order, easier_order) =
              (if harder_leg_is_long then (long_order, short_order) else (short_order, long_order));
            harder_cumulative_volume = ao_order_book_depth_long opportunity * lit 0.25;
            (harder_order, harder_filled) = simulate_order_fill E w harder_order harder_cumulative_volume
        in if \<not> harder_filled
           then (w, Err (HarderLegFailed (so_side harder_order) (so_exchange harder_order)))
           else
             let easier_cumulative_volume =
                   (if so_side easier_order = Long then ao_order_book_depth_long opportunity * lit 0.30
                    else ao_order_book_depth_short opportunity * lit 0.30);
                 (easier_order, easier_filled) =
                   simulate_order_fill E w easier_order easier_cumulative_volume
             in if \<not> easier_filled
                then (w, Err (EasierLegFailed (so_side easier_order) (so_exchange easier_order)))
                else
                  let (w, trade_id) = new_uuid E w;
                      entry_spread_bps = ((ao_short_price opportunity - ao_long_price opportunity) /
                        ao_long_price opportunity) * lit 10000;
                      (long_order, short_order) = (if harder_leg_is_long
                        then (harder_order, easier_order) else (easier_order, harder_order))
                  in (w, Ok \<lparr>pt_id = trade_id, pt_symbol = ao_symbol opportunity,
                       pt_long_exchange = ao_long_exchange opportunity,
                       pt_short_exchange = ao_short_exchange opportunity, pt_entry_time = t,
                       pt_entry_long_price = ao_long_price opportunity,
                       pt_entry_short_price = ao_short_price opportunity,
                       pt_entry_spread_bps = entry_spread_bps, pt_position_size_usd = position_size,
                       pt_funding_delta_entry = ao_funding_delta_8h opportunity,
                       pt_projected_profit_usd = ao_projected_profit_after_slippage opportunity,
                       pt_actual_profit_usd = lit 0, pt_status = Active, pt_exit_reason = None,
                       pt_exit_spread_bps = None, pt_exit_time = None, pt_long_order = long_order,
                       pt_short_order = short_order, pt_long_exit_order = None,
                       pt_short_exit_order = None, pt_stop_loss_triggered = False,
                       pt_stop_loss_long_price = lit 0, pt_stop_loss_short_price = lit 0,
                       pt_leg_out_event = None\<rparr>))"

section \<open>Concrete inputs\<close>

definition sample_opportunity :: "string \<Rightarrow> string \<Rightarrow> f64 \<Rightarrow> f64 \<Rightarrow> arbitrage_opportunity" where
  "sample_opportunity long_exchange short_exchange depth_long depth_short =
     \<lparr>ao_symbol = ''BTCUSDT'', ao_long_exchange = long_exchange, ao_short_exchange = short_exchange,
      ao_long_price = lit 100, ao_short_price = lit 101, ao_spread_bps = lit 100,
      ao_funding_delta_8h = lit 0.0002, ao_confidence_score = 80, ao_projected_profit_usd = lit 5,
      ao_projected_profit_after_slippage = lit 5,
      ao_metrics = \<lparr>cm_funding_delta = lit 0, cm_funding_delta_projected = lit 0, cm_obi_ratio = lit 0,
        cm_oi_current = lit 0, cm_oi_24h_avg = lit 0, cm_vwap_deviation = lit 0, cm_atr = lit 0,
        cm_atr_trend = False, cm_liquidation_cluster_distance = lit 0,
        cm_hard_constraints = \<lparr>order_book_depth_sufficient = True, exchange_latency_ok = True,
          funding_delta_substantial = True\<rparr>\<rparr>,
      ao_order_book_depth_long = depth_long, ao_order_book_depth_short = depth_short,
      ao_timestamp = None\<rparr>"

text \<open>The exchange accepted a market order of size \<open>q\<close> against the position of \<open>order\<close>.\<close>

definition closing_accepted :: "'w env \<Rightarrow> simulated_order \<Rightarrow> f64 \<Rightarrow> bool" where
  "closing_accepted E order q \<longleftrightarrow> (\<exists>w0 w1 close placed.
     place_market_order E w0 close = (w1, Ok placed) \<and> so_exchange close = so_exchange order \<and>
     so_symbol close = so_symbol order \<and> so_side close = opposite (so_side order) \<and>
     so_order_type close = Market \<and> so_size close = q)"

text \<open>An exchange that accepts orders and whose order status cannot be queried.\<close>

definition unverifiable_env :: "(nat \<Rightarrow> string) \<Rightarrow> paper_world env" where
  "unverifiable_env uuid = (paper_env uuid)
     \<lparr>get_order_status_detailed := (\<lambda>w ex i symbol. (w, Err ''timeout''))\<rparr>"

section \<open>Lemmas\<close>

lemma tier_lowercase: "get_exchange_tier (to_lowercase e) = get_exchange_tier e"
  by (simp add: get_exchange_tier_def)

lemma sub_le_0_imp_le:
  assumes "is_f64 x" "is_finite x" "is_f64 y" "x - y \<le> 0"
  shows "x \<le> y"
proof (cases "is_finite y")
  case True
  have n: "x \<noteq> NaN" "y \<noteq> NaN" using assms(2) True by auto
  have "\<not> y < x" using sub_pos[OF assms(1,3) _ assms(2) True] assms(4) f_less_not_le by blast
  then show ?thesis using f_not_less[OF n(2,1)] by simp
next
  case False
  then show ?thesis using assms(2,4) by (cases x; cases y) (auto simp: minus_f64_def zero_f64_def)
qed

lemma hedge_loop_covers:
  assumes "is_f64 target" "is_finite target"
  shows "is_f64 tot \<Longrightarrow> \<not> target \<le> tot \<Longrightarrow>
    hedge_loop E template target attempts w tot last_order m = (w', m', Ok placed) \<Longrightarrow>
    target \<le> so_size placed"
proof (induction attempts arbitrary: w tot last_order m)
  case (Cons attempt attempts)
  have r: "\<not> target - tot \<le> lit 0"
    using sub_le_0_imp_le[OF assms Cons.prems(1)] Cons.prems(2) by auto
  show ?case
    using Cons.prems(3) r Cons.IH[OF is_f64_add] Cons.IH[OF Cons.prems(1,2)]
    by (auto simp: Let_def split: prod.splits result.splits if_splits)
qed simp

lemma place_with_retry_Ok:
  assumes "place_with_retry E w order q n m = (w', m', Ok placed)" "0 < n"
  shows "\<exists>w0 w1. place_market_order E w0 order = (w1, Ok placed)"
  using assms place_loop_answer[of E order "unat n" 0 w m w' m' "Ok placed"]
  by (auto simp: place_with_retry_def word_less_nat_alt)

lemma closing_acceptedI:
  assumes "place_with_retry E w close q n m = (w', m', Ok placed)" "0 < n"
    and "so_exchange close = so_exchange order" "so_symbol close = so_symbol order"
    "so_side close = opposite (so_side order)" "so_order_type close = Market"
  shows "closing_accepted E order (so_size close)"
  using place_with_retry_Ok[OF assms(1,2)] assms(3-) unfolding closing_accepted_def by blast

lemma close_in_halves_accepted:
  assumes "close_in_halves E w (close_order_of order u t) m = (w', True)"
  shows "closing_accepted E order (so_size order / lit 2)"
proof -
  let ?c = "close_order_of order u t"
  obtain w1 m1 p where "place_with_retry E w (?c\<lparr>so_size := so_size ?c / lit 2\<rparr>) (so_size ?c / lit 2)
      5 m = (w1, m1, Ok p)"
    using assms by (auto simp: close_in_halves_def Let_def split: prod.splits result.splits)
  from closing_acceptedI[OF this, of order] show ?thesis by (simp add: close_order_of_def)
qed

lemma create_limit_order_fields:
  assumes "create_limit_order E w ex symbol side price sz depth = (w', order)"
  shows "so_side order = side" "so_exchange order = ex" "so_size order = sz" "so_symbol order = symbol"
    "\<exists>q. so_queue_position order = Some q \<and> qp_price q = price \<and> qp_resting_depth_at_entry q = depth \<and>
       qp_fill_threshold_pct q = lit 0.20"
  using assms by (auto simp: create_limit_order_def Let_def split: prod.splits)

lemma simulate_order_fill_fields:
  assumes "simulate_order_fill E w order vol = (order', b)" "so_queue_position order = Some q"
  shows "so_side order' = so_side order" "so_exchange order' = so_exchange order"
    "so_size order' = so_size order" "so_symbol order' = so_symbol order"
    "b \<longleftrightarrow> qp_resting_depth_at_entry q * qp_fill_threshold_pct q \<le> vol"
    "b \<Longrightarrow> so_status order' = Filled \<and> so_fill_price order' = Some (qp_price q)"
  using assms by (auto simp: simulate_order_fill_def Let_def split: if_splits)


text \<open>The size, when not zero, is at least 10 and at most a tenth of the starting capital and the
  available capital.\<close>

lemma position_size_range:
  assumes "available \<noteq> NaN" "starting * lit 0.10 \<noteq> NaN"
    and "p = calculate_position_size s available f c starting"
  shows "p = lit 0 \<or> lit 10 \<le> p \<and> p \<le> available \<and> p \<le> starting * lit 0.10"
proof -
  let ?p = "fmin (starting * lit 0.10) available"
  have "?p \<noteq> NaN" "?p \<le> available" "?p \<le> starting * lit 0.10"
    using assms(1,2) by (auto simp: fmin_not_nan fmin_le1 fmin_le2)
  then show ?thesis
    using assms(3) f_not_less[of ?p "lit 10"] by (auto simp: calculate_position_size_def Let_def)
qed

lemma entry_completed:
  assumes "execute_atomic_entry E w opp avail sz = (w', Ok trade)"
  shows "\<not> sz \<le> lit 0" "\<not> avail < sz"
    "so_status (pt_long_order trade) = Filled" "so_status (pt_short_order trade) = Filled"
    "so_side (pt_long_order trade) = Long" "so_side (pt_short_order trade) = Short"
    "so_size (pt_long_order trade) = sz" "so_size (pt_short_order trade) = sz"
    "so_fill_price (pt_long_order trade) = Some (ao_long_price opp)"
    "so_fill_price (pt_short_order trade) = Some (ao_short_price opp)"
    "so_exchange (pt_long_order trade) = ao_long_exchange opp"
    "so_exchange (pt_short_order trade) = ao_short_exchange opp"
    "pt_status trade = Active" "pt_position_size_usd trade = sz"
proof -
  let ?h = "identify_harder_leg (ao_long_exchange opp) (ao_short_exchange opp) = ''long''"
  obtain w1 lo where l: "create_limit_order E w (ao_long_exchange opp) (ao_symbol opp) Long
    (ao_long_price opp) sz (ao_order_book_depth_long opp) = (w1, lo)" by fastforce
  obtain w2 so where s: "create_limit_order E w1 (ao_short_exchange opp) (ao_symbol opp) Short
    (ao_short_price opp) sz (ao_order_book_depth_short opp) = (w2, so)" by fastforce
  note lf = create_limit_order_fields[OF l] and sf = create_limit_order_fields[OF s]
  obtain h e where he: "(h, e) = (if ?h then (lo, so) else (so, lo))" by (metis prod.collapse)
  obtain h' hb where sh: "simulate_order_fill E w2 h (ao_order_book_depth_long opp * lit 0.25) = (h', hb)"
    by fastforce
  let ?v = "if so_side e = Long then ao_order_book_depth_long opp * lit 0.30
    else ao_order_book_depth_short opp * lit 0.30"
  obtain e' eb where se: "simulate_order_fill E w2 e ?v = (e', eb)" by fastforce
  obtain qh qe where q: "so_queue_position h = Some qh" "so_queue_position e = Some qe"
    "qp_price qh = (if ?h then ao_long_price opp else ao_short_price opp)"
    "qp_price qe = (if ?h then ao_short_price opp else ao_long_price opp)"
    using lf(5) sf(5) he by (auto split: if_splits)
  note hf = simulate_order_fill_fields[OF sh q(1)] and ef = simulate_order_fill_fields[OF se q(2)]
  have g: "\<not> sz \<le> lit 0 \<and> \<not> avail < sz \<and> hb \<and> eb \<and> pt_status trade = Active \<and>
      pt_position_size_usd trade = sz \<and>
      (pt_long_order trade, pt_short_order trade) = (if ?h then (h', e') else (e', h'))"
    using assms l s he sh se
    by (auto simp: execute_atomic_entry_def Let_def split: if_splits prod.splits)
  then show "\<not> sz \<le> lit 0" "\<not> avail < sz" "pt_status trade = Active" "pt_position_size_usd trade = sz"
    by blast+
  show "so_status (pt_long_order trade) = Filled" "so_status (pt_short_order trade) = Filled"
    "so_side (pt_long_order trade) = Long" "so_side (pt_short_order trade) = Short"
    "so_size (pt_long_order trade) = sz" "so_size (pt_short_order trade) = sz"
    "so_fill_price (pt_long_order trade) = Some (ao_long_price opp)"
    "so_fill_price (pt_short_order trade) = Some (ao_short_price opp)"
    "so_exchange (pt_long_order trade) = ao_long_exchange opp"
    "so_exchange (pt_short_order trade) = ao_short_exchange opp"
    using g he hf ef lf(1-4) sf(1-4) q(3,4) by (auto split: if_splits)
qed

lemma entry_trade:
  assumes "execute_atomic_entry E w opp avail sz = (w', Ok trade)"
  shows "pt_symbol trade = ao_symbol opp" "pt_exit_reason trade = None" "pt_leg_out_event trade = None"
  using assms by (auto simp: execute_atomic_entry_def Let_def split: if_splits prod.splits)

text \<open>Two behaviours worth knowing.  The volume assumed to trade on the harder leg is a quarter of the
  long book also when the harder leg is the short one, so an entry whose short book is deeper than 1.25
  times the long book is rejected.  And a hedge whose fill cannot be verified is placed again in full:
  the exchange has then accepted the target quantity three times and the caller gets an error.\<close>

lemma deep_short_book_rejected:
  "snd (execute_atomic_entry (paper_env nat_str) (paper_start Map.empty)
     (sample_opportunity ''bybit'' ''kucoin'' (lit 1000) (lit 10000)) (lit 500) (lit 100)) =
   Err (HarderLegFailed Short ''kucoin'')"
proof -
  have h: "identify_harder_leg ''bybit'' ''kucoin'' = ''short''"
    by (simp add: identify_harder_leg_def get_exchange_tier_def to_lowercase_def lower_char_def)
  have "\<not> lit 100 \<le> lit 0" "\<not> lit 500 < lit 100" "\<not> lit 10000 * lit 0.20 \<le> lit 1000 * lit 0.25"
    by code_simp+
  with h show ?thesis
    by (simp add: execute_atomic_entry_def sample_opportunity_def create_limit_order_def
        simulate_order_fill_def paper_env_def paper_new_uuid_def Let_def del: lit_numeral)
qed

lemma unverified_hedge_repeats:
  assumes "so_id template = []" "\<not> target - lit 0 \<le> lit 0"
  shows "\<exists>w' m'. place_market_order_with_retry (unverifiable_env uuid) w template target m =
    (w', m', Err (VerifyFailed ''timeout'')) \<and> pw_uuids w' = pw_uuids w + 3"
proof -
  have "[1..<MAX_RETRIES + 1] = [1, 2, 3]" by (simp add: MAX_RETRIES_def upt_rec)
  then show ?thesis
    using assms by (simp add: place_market_order_with_retry_def unverifiable_env_def paper_env_def
        paper_defs Let_def MAX_RETRIES_def)
qed

section \<open>Properties\<close>

text \<open>The harder leg is a property of the pair of exchanges: it depends on the names up to case, and
  swapping the exchanges of two different names swaps the answer, so exactly one exchange of a pair is
  always the one served first.\<close>

theorem harder_leg_symmetric:
  assumes "to_lowercase a \<noteq> to_lowercase b"
  shows "identify_harder_leg (to_lowercase a) (to_lowercase b) = identify_harder_leg a b \<and>
    (identify_harder_leg a b = ''long'' \<longleftrightarrow> identify_harder_leg b a = ''short'') \<and>
    identify_harder_leg a b \<in> {''long'', ''short''}"
  using str_less_total[OF assms] str_less_asym[of "to_lowercase a" "to_lowercase b"]
  by (auto simp: identify_harder_leg_def tier_lowercase Let_def)

text \<open>Position sizing: a position is either not taken or at least 10 and never more than the
  available capital or a tenth of the starting capital, and the slippage estimate never exceeds 5 basis
  points, whatever the book.\<close>

lemma sizing_bounds:
  assumes "available_capital \<noteq> NaN" and "starting_capital * lit 0.10 \<noteq> NaN"
    and "p = calculate_position_size spread available_capital fees funding starting_capital"
  shows "(p = lit 0 \<or> lit 10 \<le> p \<and> p \<le> available_capital \<and> p \<le> starting_capital * lit 0.10) \<and>
    calculate_slippage p depth \<le> lit 0.0005"
  using position_size_range[OF assms] fmin_le2[of "lit 0.0005"]
  by (simp add: calculate_slippage_def Let_def)

text \<open>A completed simulated entry is balanced: both legs are filled, on opposite sides, each with the
  full position size at the opportunity's price, and the size was positive and within the available
  capital.\<close>

lemma entry_is_balanced:
  assumes "execute_atomic_entry E w opp available_capital position_size = (w', Ok trade)"
    and "available_capital \<noteq> NaN" and "position_size \<noteq> NaN"
  shows "0 < position_size \<and> position_size \<le> available_capital \<and> pt_status trade = Active \<and>
    so_side (pt_long_order trade) = Long \<and> so_side (pt_short_order trade) = Short \<and>
    so_status (pt_long_order trade) = Filled \<and> so_status (pt_short_order trade) = Filled \<and>
    so_size (pt_long_order trade) = position_size \<and> so_size (pt_short_order trade) = position_size \<and>
    so_fill_price (pt_long_order trade) = Some (ao_long_price opp) \<and>
    so_fill_price (pt_short_order trade) = Some (ao_short_price opp)"
  using entry_completed[OF assms(1)] assms(2,3) f_not_le[of position_size 0]
    f_not_less[of available_capital position_size] by simp





end
