(* ===== verification/Entry_Real.thy ===== *)
theory Entry_Real
  imports Entry Depth_Checker Price_Chaser
begin

text \<open>
  src/src/strategy/entry.rs, second part: \<open>execute_atomic_entry_real\<close>, the two-leg entry through an
  execution backend.  The function is split at its steps, in the order of the source: checks,
  quantity, balances, pre-flight depth, placement of both legs, the polling loop (status, hedge and
  repricing of each leg, spread collapse, repricing limit), the final check and hedge, the exit orders.
  The code for the long and for the short leg is the same up to the exchanged roles, so a step takes
  the side as an argument.

  \<open>'w exec\<close> is the state a call works on: the world of the backend, the global hedge locks and halt
  flag, and the depth checker with its cache.  The hedge timing metrics only feed the log and are left
  out; \<open>hedge_loop_metrics\<close> shows that they do not influence a hedge.  The polling loop is a partial
  function: \<open>None\<close> would be a run that does not end.

  The lemmas show that the loop ends, that the hedge lock is released on every path, that trading is
  halted exactly when an emergency close failed, and what a returned trade guarantees.
\<close>

section \<open>State\<close>

record leg_state =
  ls_order :: simulated_order
  ls_filled :: bool
  ls_reprices :: u32
  ls_metrics :: repricing_metrics

record legs =
  lg_long :: leg_state
  lg_short :: leg_state

fun the_leg :: "order_side \<Rightarrow> legs \<Rightarrow> leg_state" where
  "the_leg Long l = lg_long l"
| "the_leg Short l = lg_short l"

fun upd_leg :: "order_side \<Rightarrow> (leg_state \<Rightarrow> leg_state) \<Rightarrow> legs \<Rightarrow> legs" where
  "upd_leg Long f l = l\<lparr>lg_long := f (lg_long l)\<rparr>"
| "upd_leg Short f l = l\<lparr>lg_short := f (lg_short l)\<rparr>"

abbreviation leg_order :: "order_side \<Rightarrow> legs \<Rightarrow> simulated_order" where
  "leg_order side l \<equiv> ls_order (the_leg side l)"

abbreviation leg_filled :: "order_side \<Rightarrow> legs \<Rightarrow> bool" where
  "leg_filled side l \<equiv> ls_filled (the_leg side l)"

fun leg_exchange :: "order_side \<Rightarrow> arbitrage_opportunity \<Rightarrow> string" where
  "leg_exchange Long opp = ao_long_exchange opp"
| "leg_exchange Short opp = ao_short_exchange opp"

fun leg_price :: "order_side \<Rightarrow> arbitrage_opportunity \<Rightarrow> f64" where
  "leg_price Long opp = ao_long_price opp"
| "leg_price Short opp = ao_short_price opp"

record 'w exec =
  ex_world :: 'w
  ex_locks :: hedge_locks
  ex_halted :: bool
  ex_depth :: depth_checker

datatype real_error =
  TradingHalted | NonPositiveSize | SizeExceedsCapital f64 f64 | QuantityTooSmall
| BalanceQueryFailed string string | InsufficientBalance string f64 f64
| DepthCheckFailed order_side string | InsufficientDepth f64 f64
| PlaceFailed order_side string | LockFailed string
| HedgeDepthInsufficient order_side f64 | EmergencyCloseFailed string
| HedgeAndCloseFailed order_side hedge_error string | HedgeFailed order_side hedge_error
| SpreadCollapsed f64 f64 | MaxReprices order_side u32 | NoFillInTime | HedgeIncomplete

text \<open>A call of the backend, and a fresh order of the given kind.\<close>

definition call :: "'w exec \<Rightarrow> 'w \<times> 'a \<Rightarrow> 'w exec \<times> 'a" where
  "call st p = (st\<lparr>ex_world := fst p\<rparr>, snd p)"

definition order_template ::
  "string \<Rightarrow> string \<Rightarrow> order_side \<Rightarrow> order_type \<Rightarrow> f64 \<Rightarrow> f64 \<Rightarrow> u64 \<Rightarrow> simulated_order" where
  "order_template exchange symbol side kind price sz t =
     \<lparr>so_id = [], so_exchange = exchange, so_symbol = symbol, so_side = side, so_order_type = kind,
      so_price = price, so_size = sz, so_queue_position = None, so_created_at = t,
      so_filled_at = None, so_fill_price = None, so_status = Pending\<rparr>"

definition check_depth ::
  "'w env \<Rightarrow> 'w exec \<Rightarrow> string \<Rightarrow> string \<Rightarrow> f64 \<Rightarrow> 'w exec \<times> (depth_check_result, string) result" where
  "check_depth E st exchange symbol q =
     (let (c, w, r) = check_depth_for_hedge E (ex_depth st) (ex_world st) exchange symbol q
      in (st\<lparr>ex_world := w, ex_depth := c\<rparr>, r))"

definition emergency_close ::
  "'w env \<Rightarrow> 'w exec \<Rightarrow> simulated_order \<Rightarrow> 'w exec \<times> (unit, string) result" where
  "emergency_close E st order =
     (let (w, h, r) = emergency_close_position E (ex_world st) (ex_halted st) order
      in (st\<lparr>ex_world := w, ex_halted := h\<rparr>, r))"

definition with_hedge_lock ::
  "string \<Rightarrow> ('w exec \<Rightarrow> 'w exec \<times> ('a, real_error) result) \<Rightarrow> 'w exec \<Rightarrow>
   'w exec \<times> ('a, real_error) result" where
  "with_hedge_lock symbol body st =
     (case try_acquire_hedge_lock (ex_locks st) symbol of
        (locks, Err e) \<Rightarrow> (st\<lparr>ex_locks := locks\<rparr>, Err (LockFailed e))
      | (locks, Ok guard) \<Rightarrow>
          let (st, r) = body (st\<lparr>ex_locks := locks\<rparr>)
          in (st\<lparr>ex_locks := HedgeLock_drop (ex_locks st) guard\<rparr>, r))"

section \<open>Checks, quantity, balances, depth\<close>

definition entry_checks ::
  "'w exec \<Rightarrow> f64 \<Rightarrow> f64 \<Rightarrow> 'w exec \<times> (unit, real_error) result" where
  "entry_checks st available_capital position_size =
     (if is_trading_halted (ex_halted st) then (st, Err TradingHalted)
      else if position_size \<le> lit 0 then (st, Err NonPositiveSize)
      else if position_size > available_capital
      then (st, Err (SizeExceedsCapital position_size available_capital))
      else (st, Ok ()))"

definition quantity_step :: "'w env \<Rightarrow> 'w exec \<Rightarrow> string \<Rightarrow> string \<Rightarrow> 'w exec \<times> f64" where
  "quantity_step E st exchange symbol =
     (let (st, r) = call st (get_quantity_step E (ex_world st) exchange symbol)
      in (st, case r of Ok s \<Rightarrow> s | Err _ \<Rightarrow> lit 0.1))"

definition round_to_step :: "f64 \<Rightarrow> f64 \<Rightarrow> f64" where
  "round_to_step q s = ffloor (q / s) * s"

definition contract_quantity_of ::
  "'w env \<Rightarrow> arbitrage_opportunity \<Rightarrow> f64 \<Rightarrow> 'w exec \<Rightarrow> 'w exec \<times> (f64, real_error) result" where
  "contract_quantity_of E opp position_size st =
     (let max_price = fmax (ao_long_price opp) (ao_short_price opp);
          raw_contract_quantity = position_size / max_price;
          (st, long_step) = quantity_step E st (ao_long_exchange opp) (ao_symbol opp);
          (st, short_step) = quantity_step E st (ao_short_exchange opp) (ao_symbol opp);
          long_rounded = round_to_step raw_contract_quantity long_step;
          short_rounded = round_to_step raw_contract_quantity short_step;
          contract_quantity = fmin long_rounded short_rounded
      in if contract_quantity \<le> lit 0 then (st, Err QuantityTooSmall)
         else (st, Ok contract_quantity))"

definition query_balance ::
  "'w env \<Rightarrow> string \<Rightarrow> 'w exec \<Rightarrow> 'w exec \<times> (f64, real_error) result" where
  "query_balance E exchange st =
     (let (st, r) = call st (get_available_balance E (ex_world st) exchange)
      in (st, map_err (BalanceQueryFailed exchange) r))"

definition check_balances ::
  "'w env \<Rightarrow> arbitrage_opportunity \<Rightarrow> f64 \<Rightarrow> 'w exec \<Rightarrow> 'w exec \<times> (unit, real_error) result" where
  "check_balances E opp position_size st =
     and_then (query_balance E (ao_long_exchange opp) st) (\<lambda>st long_balance.
     and_then (query_balance E (ao_short_exchange opp) st) (\<lambda>st short_balance.
       let required_margin = position_size * lit 1.2 in
       if long_balance < required_margin
       then (st, Err (InsufficientBalance (ao_long_exchange opp) long_balance required_margin))
       else if short_balance < required_margin
       then (st, Err (InsufficientBalance (ao_short_exchange opp) short_balance required_margin))
       else (st, Ok ())))"

definition set_leverage_and_margin :: "'w env \<Rightarrow> arbitrage_opportunity \<Rightarrow> 'w exec \<Rightarrow> 'w exec" where
  "set_leverage_and_margin E opp st =
     (let st = fst (call st (set_leverage E (ex_world st) (ao_long_exchange opp) (ao_symbol opp) 1));
          st = fst (call st (set_leverage E (ex_world st) (ao_short_exchange opp) (ao_symbol opp) 1));
          st = fst (call st (set_margin_type_isolated E (ex_world st) (ao_long_exchange opp) (ao_symbol opp)));
          st = fst (call st (set_margin_type_isolated E (ex_world st) (ao_short_exchange opp) (ao_symbol opp)))
      in st)"

definition leg_depth ::
  "'w env \<Rightarrow> arbitrage_opportunity \<Rightarrow> f64 \<Rightarrow> order_side \<Rightarrow> 'w exec \<Rightarrow>
   'w exec \<times> (depth_check_result, real_error) result" where
  "leg_depth E opp q side st =
     (let (st, r) = check_depth E st (leg_exchange side opp) (ao_symbol opp) q
      in (st, map_err (DepthCheckFailed side) r))"

definition depth_verdict_of ::
  "'w exec \<Rightarrow> depth_check_result \<Rightarrow> depth_check_result \<Rightarrow> 'w exec \<times> (unit, real_error) result" where
  "depth_verdict_of st long_depth short_depth =
     (if should_abort long_depth \<or> should_abort short_depth
      then (st, Err (InsufficientDepth (dcr_depth_ratio long_depth) (dcr_depth_ratio short_depth)))
      else (st, Ok ()))"

definition preflight_depth ::
  "'w env \<Rightarrow> repricing_config \<Rightarrow> arbitrage_opportunity \<Rightarrow> f64 \<Rightarrow> 'w exec \<Rightarrow>
   'w exec \<times> (unit, real_error) result" where
  "preflight_depth E config opp q st =
     (case rc_execution_mode config of
        UltraFast \<Rightarrow> (st, Ok ())
      | Balanced \<Rightarrow>
          let (st, long_result) = leg_depth E opp q Long st;
              (st, short_result) = leg_depth E opp q Short st
          in and_then (st, long_result) (\<lambda>st long_depth.
             and_then (st, short_result) (\<lambda>st short_depth. depth_verdict_of st long_depth short_depth))
      | Safe \<Rightarrow>
          and_then (leg_depth E opp q Long st) (\<lambda>st long_depth.
          and_then (leg_depth E opp q Short st) (\<lambda>st short_depth.
            depth_verdict_of st long_depth short_depth)))"

section \<open>Placing both legs\<close>

definition place_both_legs ::
  "'w env \<Rightarrow> simulated_order \<Rightarrow> simulated_order \<Rightarrow> 'w exec \<Rightarrow>
   'w exec \<times> (simulated_order \<times> simulated_order, real_error) result" where
  "place_both_legs E long_template short_template st =
     (let (st, long_result) = call st (place_order E (ex_world st) long_template);
          (st, short_result) = call st (place_order E (ex_world st) short_template)
      in case long_result of
           Err e \<Rightarrow> (st, Err (PlaceFailed Long e))
         | Ok long_order \<Rightarrow>
             (case short_result of
                Err e \<Rightarrow>
                  (fst (call st (cancel_order E (ex_world st) (so_exchange long_order) (so_id long_order))),
                   Err (PlaceFailed Short e))
              | Ok short_order \<Rightarrow> (st, Ok (long_order, short_order))))"

definition new_leg :: "simulated_order \<Rightarrow> leg_state" where
  "new_leg order = \<lparr>ls_order = order, ls_filled = False, ls_reprices = 0,
     ls_metrics = RepricingMetrics_new (so_price order)\<rparr>"

section \<open>Hedging the other leg\<close>

text \<open>How a step of the loop body ends: with the next step, with the next turn, or by leaving the
  loop.\<close>

datatype flow = Proceed legs | NextTurn legs | LeaveLoop legs

definition mark_filled :: "'w env \<Rightarrow> 'w exec \<Rightarrow> order_side \<Rightarrow> f64 \<Rightarrow> legs \<Rightarrow> legs" where
  "mark_filled E st side q l =
     upd_leg side (\<lambda>s. s\<lparr>ls_filled := True,
       ls_order := (ls_order s)\<lparr>so_status := Filled, so_filled_at := Some (unix_secs E (ex_world st)),
         so_fill_price := Some (so_price (ls_order s)), so_size := q\<rparr>\<rparr>) l"

definition set_size :: "order_side \<Rightarrow> f64 \<Rightarrow> legs \<Rightarrow> legs" where
  "set_size side q l = upd_leg side (\<lambda>s. s\<lparr>ls_order := (ls_order s)\<lparr>so_size := q\<rparr>\<rparr>) l"

definition take_order :: "order_side \<Rightarrow> simulated_order \<Rightarrow> legs \<Rightarrow> legs" where
  "take_order side order l = upd_leg side (\<lambda>s. s\<lparr>ls_order := order, ls_filled := True\<rparr>) l"

text \<open>The leg \<open>side\<close> holds \<open>q_more\<close>, the other one \<open>q_less\<close>: sell or buy back the difference.\<close>

definition balance_leg ::
  "'w env \<Rightarrow> arbitrage_opportunity \<Rightarrow> order_side \<Rightarrow> f64 \<Rightarrow> f64 \<Rightarrow> 'w exec \<Rightarrow> legs \<Rightarrow> 'w exec \<times> legs" where
  "balance_leg E opp side q_more q_less st l =
     (let diff = q_more - q_less;
          balance_order = order_template (leg_exchange side opp) (ao_symbol opp) (opposite side) Market
            (leg_price side opp) diff (unix_secs E (ex_world st))
      in case call st (place_market_order E (ex_world st) balance_order) of
           (st, Ok _) \<Rightarrow> (st, set_size side q_less l)
         | (st, Err _) \<Rightarrow> (st, l))"

definition balance_legs ::
  "'w env \<Rightarrow> arbitrage_opportunity \<Rightarrow> f64 \<Rightarrow> f64 \<Rightarrow> 'w exec \<Rightarrow> legs \<Rightarrow> 'w exec \<times> legs" where
  "balance_legs E opp long_qty short_qty st l =
     (if \<bar>long_qty - short_qty\<bar> > lit 0.001
      then if long_qty > short_qty then balance_leg E opp Long long_qty short_qty st l
           else balance_leg E opp Short short_qty long_qty st l
      else (st, l))"

definition close_then ::
  "'w env \<Rightarrow> simulated_order \<Rightarrow> real_error \<Rightarrow> (string \<Rightarrow> real_error) \<Rightarrow> 'w exec \<Rightarrow>
   'w exec \<times> ('a, real_error) result" where
  "close_then E order when_closed when_failed st =
     (case emergency_close E st order of
        (st, Err e) \<Rightarrow> (st, Err (when_failed e))
      | (st, Ok _) \<Rightarrow> (st, Err when_closed))"

definition market_hedge ::
  "'w env \<Rightarrow> arbitrage_opportunity \<Rightarrow> order_side \<Rightarrow> f64 \<Rightarrow> u64 \<Rightarrow> legs \<Rightarrow> 'w exec \<Rightarrow>
   'w exec \<times> (legs, real_error) result" where
  "market_hedge E opp side q t l st =
     (let other = opposite side;
          template = order_template (leg_exchange other opp) (ao_symbol opp) other Market
            (leg_price other opp) q t;
          (w, m, r) = place_market_order_with_retry E (ex_world st) template q None;
          st = st\<lparr>ex_world := w\<rparr>
      in case r of
           Ok filled_order \<Rightarrow> (st, Ok (take_order other filled_order l))
         | Err e \<Rightarrow> close_then E (leg_order side l) (HedgeFailed side e) (HedgeAndCloseFailed side e) st)"

text \<open>The depth check before a hedge: an insufficient book closes the filled leg.\<close>

definition hedge_depth_gate ::
  "'w env \<Rightarrow> arbitrage_opportunity \<Rightarrow> order_side \<Rightarrow> f64 \<Rightarrow> legs \<Rightarrow> 'w exec \<Rightarrow>
   'w exec \<times> (unit, real_error) result" where
  "hedge_depth_gate E opp side q l st =
     (case check_depth E st (so_exchange (leg_order (opposite side) l)) (ao_symbol opp) q of
        (st, Ok hedge_depth) \<Rightarrow>
          if should_abort hedge_depth
          then close_then E (leg_order side l) (HedgeDepthInsufficient side (dcr_depth_ratio hedge_depth))
            EmergencyCloseFailed st
          else (st, Ok ())
      | (st, Err _) \<Rightarrow> (st, Ok ()))"

definition cancel_leg :: "'w env \<Rightarrow> order_side \<Rightarrow> legs \<Rightarrow> 'w exec \<Rightarrow> 'w exec" where
  "cancel_leg E side l st =
     fst (call st (cancel_order E (ex_world st) (so_exchange (leg_order side l)) (so_id (leg_order side l))))"

text \<open>The leg \<open>side\<close> was found filled with \<open>q\<close> while the other one was not.\<close>

definition hedge_other_leg ::
  "'w env \<Rightarrow> arbitrage_opportunity \<Rightarrow> order_side \<Rightarrow> f64 \<Rightarrow> legs \<Rightarrow> 'w exec \<Rightarrow>
   'w exec \<times> (flow, real_error) result" where
  "hedge_other_leg E opp side q l =
     with_hedge_lock (ao_symbol opp) (\<lambda>st.
       let (st, status) = call st (check_both_legs_status E (ex_world st) (leg_order Long l) (leg_order Short l))
       in case status of
            Ok (BothFilled long_qty short_qty) \<Rightarrow>
              let (st, l) = balance_legs E opp long_qty short_qty st l;
                  other = opposite side
              in (st, Ok (NextTurn (mark_filled E st other
                   (case other of Long \<Rightarrow> long_qty | Short \<Rightarrow> short_qty) l)))
          | _ \<Rightarrow>
              and_then (hedge_depth_gate E opp side q l st) (\<lambda>st _.
              and_then (market_hedge E opp side q (unix_secs E (ex_world st)) l
                  (cancel_leg E (opposite side) l st)) (\<lambda>st l.
                (st, Ok (Proceed l)))))"

section \<open>The polling loop\<close>

definition poll_leg ::
  "'w env \<Rightarrow> arbitrage_opportunity \<Rightarrow> order_side \<Rightarrow> legs \<Rightarrow> 'w exec \<Rightarrow>
   'w exec \<times> (flow, real_error) result" where
  "poll_leg E opp side l st =
     (if leg_filled side l then (st, Ok (Proceed l))
      else case call st (get_order_status_detailed E (ex_world st) (so_exchange (leg_order side l))
                    (so_id (leg_order side l)) (ao_symbol opp)) of
        (st, Err _) \<Rightarrow> (st, Ok (Proceed l))
      | (st, Ok status_info) \<Rightarrow>
          if is_fully_filled status_info then
            let l = mark_filled E st side (osi_filled_quantity status_info) l in
            if \<not> leg_filled (opposite side) l
            then hedge_other_leg E opp side (osi_filled_quantity status_info) l st
            else (st, Ok (Proceed l))
          else if is_partially_filled status_info then (st, Ok (Proceed l))
          else if osi_status status_info = Cancelled then (st, Ok (LeaveLoop l))
          else (st, Ok (Proceed l)))"

definition reprice_leg ::
  "'w env \<Rightarrow> repricing_config \<Rightarrow> order_side \<Rightarrow> legs \<Rightarrow> 'w exec \<Rightarrow> 'w exec \<times> legs" where
  "reprice_leg E config side l st =
     (if \<not> leg_filled side l \<and> ls_reprices (the_leg side l) < rc_max_reprices config then
        case call st (get_best_price_for_order E (ex_world st) (leg_order side l)) of
          (st, Err _) \<Rightarrow> (st, l)
        | (st, Ok best_price) \<Rightarrow>
            if should_reprice config (so_price (leg_order side l)) best_price then
              let (w, metrics, r) = reprice_order E (ex_world st) (leg_order side l) best_price
                    (ls_metrics (the_leg side l));
                  st = st\<lparr>ex_world := w\<rparr>;
                  l = upd_leg side (\<lambda>s. s\<lparr>ls_metrics := metrics\<rparr>) l
              in case r of
                   Ok new_order \<Rightarrow>
                     (st, upd_leg side (\<lambda>s. s\<lparr>ls_order := new_order, ls_reprices := ls_reprices s + 1\<rparr>) l)
                 | Err _ \<Rightarrow> (st, l)
            else (st, l)
      else (st, l))"

definition cancel_both :: "'w env \<Rightarrow> legs \<Rightarrow> 'w exec \<Rightarrow> 'w exec" where
  "cancel_both E l st = cancel_leg E Short l (cancel_leg E Long l st)"

definition spread_bps_of :: "f64 \<Rightarrow> f64 \<Rightarrow> f64" where
  "spread_bps_of long_price short_price = ((short_price - long_price) / long_price) * lit 10000"

text \<open>Spread collapse, then the repricing limit of the long and of the short leg.\<close>

definition abort_checks ::
  "'w env \<Rightarrow> repricing_config \<Rightarrow> arbitrage_opportunity \<Rightarrow> legs \<Rightarrow> 'w exec \<Rightarrow>
   'w exec \<times> (unit, real_error) result" where
  "abort_checks E config opp l st =
     (let initial_spread_bps = spread_bps_of (ao_long_price opp) (ao_short_price opp);
          current_spread_bps = spread_bps_of (so_price (leg_order Long l)) (so_price (leg_order Short l));
          spread_change = \<bar>initial_spread_bps - current_spread_bps\<bar>
      in if \<not> leg_filled Long l \<and> \<not> leg_filled Short l \<and>
            spread_change > rc_spread_collapse_threshold_bps config
         then (cancel_both E l st, Err (SpreadCollapsed initial_spread_bps current_spread_bps))
         else if ls_reprices (lg_long l) \<ge> rc_max_reprices config \<and> \<not> leg_filled Long l
         then (cancel_both E l st, Err (MaxReprices Long (rc_max_reprices config)))
         else if ls_reprices (lg_short l) \<ge> rc_max_reprices config \<and> \<not> leg_filled Short l
         then (cancel_both E l st, Err (MaxReprices Short (rc_max_reprices config)))
         else (st, Ok ()))"

text \<open>One turn: \<open>Inl\<close> goes on with the loop, \<open>Inr\<close> leaves it.\<close>

definition poll_turn ::
  "'w env \<Rightarrow> repricing_config \<Rightarrow> arbitrage_opportunity \<Rightarrow> legs \<Rightarrow> 'w exec \<Rightarrow>
   'w exec \<times> (legs + legs, real_error) result" where
  "poll_turn E config opp l st =
     (let st = st\<lparr>ex_world := sleep_ms E (ex_world st) (unat (rc_reprice_interval_ms config))\<rparr> in
      and_then (poll_leg E opp Long l st) (\<lambda>st long_flow.
        case long_flow of
          NextTurn l \<Rightarrow> (st, Ok (Inl l))
        | LeaveLoop l \<Rightarrow> (st, Ok (Inr l))
        | Proceed l \<Rightarrow>
            let (st, l) = reprice_leg E config Long l st in
            and_then (poll_leg E opp Short l st) (\<lambda>st short_flow.
              case short_flow of
                NextTurn l \<Rightarrow> (st, Ok (Inl l))
              | LeaveLoop l \<Rightarrow> (st, Ok (Inr l))
              | Proceed l \<Rightarrow>
                  let (st, l) = reprice_leg E config Short l st in
                  and_then (abort_checks E config opp l st) (\<lambda>st _.
                    if leg_filled Long l \<and> leg_filled Short l then (st, Ok (Inr l))
                    else (st, Ok (Inl l))))))"

partial_function (option) poll_loop ::
  "'w env \<Rightarrow> repricing_config \<Rightarrow> arbitrage_opportunity \<Rightarrow> instant \<Rightarrow> nat \<Rightarrow> legs \<Rightarrow> 'w exec \<Rightarrow>
   ('w exec \<times> (legs, real_error) result) option" where
  "poll_loop E config opp start timeout l st =
     (if duration_since (instant_now E (ex_world st)) start < timeout \<and>
         (\<not> leg_filled Long l \<or> \<not> leg_filled Short l)
      then let (st, r) = poll_turn E config opp l st in
        (case r of
           Ok next_turn \<Rightarrow>
             (case next_turn of
                Inl l \<Rightarrow> poll_loop E config opp start timeout l st
              | Inr l \<Rightarrow> Some (st, Ok l))
         | Err e \<Rightarrow> Some (st, Err e))
      else Some (st, Ok l))"

section \<open>Final check and hedge\<close>

definition final_check_leg ::
  "'w env \<Rightarrow> arbitrage_opportunity \<Rightarrow> order_side \<Rightarrow> legs \<Rightarrow> 'w exec \<Rightarrow> 'w exec \<times> legs" where
  "final_check_leg E opp side l st =
     (case call st (get_order_status_detailed E (ex_world st) (so_exchange (leg_order side l))
             (so_id (leg_order side l)) (ao_symbol opp)) of
        (st, Ok status) \<Rightarrow>
          (st, if is_fully_filled status
               then upd_leg side (\<lambda>s. s\<lparr>ls_filled := True, ls_order := (ls_order s)
                 \<lparr>so_status := Filled, so_size := osi_filled_quantity status\<rparr>\<rparr>) l
               else l)
      | (st, Err _) \<Rightarrow> (st, l))"

definition final_check ::
  "'w env \<Rightarrow> arbitrage_opportunity \<Rightarrow> legs \<Rightarrow> 'w exec \<Rightarrow> 'w exec \<times> (legs, real_error) result" where
  "final_check E opp l st =
     (if \<not> leg_filled Long l \<and> \<not> leg_filled Short l then
        let (st, l) = final_check_leg E opp Long l st;
            (st, l) = final_check_leg E opp Short l st
        in if \<not> leg_filled Long l \<and> \<not> leg_filled Short l
           then (cancel_both E l st, Err NoFillInTime)
           else (st, Ok l)
      else (st, Ok l))"

definition fill_with :: "order_side \<Rightarrow> f64 \<Rightarrow> legs \<Rightarrow> legs" where
  "fill_with side q l =
     upd_leg side (\<lambda>s. s\<lparr>ls_filled := True, ls_order := (ls_order s)\<lparr>so_size := q\<rparr>\<rparr>) l"

text \<open>The limit order at the best price of the other side of the book, left for two seconds.\<close>

definition aggressive_limit ::
  "'w env \<Rightarrow> arbitrage_opportunity \<Rightarrow> order_side \<Rightarrow> f64 \<Rightarrow> f64 \<Rightarrow> legs \<Rightarrow> 'w exec \<Rightarrow>
   'w exec \<times> f64 \<times> legs" where
  "aggressive_limit E opp other remaining total_filled l st =
     (let exchange = leg_exchange other opp; symbol = ao_symbol opp in
      case (case other of
              Short \<Rightarrow> call st (get_best_bid E (ex_world st) exchange symbol)
            | Long \<Rightarrow> call st (get_best_ask E (ex_world st) exchange symbol)) of
        (st, Err _) \<Rightarrow> (st, total_filled, l)
      | (st, Ok best_price) \<Rightarrow>
          let (st, u) = call st (new_uuid E (ex_world st));
              limit_order = (order_template exchange symbol other Limit best_price remaining
                (unix_secs E (ex_world st)))\<lparr>so_id := ''aggressive_hedge_'' @ u\<rparr>
          in case call st (place_order E (ex_world st) limit_order) of
               (st, Err _) \<Rightarrow> (st, total_filled, l)
             | (st, Ok placed_order) \<Rightarrow>
                 let st = st\<lparr>ex_world := sleep_ms E (ex_world st) 2000\<rparr> in
                 case call st (get_order_status_detailed E (ex_world st) exchange (so_id placed_order) symbol) of
                   (st, Ok status_info) \<Rightarrow>
                     let total_filled = total_filled + osi_filled_quantity status_info in
                     if osi_filled_quantity status_info \<ge> remaining
                     then (st, total_filled, take_order other (placed_order\<lparr>so_size := total_filled\<rparr>) l)
                     else (fst (call st (cancel_order E (ex_world st) exchange (so_id placed_order))),
                           total_filled, l)
                 | (st, Err _) \<Rightarrow>
                     (fst (call st (cancel_order E (ex_world st) exchange (so_id placed_order))),
                      total_filled, l))"

definition final_hedge ::
  "'w env \<Rightarrow> arbitrage_opportunity \<Rightarrow> order_side \<Rightarrow> legs \<Rightarrow> 'w exec \<Rightarrow>
   'w exec \<times> (legs, real_error) result" where
  "final_hedge E opp side l =
     with_hedge_lock (ao_symbol opp) (\<lambda>st.
       let hedge_quantity = so_size (leg_order side l); other = opposite side in
       and_then (hedge_depth_gate E opp side hedge_quantity l st) (\<lambda>st _.
         let st = cancel_leg E other l st;
             (st, status) = call st (get_order_status_detailed E (ex_world st)
               (so_exchange (leg_order other l)) (so_id (leg_order other l)) (ao_symbol opp));
             total_filled = (case status of Ok status_info \<Rightarrow> lit 0 + osi_filled_quantity status_info
               | Err _ \<Rightarrow> lit 0)
         in if total_filled \<ge> hedge_quantity then (st, Ok (fill_with other total_filled l))
            else
              let (st, total_filled, l) =
                    aggressive_limit E opp other (hedge_quantity - total_filled) total_filled l st
              in if total_filled \<ge> hedge_quantity then (st, Ok (fill_with other total_filled l))
                 else market_hedge E opp side (hedge_quantity - total_filled)
                   (unix_secs E (ex_world st)) l st))"

section \<open>The trade\<close>

definition place_exit ::
  "'w env \<Rightarrow> simulated_order \<Rightarrow> 'w exec \<Rightarrow> 'w exec \<times> simulated_order option" where
  "place_exit E template st =
     (case call st (place_order E (ex_world st) template) of
        (st, Ok order) \<Rightarrow> (st, Some order)
      | (st, Err _) \<Rightarrow> (st, None))"

definition finish_trade ::
  "'w env \<Rightarrow> arbitrage_opportunity \<Rightarrow> f64 \<Rightarrow> u64 \<Rightarrow> legs \<Rightarrow> 'w exec \<Rightarrow>
   'w exec \<times> (paper_trade, real_error) result" where
  "finish_trade E opp position_size t l st =
     (if \<not> leg_filled Long l \<or> \<not> leg_filled Short l then (st, Err HedgeIncomplete)
      else
        let (st, trade_id) = call st (new_uuid E (ex_world st));
            entry_spread_bps = spread_bps_of (ao_long_price opp) (ao_short_price opp);
            spread_amount = ao_short_price opp - ao_long_price opp;
            target_capture = spread_amount * lit 0.9;
            long_exit_price = ao_long_price opp + target_capture;
            short_exit_price = ao_short_price opp - target_capture;
            stop_loss_spread = spread_amount * lit 1.3;
            long_stop_price = ao_short_price opp - stop_loss_spread;
            short_stop_price = ao_long_price opp + stop_loss_spread;
            long_exit_template = order_template (ao_long_exchange opp) (ao_symbol opp) Short Limit
              long_exit_price (so_size (leg_order Long l)) (unix_secs E (ex_world st));
            short_exit_template = order_template (ao_short_exchange opp) (ao_symbol opp) Long Limit
              short_exit_price (so_size (leg_order Short l)) (unix_secs E (ex_world st));
            (st, long_exit_order) = place_exit E long_exit_template st;
            (st, short_exit_order) = place_exit E short_exit_template st
        in (st, Ok \<lparr>pt_id = trade_id, pt_symbol = ao_symbol opp,
              pt_long_exchange = ao_long_exchange opp, pt_short_exchange = ao_short_exchange opp,
              pt_entry_time = t, pt_entry_long_price = ao_long_price opp,
              pt_entry_short_price = ao_short_price opp, pt_entry_spread_bps = entry_spread_bps,
              pt_position_size_usd = position_size, pt_funding_delta_entry = ao_funding_delta_8h opp,
              pt_projected_profit_usd = ao_projected_profit_after_slippage opp,
              pt_actual_profit_usd = lit 0, pt_status = Active, pt_exit_reason = None,
              pt_exit_spread_bps = None, pt_exit_time = None, pt_long_order = leg_order Long l,
              pt_short_order = leg_order Short l, pt_long_exit_order = long_exit_order,
              pt_short_exit_order = short_exit_order, pt_stop_loss_triggered = False,
              pt_stop_loss_long_price = long_stop_price, pt_stop_loss_short_price = short_stop_price,
              pt_leg_out_event = None\<rparr>))"

section \<open>execute_atomic_entry_real\<close>

definition config_of :: "arbitrage_opportunity \<Rightarrow> repricing_config" where
  "config_of opp = RepricingConfig_from_confidence (nat_as_f64 (unat (ao_confidence_score opp)))"

text \<open>Everything up to the two resting limit orders.\<close>

definition entry_prepare ::
  "'w env \<Rightarrow> arbitrage_opportunity \<Rightarrow> f64 \<Rightarrow> f64 \<Rightarrow> 'w exec \<Rightarrow> 'w exec \<times> (u64 \<times> legs, real_error) result" where
  "entry_prepare E opp available_capital position_size st =
     and_then (entry_checks st available_capital position_size) (\<lambda>st _.
       let t = unix_secs E (ex_world st) in
       and_then (contract_quantity_of E opp position_size st) (\<lambda>st contract_quantity.
         let long_template = order_template (ao_long_exchange opp) (ao_symbol opp) Long Limit
               (ao_long_price opp) contract_quantity t;
             short_template = order_template (ao_short_exchange opp) (ao_symbol opp) Short Limit
               (ao_short_price opp) contract_quantity t
         in and_then (check_balances E opp position_size st) (\<lambda>st _.
              let st = set_leverage_and_margin E opp (st\<lparr>ex_depth := DepthChecker_new\<rparr>) in
              and_then (preflight_depth E (config_of opp) opp contract_quantity st) (\<lambda>st _.
              and_then (place_both_legs E long_template short_template st) (\<lambda>st (long_order, short_order).
                (st, Ok (t, \<lparr>lg_long = new_leg long_order, lg_short = new_leg short_order\<rparr>)))))))"

text \<open>Everything after the polling loop.\<close>

definition entry_complete ::
  "'w env \<Rightarrow> arbitrage_opportunity \<Rightarrow> f64 \<Rightarrow> u64 \<Rightarrow> legs \<Rightarrow> 'w exec \<Rightarrow>
   'w exec \<times> (paper_trade, real_error) result" where
  "entry_complete E opp position_size t l st =
     and_then (final_check E opp l st) (\<lambda>st l.
     and_then (if leg_filled Long l \<and> \<not> leg_filled Short l then final_hedge E opp Long l st else (st, Ok l)) (\<lambda>st l.
     and_then (if leg_filled Short l \<and> \<not> leg_filled Long l then final_hedge E opp Short l st else (st, Ok l)) (\<lambda>st l.
       finish_trade E opp position_size t l st)))"

definition execute_atomic_entry_real ::
  "'w env \<Rightarrow> arbitrage_opportunity \<Rightarrow> f64 \<Rightarrow> f64 \<Rightarrow> 'w exec \<Rightarrow>
   ('w exec \<times> (paper_trade, real_error) result) option" where
  "execute_atomic_entry_real E opp available_capital position_size st =
     (case entry_prepare E opp available_capital position_size st of
        (st, Err e) \<Rightarrow> Some (st, Err e)
      | (st, Ok (t, l)) \<Rightarrow>
          let config = config_of opp;
              timeout = from_millis (unat (rc_total_timeout_seconds config * 1000));
              start = instant_now E (ex_world st)
          in case poll_loop E config opp start timeout l st of
               None \<Rightarrow> None
             | Some (st, Err e) \<Rightarrow> Some (st, Err e)
             | Some (st, Ok l) \<Rightarrow> Some (entry_complete E opp position_size t l st))"

section \<open>What every step keeps\<close>

fun close_failed :: "('a, real_error) result \<Rightarrow> bool" where
  "close_failed (Err (EmergencyCloseFailed e)) = True"
| "close_failed (Err (HedgeAndCloseFailed side e c)) = True"
| "close_failed _ = False"

text \<open>A step leaves the hedge locks as they were and sets the halt flag exactly when an emergency close
  failed; \<open>steady\<close> adds that the clock has not run backwards.\<close>

definition frames :: "'w exec \<Rightarrow> 'w exec \<times> ('a, real_error) result \<Rightarrow> bool" where
  "frames st p \<longleftrightarrow> ex_locks (fst p) = ex_locks st \<and>
     (ex_halted (fst p) \<longleftrightarrow> ex_halted st \<or> close_failed (snd p))"

definition steady :: "'w env \<Rightarrow> 'w exec \<Rightarrow> 'w exec \<times> ('a, real_error) result \<Rightarrow> bool" where
  "steady E st p \<longleftrightarrow> frames st p \<and> instant_now E (ex_world st) \<le> instant_now E (ex_world (fst p))"

definition moves :: "'w env \<Rightarrow> 'w exec \<Rightarrow> 'w exec \<Rightarrow> bool" where
  "moves E st st' \<longleftrightarrow> ex_locks st' = ex_locks st \<and> ex_halted st' = ex_halted st \<and>
     instant_now E (ex_world st) \<le> instant_now E (ex_world st')"

section \<open>Concrete inputs\<close>

text \<open>The quantity on the paper backend, whose quantity step is 0.1.\<close>

definition paper_quantity :: "arbitrage_opportunity \<Rightarrow> f64 \<Rightarrow> f64" where
  "paper_quantity opp s = round_to_step (s / fmax (ao_long_price opp) (ao_short_price opp)) (lit 0.1)"

definition paper_exec :: "paper_world \<Rightarrow> paper_world exec" where
  "paper_exec w = \<lparr>ex_world = w, ex_locks = no_locks, ex_halted = False, ex_depth = DepthChecker_new\<rparr>"

definition sample_balances :: "string \<rightharpoonup> f64" where
  "sample_balances = [''bybit'' \<mapsto> lit 1000, ''okx'' \<mapsto> lit 1000]"

text \<open>A backend that refuses long limit orders.\<close>

definition refusing_env :: "paper_world env" where
  "refusing_env = (paper_env nat_str)
     \<lparr>place_order := (\<lambda>w order. if so_side order = Long then (w, Err ''rejected'')
        else PaperTradingBackend_place_order nat_str w order)\<rparr>"

section \<open>Lemmas\<close>

lemma call_sels [simp]:
  "ex_locks (fst (call st p)) = ex_locks st" "ex_halted (fst (call st p)) = ex_halted st"
  "ex_depth (fst (call st p)) = ex_depth st" "ex_world (fst (call st p)) = fst p"
  "snd (call st p) = snd p"
  by (simp_all add: call_def)

lemma callD: "call st p = (st', r) \<Longrightarrow> st' = st\<lparr>ex_world := fst p\<rparr> \<and> r = snd p"
  by (simp add: call_def)

lemma frames_and_then:
  assumes "frames st p" "\<And>st' x. p = (st', Ok x) \<Longrightarrow> frames st' (f st' x)"
  shows "frames st (and_then p f)"
proof (cases p)
  case (Pair st' r)
  show ?thesis
  proof (cases r)
    case (Ok x)
    with Pair assms(1) assms(2)[of st' x] show ?thesis by (simp add: frames_def and_then_def)
  next
    case (Err e)
    with Pair assms(1) show ?thesis by (cases e) (simp_all add: frames_def and_then_def)
  qed
qed

lemma frames_Ok [simp]: "frames st (st, Ok x)"
  by (simp add: frames_def)

lemma steady_and_then:
  assumes "steady E st p" "\<And>st' x. p = (st', Ok x) \<Longrightarrow> steady E st' (f st' x)"
  shows "steady E st (and_then p f)"
proof (cases p)
  case (Pair st' r)
  have "frames st (and_then p f)"
    using assms by (intro frames_and_then) (auto simp: steady_def)
  moreover have "instant_now E (ex_world st) \<le> instant_now E (ex_world (fst (and_then p f)))"
    using Pair assms(1) assms(2)[of st']
    by (cases r) (auto simp: steady_def and_then_def intro: order_trans)
  ultimately show ?thesis by (simp add: steady_def)
qed

lemma steady_moves: "moves E st st' \<Longrightarrow> steady E st' p \<Longrightarrow> steady E st p"
  by (auto simp: moves_def steady_def frames_def)

lemma moves_trans: "moves E st st' \<Longrightarrow> moves E st' st'' \<Longrightarrow> moves E st st''"
  by (auto simp: moves_def)

lemma moves_refl [simp]: "moves E st st"
  by (simp add: moves_def)

lemma steady_here [simp]: "steady E st (st, Ok x)"
  by (simp add: steady_def)

lemma steady_Ok: "moves E st st' \<Longrightarrow> steady E st (st', Ok x)"
  by (auto simp: moves_def steady_def frames_def)

lemma steady_Err: "moves E st st' \<Longrightarrow> \<not> close_failed (Err e :: ('a, real_error) result) \<Longrightarrow>
   steady E st (st', Err e :: ('a, real_error) result)"
  by (auto simp: moves_def steady_def frames_def)

lemma drop_acquired:
  "\<not> poisoned locks \<Longrightarrow> s \<notin> locked locks \<Longrightarrow>
   HedgeLock_drop (locks\<lparr>locked := insert s (locked locks)\<rparr>) \<lparr>hl_symbol = s\<rparr> = locks"
  by (simp add: HedgeLock_drop_def)

text \<open>The lock is released whatever the body returns.\<close>

lemma steady_with_hedge_lock:
  assumes "\<And>locks. steady E (st\<lparr>ex_locks := locks\<rparr>) (body (st\<lparr>ex_locks := locks\<rparr>))"
  shows "steady E st (with_hedge_lock symbol body st)"
proof (cases "try_acquire_hedge_lock (ex_locks st) symbol")
  case (Pair locks r)
  show ?thesis
  proof (cases r)
    case (Ok guard)
    then have a: "\<not> poisoned (ex_locks st)" "symbol \<notin> locked (ex_locks st)"
      "locks = (ex_locks st)\<lparr>locked := insert symbol (locked (ex_locks st))\<rparr>" "guard = \<lparr>hl_symbol = symbol\<rparr>"
      using Pair try_acquire_simps(1) by blast+
    show ?thesis
      using assms[of locks] Pair Ok drop_acquired[OF a(1,2)] a(3,4)
      by (auto simp: with_hedge_lock_def steady_def frames_def split: prod.splits)
  next
    case (Err e)
    then have "locks = ex_locks st" using Pair try_acquire_simps(2) by blast
    then show ?thesis using Pair Err by (simp add: with_hedge_lock_def steady_def frames_def)
  qed
qed

text \<open>Before the polling loop no step closes a position or takes a lock.\<close>

lemma frames_entry_checks: "frames st (entry_checks st c s)"
  by (simp add: entry_checks_def frames_def)

lemma frames_contract_quantity: "frames st (contract_quantity_of E opp s st)"
  by (simp add: contract_quantity_of_def quantity_step_def frames_def case_prod_unfold Let_def)

lemma frames_query_balance: "frames st (query_balance E ex st)"
  by (cases "snd (get_available_balance E (ex_world st) ex)")
    (simp_all add: query_balance_def frames_def case_prod_unfold)

lemma frames_check_balances: "frames st (check_balances E opp s st)"
  unfolding check_balances_def
  by (intro frames_and_then frames_query_balance) (simp add: frames_def Let_def)

lemma leverage_keeps [simp]:
  "ex_locks (set_leverage_and_margin E opp st) = ex_locks st"
  "ex_halted (set_leverage_and_margin E opp st) = ex_halted st"
  by (simp_all add: set_leverage_and_margin_def Let_def)

lemma leg_depth_keeps:
  assumes "leg_depth E opp q side st = (st', r)"
  shows "ex_locks st' = ex_locks st" "ex_halted st' = ex_halted st"
    "r = Err e \<Longrightarrow> \<exists>m. e = DepthCheckFailed side m"
proof -
  obtain c w r0 where d: "check_depth_for_hedge E (ex_depth st) (ex_world st) (leg_exchange side opp)
    (ao_symbol opp) q = (c, w, r0)" by (metis prod_cases3)
  show "ex_locks st' = ex_locks st" "ex_halted st' = ex_halted st"
    using assms d by (auto simp: leg_depth_def check_depth_def)
  show "\<exists>m. e = DepthCheckFailed side m" if "r = Err e"
    using assms d that by (cases r0) (auto simp: leg_depth_def check_depth_def)
qed

lemma frames_preflight: "frames st (preflight_depth E config opp q st)"
proof -
  obtain st1 r1 where 1: "leg_depth E opp q Long st = (st1, r1)" by fastforce
  obtain st2 r2 where 2: "leg_depth E opp q Short st1 = (st2, r2)" by fastforce
  show ?thesis
    using leg_depth_keeps[OF 1] leg_depth_keeps[OF 2] 1 2
    by (cases "rc_execution_mode config"; cases r1; cases r2)
      (auto simp: preflight_depth_def depth_verdict_of_def frames_def and_then_def)
qed

lemma frames_place_both: "frames st (place_both_legs E a b st)"
  by (simp add: place_both_legs_def frames_def case_prod_unfold Let_def split: result.split)

lemma frames_same: "frames st' p \<Longrightarrow> ex_locks st' = ex_locks st \<Longrightarrow> ex_halted st' = ex_halted st \<Longrightarrow> frames st p"
  by (simp add: frames_def)

lemma frames_entry_prepare: "frames st (entry_prepare E opp c s st)"
  unfolding entry_prepare_def Let_def
  by (intro frames_and_then frames_entry_checks frames_contract_quantity frames_check_balances
      frames_same[OF frames_preflight] frames_place_both) (auto simp: frames_def split: prod.splits)

text \<open>The timing metrics do not influence a hedge.\<close>

lemma hedge_loop_metrics:
  "fst (hedge_loop E template target attempts w tot last_order m) =
     fst (hedge_loop E template target attempts w tot last_order m') \<and>
   snd (snd (hedge_loop E template target attempts w tot last_order m)) =
     snd (snd (hedge_loop E template target attempts w tot last_order m'))"
proof (induction attempts arbitrary: w tot last_order m m')
  case (Cons a as)
  show ?case
    using Cons.IH by (auto simp: Let_def split: prod.splits result.splits)
qed simp

context clocked
begin

text \<open>Time in the calls, as rules for the equations that \<open>split\<close> produces.\<close>

lemma clock_rules:
  "place_order E w order = (w', r1) \<Longrightarrow> instant_now E w \<le> instant_now E w'"
  "place_market_order E w order = (w', r1) \<Longrightarrow> instant_now E w \<le> instant_now E w'"
  "cancel_order E w ex i = (w', r2) \<Longrightarrow> instant_now E w \<le> instant_now E w'"
  "get_order_status_detailed E w ex i symbol = (w', r3) \<Longrightarrow> instant_now E w \<le> instant_now E w'"
  "get_best_bid E w ex symbol = (w', r4) \<Longrightarrow> instant_now E w \<le> instant_now E w'"
  "get_best_ask E w ex symbol = (w', r4) \<Longrightarrow> instant_now E w \<le> instant_now E w'"
  "get_order_book_depth E w ex symbol n = (w', r5) \<Longrightarrow> instant_now E w \<le> instant_now E w'"
  "new_uuid E w = (w', u) \<Longrightarrow> instant_now E w \<le> instant_now E w'"
  using time_place[of w order] time_market[of w order] time_cancel[of w ex i]
    time_detailed[of w ex i symbol] time_bid[of w ex symbol] time_ask[of w ex symbol]
    time_depth[of w ex symbol n] time_uuid[of w] by simp_all

lemma time_sleep_le: "instant_now E w \<le> instant_now E (sleep_ms E w ms)"
  using time_sleep[of w ms] by simp

lemma time_place_loop:
  "instant_now E w \<le> instant_now E (fst (place_loop E order n k w cur m))"
proof (induction "n - k" arbitrary: k w cur m rule: less_induct)
  case less
  obtain w1 rp where p: "place_market_order E w cur = (w1, rp)" by fastforce
  have ih: "instant_now E w2 \<le> instant_now E (fst (place_loop E order n (Suc k) (sleep_ms E w2 100) cur' m'))"
    if "Suc k < n" for w2 cur' m'
  proof -
    have "n - Suc k < n - k" using that by simp
    from order_trans[OF time_sleep_le less[OF this]] show ?thesis .
  qed
  show ?case
  proof (cases "k < n")
    case True
    note t1 = clock_rules(2)[OF p]
    show ?thesis
    proof (cases rp)
      case (Ok placed)
      obtain w2 rs where s: "get_order_status_detailed E w1 (so_exchange placed) (so_id placed)
        (so_symbol order) = (w2, rs)" by fastforce
      have "instant_now E w \<le> instant_now E w2" using t1 clock_rules(4)[OF s] by simp
      with True p Ok s ih show ?thesis
        by (simp add: place_loop.simps[of E order n k] Let_def) (meson order_trans)
    next
      case (Err e)
      with True p t1 ih show ?thesis
        by (simp add: place_loop.simps[of E order n k] Let_def) (meson order_trans not_less)
    qed
  qed (simp add: place_loop.simps)
qed

lemma time_hedge_loop:
  "instant_now E w \<le> instant_now E (fst (hedge_loop E template target attempts w tot last_order m))"
proof (induction attempts arbitrary: w tot last_order m)
  case (Cons a as)
  let ?o = "template\<lparr>so_size := target - tot\<rparr>"
  obtain w1 rp where p: "place_market_order E w ?o = (w1, rp)" by fastforce
  note t1 = clock_rules(2)[OF p]
  have ih: "instant_now E w2 \<le> instant_now E (fst (hedge_loop E template target as (sleep_ms E w2 ms) tot' lo' m'))"
    for w2 ms tot' lo' m'
    using Cons.IH[where w = "sleep_ms E w2 ms"] time_sleep_le[of w2 ms] order_trans by blast
  show ?case
  proof (cases rp)
    case (Ok placed)
    obtain w2 rs where s: "get_order_status_detailed E w1 (so_exchange placed) (so_id placed)
      (so_symbol template) = (w2, rs)" by fastforce
    have "instant_now E w \<le> instant_now E w2" using t1 clock_rules(4)[OF s] by simp
    then have "instant_now E w \<le> instant_now E (fst (hedge_loop E template target as w2 tot' lo' m'))"
      "instant_now E w \<le> instant_now E (fst (hedge_loop E template target as (sleep_ms E w2 ms) tot' lo' m'))"
      for ms tot' lo' m'
      using Cons.IH ih order_trans by blast+
    with p Ok s \<open>instant_now E w \<le> instant_now E w2\<close> show ?thesis
      by (cases rs) (simp_all add: Let_def)
  next
    case (Err e)
    have "instant_now E w \<le> instant_now E (fst (hedge_loop E template target as (sleep_ms E w1 ms) tot' lo' m'))"
      for ms tot' lo' m'
      using t1 ih order_trans by blast
    with p Err t1 show ?thesis by (simp add: Let_def)
  qed
qed simp

lemma time_market_retry:
  "place_market_order_with_retry E w template q m = (w', m', r) \<Longrightarrow> instant_now E w \<le> instant_now E w'"
  using time_hedge_loop[of w template q "[1..<MAX_RETRIES + 1]" "lit 0" template m]
  by (simp add: place_market_order_with_retry_def)

lemma time_place_with_retry:
  "place_with_retry E w order q n m = (w', m', r) \<Longrightarrow> instant_now E w \<le> instant_now E w'"
  using time_place_loop[of w order "unat n" 0 order m] by (simp add: place_with_retry_def)

lemma time_halves:
  "close_in_halves E w order m = (w', b) \<Longrightarrow> instant_now E w \<le> instant_now E w'"
  by (auto simp: close_in_halves_def Let_def split: prod.splits result.splits
      dest!: time_place_with_retry clock_rules(8))

lemma time_emergency:
  "emergency_close_position E w h order = (w', h', r) \<Longrightarrow> instant_now E w \<le> instant_now E w'"
  by (auto simp: emergency_close_position_def Let_def split: prod.splits result.splits if_splits
      dest!: time_place_with_retry clock_rules(8) time_halves)

lemma time_check_depth:
  "check_depth_for_hedge E c w ex symbol q = (c', w', r) \<Longrightarrow> instant_now E w \<le> instant_now E w'"
  by (auto simp: check_depth_for_hedge_def Let_def split: prod.splits result.splits option.splits
      dest!: clock_rules(7))

lemma time_both_legs:
  "check_both_legs_status E w a b = (w', r) \<Longrightarrow> instant_now E w \<le> instant_now E w'"
  by (auto simp: check_both_legs_status_def Let_def split: prod.splits dest!: clock_rules(4))

lemma moves_world: "instant_now E (ex_world st) \<le> instant_now E w \<Longrightarrow> moves E st (st\<lparr>ex_world := w\<rparr>)"
  by (simp add: moves_def)

lemma moves_call:
  "call st p = (st', r) \<Longrightarrow> instant_now E (ex_world st) \<le> instant_now E (fst p) \<Longrightarrow> moves E st st'"
  by (auto dest!: callD simp: moves_def)

lemma moves_check_depth: "check_depth E st ex symbol q = (st', r) \<Longrightarrow> moves E st st'"
  by (auto simp: check_depth_def moves_def split: prod.splits dest: time_check_depth)

lemma moves_cancel_leg: "moves E st (cancel_leg E side l st)"
  by (simp add: cancel_leg_def moves_def time_cancel)

lemma moves_cancel_both: "moves E st (cancel_both E l st)"
  unfolding cancel_both_def by (rule moves_trans[OF moves_cancel_leg moves_cancel_leg])

lemma steady_close_then:
  assumes "\<not> close_failed (Err a :: ('x, real_error) result)"
    and "\<And>e. close_failed (Err (f e) :: ('x, real_error) result)"
  shows "steady E st (close_then E order a f st :: 'w exec \<times> ('x, real_error) result)"
proof -
  obtain w h r where e: "emergency_close_position E (ex_world st) (ex_halted st) order = (w, h, r)"
    by (metis prod_cases3)
  have "h = (ex_halted st \<or> \<not> is_ok r)"
    using e by (auto simp: emergency_close_position_def Let_def halt_trading_def
        split: prod.splits result.splits if_splits)
  with e time_emergency[OF e] assms show ?thesis
    by (cases r) (auto simp: close_then_def emergency_close_def steady_def frames_def)
qed

lemma steady_market_hedge: "steady E st (market_hedge E opp side q t l st)"
proof -
  let ?t = "order_template (leg_exchange (opposite side) opp) (ao_symbol opp) (opposite side) Market
    (leg_price (opposite side) opp) q t"
  obtain w m r where p: "place_market_order_with_retry E (ex_world st) ?t q None = (w, m, r)"
    by (metis prod_cases3)
  note mv = moves_world[OF time_market_retry[OF p]]
  show ?thesis
  proof (cases r)
    case (Ok o')
    with p steady_Ok[OF mv] show ?thesis by (simp add: market_hedge_def Let_def)
  next
    case (Err e)
    have "steady E st (close_then E (leg_order side l) (HedgeFailed side e) (HedgeAndCloseFailed side e)
        (st\<lparr>ex_world := w\<rparr>) :: 'w exec \<times> (legs, real_error) result)"
      by (rule steady_moves[OF mv steady_close_then]) simp_all
    with p Err show ?thesis by (simp add: market_hedge_def Let_def)
  qed
qed

lemma steady_hedge_depth_gate: "steady E st (hedge_depth_gate E opp side q l st)"
proof -
  obtain st' r where c: "check_depth E st (so_exchange (leg_order (opposite side) l)) (ao_symbol opp) q =
    (st', r)" by fastforce
  note mv = moves_check_depth[OF c]
  show ?thesis
  proof (cases r)
    case (Ok d)
    have "steady E st (close_then E (leg_order side l) (HedgeDepthInsufficient side (dcr_depth_ratio d))
        EmergencyCloseFailed st' :: 'w exec \<times> (unit, real_error) result)"
      by (rule steady_moves[OF mv steady_close_then]) simp_all
    with c Ok show ?thesis by (simp add: hedge_depth_gate_def steady_Ok[OF mv])
  qed (use c steady_Ok[OF mv] in \<open>simp add: hedge_depth_gate_def\<close>)
qed

lemma moves_balance_leg: "balance_leg E opp side a b st l = (st', l') \<Longrightarrow> moves E st st'"
  by (auto simp: balance_leg_def call_def Let_def split: prod.splits result.splits
      intro!: moves_world time_market)

lemma moves_balance_legs: "balance_legs E opp a b st l = (st', l') \<Longrightarrow> moves E st st'"
  by (auto simp: balance_legs_def split: if_splits dest: moves_balance_leg)

lemma steady_hedge_other_leg: "steady E st (hedge_other_leg E opp side q l st)"
  unfolding hedge_other_leg_def
proof (rule steady_with_hedge_lock)
  fix locks
  let ?st = "st\<lparr>ex_locks := locks\<rparr>"
  obtain w r where c: "check_both_legs_status E (ex_world ?st) (leg_order Long l) (leg_order Short l) = (w, r)"
    by fastforce
  let ?st1 = "?st\<lparr>ex_world := w\<rparr>"
  have mv: "moves E ?st ?st1" by (rule moves_world[OF time_both_legs[OF c]])
  have tail: "steady E ?st (and_then (hedge_depth_gate E opp side q l ?st1) (\<lambda>st _.
      and_then (market_hedge E opp side q (unix_secs E (ex_world st)) l (cancel_leg E (opposite side) l st))
        (\<lambda>st l. (st, Ok (Proceed l)))))"
    by (intro steady_moves[OF mv] steady_and_then steady_hedge_depth_gate
        steady_moves[OF moves_cancel_leg steady_market_hedge] steady_here)
  have both: "steady E ?st (let (st, l) = balance_legs E opp lq sq ?st1 l in
      (st, Ok (NextTurn (f st l)) :: (flow, real_error) result))" for lq sq f
    using moves_trans[OF mv moves_balance_legs]
    by (auto simp: Let_def split: prod.splits intro!: steady_Ok)
  show "steady E ?st (let (st, status) = call ?st (check_both_legs_status E (ex_world ?st) (leg_order Long l)
        (leg_order Short l))
      in case status of
           Ok (BothFilled long_qty short_qty) \<Rightarrow>
             let (st, l) = balance_legs E opp long_qty short_qty st l; other = opposite side
             in (st, Ok (NextTurn (mark_filled E st other
                  (case other of Long \<Rightarrow> long_qty | Short \<Rightarrow> short_qty) l)))
         | _ \<Rightarrow> and_then (hedge_depth_gate E opp side q l st) (\<lambda>st _.
             and_then (market_hedge E opp side q (unix_secs E (ex_world st)) l
               (cancel_leg E (opposite side) l st)) (\<lambda>st l. (st, Ok (Proceed l)))))"
    using c tail both
    by (auto simp: call_def Let_def split: result.split both_legs_status.split)
qed

lemma steady_poll_leg: "steady E st (poll_leg E opp side l st)"
proof -
  obtain w r where c: "get_order_status_detailed E (ex_world st) (so_exchange (leg_order side l))
    (so_id (leg_order side l)) (ao_symbol opp) = (w, r)" by fastforce
  note mv = moves_world[OF clock_rules(4)[OF c]]
  show ?thesis
    using c steady_Ok[OF mv] steady_moves[OF mv steady_hedge_other_leg]
    by (auto simp: poll_leg_def call_def Let_def split: result.split)
qed

lemma moves_reprice_leg:
  assumes "reprice_leg E config side l st = (st', l')"
  shows "moves E st st'"
proof -
  obtain w r where b: "get_best_price_for_order E (ex_world st) (leg_order side l) = (w, r)" by fastforce
  note mv = moves_world[OF time_best[OF b]]
  have "moves E st (st\<lparr>ex_world := w'\<rparr>)"
    if "reprice_order E w (leg_order side l) p (ls_metrics (the_leg side l)) = (w', m, x)" for p w' m x
    using time_best[OF b] time_reprice[OF that] by (simp add: moves_def)
  with assms b mv show ?thesis
    by (auto simp: reprice_leg_def call_def Let_def split: prod.splits result.splits if_splits)
qed

lemma steady_abort_checks: "steady E st (abort_checks E config opp l st)"
  by (auto simp: abort_checks_def Let_def intro!: steady_Err moves_cancel_both)

lemma steady_repriced:
  "(\<And>st l. steady E st (f st l)) \<Longrightarrow> steady E st (case reprice_leg E config side l st of (st, l) \<Rightarrow> f st l)"
  by (auto split: prod.split intro: steady_moves[OF moves_reprice_leg])

text \<open>Everything in a turn happens after the sleep it starts with.\<close>

lemma steady_after_sleep:
  "steady E (st\<lparr>ex_world := sleep_ms E (ex_world st) (unat (rc_reprice_interval_ms config))\<rparr>)
     (poll_turn E config opp l st)"
  unfolding poll_turn_def Let_def
  by (intro steady_and_then steady_poll_leg)
    (auto split: flow.split intro!: steady_repriced steady_and_then steady_poll_leg steady_abort_checks)

lemma steady_poll_turn: "steady E st (poll_turn E config opp l st)"
  by (rule steady_moves[OF moves_world[OF time_sleep_le] steady_after_sleep])

lemma poll_turn_time:
  assumes "poll_turn E config opp l st = (st', r)"
  shows "instant_now E (ex_world st) + from_millis (unat (rc_reprice_interval_ms config)) \<le>
    instant_now E (ex_world st')"
  using steady_after_sleep[of st config opp l] time_sleep[of "ex_world st" "unat (rc_reprice_interval_ms config)"]
    assms by (auto simp: steady_def)

lemma poll_loop_ends:
  assumes "0 < rc_reprice_interval_ms config" "start \<le> instant_now E (ex_world st)"
  shows "\<exists>p. poll_loop E config opp start timeout l st = Some p \<and> steady E st p"
  using assms(2)
proof (induction "start + timeout - instant_now E (ex_world st)" arbitrary: st l rule: less_induct)
  case less
  let ?go = "duration_since (instant_now E (ex_world st)) start < timeout \<and>
    (\<not> leg_filled Long l \<or> \<not> leg_filled Short l)"
  obtain st1 r where t: "poll_turn E config opp l st = (st1, r)" by fastforce
  have s: "steady E st (st1, r)" using steady_poll_turn[of st config opp l] t by simp
  show ?case
  proof (cases "\<exists>l1. r = Ok (Inl l1) \<and> ?go")
    case True
    then obtain l1 where r: "r = Ok (Inl l1)" and go: ?go by blast
    have "0 < unat (rc_reprice_interval_ms config)" using assms(1) by (simp add: word_less_nat_alt)
    with poll_turn_time[OF t] have lt: "instant_now E (ex_world st) < instant_now E (ex_world st1)"
      by (simp add: from_millis_def)
    have "instant_now E (ex_world st) - start < timeout" using go by (simp add: duration_since_def)
    with lt less.prems
    have "start + timeout - instant_now E (ex_world st1) < start + timeout - instant_now E (ex_world st)" by linarith
    from less.hyps[OF this, of l1] lt less.prems obtain p where
      p: "poll_loop E config opp start timeout l1 st1 = Some p" "steady E st1 p" by auto
    have "moves E st st1" using s r by (simp add: steady_def frames_def moves_def)
    from steady_moves[OF this p(2)] p(1) t r go show ?thesis by (subst poll_loop.simps) simp
  next
    case False
    with s t show ?thesis
      by (subst poll_loop.simps, cases r)
        (auto simp: steady_def frames_def split: sum.splits elim: close_failed.elims)
  qed
qed

lemma moves_final_check_leg: "final_check_leg E opp side l st = (st', l') \<Longrightarrow> moves E st st'"
  by (auto simp: final_check_leg_def call_def split: prod.splits result.splits
      intro!: moves_world time_detailed)

lemma steady_final_check: "steady E st (final_check E opp l st)"
proof -
  obtain st1 l1 where 1: "final_check_leg E opp Long l st = (st1, l1)" by fastforce
  obtain st2 l2 where 2: "final_check_leg E opp Short l1 st1 = (st2, l2)" by fastforce
  have mv: "moves E st st2" by (rule moves_trans[OF moves_final_check_leg[OF 1] moves_final_check_leg[OF 2]])
  from 1 2 show ?thesis
    by (auto simp: final_check_def intro: steady_Ok[OF mv] intro!: steady_Err moves_trans[OF mv moves_cancel_both])
qed

lemma moves_place_call:
  "call st (place_order E (ex_world st) order) = (st', r1) \<Longrightarrow> moves E st st'"
  "call st (get_order_status_detailed E (ex_world st) ex i symbol) = (st', r2) \<Longrightarrow> moves E st st'"
  "call st (new_uuid E (ex_world st)) = (st', u) \<Longrightarrow> moves E st st'"
  "call st (get_best_bid E (ex_world st) ex symbol) = (st', r3) \<Longrightarrow> moves E st st'"
  "call st (get_best_ask E (ex_world st) ex symbol) = (st', r3) \<Longrightarrow> moves E st st'"
  by (auto elim!: moves_call simp: time_place time_detailed time_uuid time_bid time_ask)

lemma moves_cancel_call: "moves E st (fst (call st (cancel_order E (ex_world st) ex i)))"
  by (simp add: moves_def time_cancel)

lemma moves_sleep: "moves E st (st\<lparr>ex_world := sleep_ms E (ex_world st) ms\<rparr>)"
  by (rule moves_world[OF time_sleep_le])

lemma moves_place_exit: "place_exit E template st = (st', x) \<Longrightarrow> moves E st st'"
  by (auto simp: place_exit_def split: prod.splits result.splits dest: moves_place_call(1))

lemma moves_aggressive_limit:
  assumes "aggressive_limit E opp other q tf l st = (st', x)"
  shows "moves E st st'"
proof -
  let ?ex = "leg_exchange other opp" and ?sy = "ao_symbol opp"
  obtain st1 r1 where 1: "(case other of Short \<Rightarrow> call st (get_best_bid E (ex_world st) ?ex ?sy)
      | Long \<Rightarrow> call st (get_best_ask E (ex_world st) ?ex ?sy)) = (st1, r1)" by fastforce
  have m1: "moves E st st1" using 1 by (auto split: order_side.splits dest: moves_place_call(4,5))
  show ?thesis
  proof (cases r1)
    case (Ok p)
    obtain st2 u where 2: "call st1 (new_uuid E (ex_world st1)) = (st2, u)" by fastforce
    let ?o = "(order_template ?ex ?sy other Limit p q (unix_secs E (ex_world st2)))
      \<lparr>so_id := ''aggressive_hedge_'' @ u\<rparr>"
    obtain st3 r3 where 3: "call st2 (place_order E (ex_world st2) ?o) = (st3, r3)" by fastforce
    have m3: "moves E st st3"
      by (rule moves_trans[OF m1 moves_trans[OF moves_place_call(3)[OF 2] moves_place_call(1)[OF 3]]])
    show ?thesis
    proof (cases r3)
      case (Ok placed)
      let ?st4 = "st3\<lparr>ex_world := sleep_ms E (ex_world st3) 2000\<rparr>"
      obtain st5 r5 where 5: "call ?st4 (get_order_status_detailed E (ex_world ?st4) ?ex (so_id placed) ?sy) =
        (st5, r5)" by fastforce
      have m5: "moves E st st5"
        by (rule moves_trans[OF m3 moves_trans[OF moves_sleep moves_place_call(2)[OF 5]]])
      have "st' = st5 \<or> st' = fst (call st5 (cancel_order E (ex_world st5) ?ex (so_id placed)))"
        using assms 1 2 3 5 \<open>r1 = Ok p\<close> Ok
        by (auto simp: aggressive_limit_def Let_def split: result.splits if_splits)
      with m5 moves_trans[OF m5 moves_cancel_call] show ?thesis by auto
    qed (use assms 1 2 3 m3 Ok in \<open>simp add: aggressive_limit_def Let_def\<close>)
  qed (use assms 1 m1 in \<open>simp add: aggressive_limit_def Let_def\<close>)
qed

lemma steady_final_hedge: "steady E st (final_hedge E opp side l st)"
  unfolding final_hedge_def Let_def[of "so_size s" for s] Let_def[of "opposite side"]
proof (intro steady_with_hedge_lock steady_and_then steady_hedge_depth_gate)
  fix locks st0 :: "'w exec" and x :: unit and st :: "'w exec" and locks' :: hedge_locks
  let ?q = "so_size (leg_order side l)" and ?o = "leg_order (opposite side) l"
  let ?st1 = "cancel_leg E (opposite side) l st"
  obtain st2 r where c: "call ?st1 (get_order_status_detailed E (ex_world ?st1) (so_exchange ?o) (so_id ?o)
    (ao_symbol opp)) = (st2, r)" by fastforce
  have mv: "moves E st st2" by (rule moves_trans[OF moves_cancel_leg moves_place_call(2)[OF c]])
  have tail: "steady E st (let (st, total_filled, l) = aggressive_limit E opp (opposite side) d tf l st2
      in if total_filled \<ge> ?q then (st, Ok (fill_with (opposite side) total_filled l))
         else market_hedge E opp side (?q - total_filled) (unix_secs E (ex_world st)) l st)" for d tf
    by (auto split: prod.splits intro: steady_Ok steady_moves moves_trans[OF mv moves_aggressive_limit]
        steady_market_hedge)
  show "steady E st (let st = ?st1;
           (st, status) = call st (get_order_status_detailed E (ex_world st) (so_exchange ?o) (so_id ?o) (ao_symbol opp));
           total_filled = (case status of Ok status_info \<Rightarrow> lit 0 + osi_filled_quantity status_info | Err _ \<Rightarrow> lit 0)
       in if total_filled \<ge> ?q then (st, Ok (fill_with (opposite side) total_filled l))
          else let (st, total_filled, l) =
                 aggressive_limit E opp (opposite side) (?q - total_filled) total_filled l st
               in if total_filled \<ge> ?q then (st, Ok (fill_with (opposite side) total_filled l))
                  else market_hedge E opp side (?q - total_filled) (unix_secs E (ex_world st)) l st)"
    using c tail steady_Ok[OF mv] by (auto simp: Let_def)
qed

lemma steady_finish_trade: "steady E st (finish_trade E opp s t l st)"
  by (auto simp: finish_trade_def Let_def split: prod.split intro!: steady_Ok steady_Err
      intro: moves_trans[OF moves_place_call(3) moves_trans[OF moves_place_exit moves_place_exit]])

lemma steady_entry_complete: "steady E st (entry_complete E opp s t l st)"
  unfolding entry_complete_def
  by (intro steady_and_then steady_final_check steady_finish_trade) (simp_all add: steady_final_hedge)

end

lemma config_interval: "rc_reprice_interval_ms (config_of opp) = 100"
  by (simp add: config_of_def RepricingConfig_from_confidence_def RepricingConfig_ultra_fast_def
      RepricingConfig_balanced_def RepricingConfig_safe_def)

subsection \<open>The entry on the paper backend\<close>

lemma confidence_as_f64: "lit 90 \<le> nat_as_f64 (unat c) \<longleftrightarrow> 90 \<le> (c :: u8)"
proof (cases "90 \<le> c")
  case True
  then have "90 \<le> unat c" by (simp add: word_le_nat_alt)
  moreover have "nat_as_f64 90 = lit 90" by (simp add: nat_as_f64_def lit_def del: lit_numeral)
  ultimately show ?thesis using nat_as_f64_mono[of 90 "unat c"] True by (simp del: lit_numeral)
next
  case False
  then have "unat c \<le> 89" by (simp add: word_le_nat_alt)
  moreover have "nat_as_f64 89 = lit 89" by (simp add: nat_as_f64_def lit_def del: lit_numeral)
  ultimately have "nat_as_f64 (unat c) < lit 90"
    using nat_as_f64_mono[of "unat c" 89] f_le_less_trans[of _ "lit 89" "lit 90"] by simp
  from f_less_not_le[OF this] False show ?thesis by blast
qed

lemma config_mode:
  "rc_execution_mode (config_of opp) = UltraFast \<longleftrightarrow> 90 \<le> ao_confidence_score opp"
  "rc_total_timeout_seconds (config_of opp) = 3"
  using confidence_as_f64[of "ao_confidence_score opp"]
  by (simp_all add: config_of_def RepricingConfig_from_confidence_def RepricingConfig_ultra_fast_def
      RepricingConfig_balanced_def RepricingConfig_safe_def)

lemma paper_place_filled:
  assumes "PaperTradingBackend_place_order uuid w order = (w', Ok placed)"
  shows "so_status placed = Filled" "so_side placed = so_side order" "so_size placed = so_size order"
    "so_exchange placed = so_exchange order" "so_symbol placed = so_symbol order"
    "so_price placed = so_price order" "pw_time w' = pw_time w"
    "ptb_orders (pw_backend w') = (ptb_orders (pw_backend w))(so_id placed \<mapsto> placed)"
  using assms by (auto simp: paper_defs Let_def split: if_splits)

lemma paper_env_sels [simp]:
  "place_order (paper_env uuid) = PaperTradingBackend_place_order uuid"
  "get_order_status_detailed (paper_env uuid) = PaperTradingBackend_get_order_status_detailed"
  "get_available_balance (paper_env uuid) = PaperTradingBackend_get_available_balance"
  "get_quantity_step (paper_env uuid) = PaperTradingBackend_get_quantity_step"
  "set_leverage (paper_env uuid) = PaperTradingBackend_set_leverage"
  "set_margin_type_isolated (paper_env uuid) = PaperTradingBackend_set_margin_type_isolated"
  "get_order_book_depth (paper_env uuid) = PaperTradingBackend_get_order_book_depth"
  "instant_now (paper_env uuid) = pw_time"
  "sleep_ms (paper_env uuid) w ms = w\<lparr>pw_time := pw_time w + from_millis ms\<rparr>"
  "new_uuid (paper_env uuid) = paper_new_uuid uuid"
  by (simp_all add: paper_env_def)

lemma paper_place_ok: "\<exists>w' placed. PaperTradingBackend_place_order uuid w order = (w', Ok placed)"
  by (simp add: paper_defs Let_def)

lemma paper_detailed:
  "ptb_orders (pw_backend w) i = Some order \<Longrightarrow> so_status order = Filled \<Longrightarrow> so_size order = q \<Longrightarrow>
   PaperTradingBackend_get_order_status_detailed w ex i symbol = (w, Ok (OrderStatusInfo_new Filled q q))"
  by (simp add: PaperTradingBackend_get_order_status_detailed_def)

lemma mark_filled_sels [simp]:
  "so_id (leg_order s (mark_filled E st side q l)) = so_id (leg_order s l)"
  "so_exchange (leg_order s (mark_filled E st side q l)) = so_exchange (leg_order s l)"
  "so_symbol (leg_order s (mark_filled E st side q l)) = so_symbol (leg_order s l)"
  "leg_filled s (mark_filled E st side q l) = (s = side \<or> leg_filled s l)"
  by (cases s; cases side; simp add: mark_filled_def)+

lemma self_balanced:
  assumes "0 < q" "is_finite (q :: f64)"
  shows "balance_legs E opp q q st l = (st, l)" "is_fully_filled (OrderStatusInfo_new Filled q q)"
proof -
  obtain r where "q = Fin r" using assms by (cases q) (auto simp: zero_f64_def)
  then have "q - q = 0" by (simp add: minus_f64_def mk_0 zero_f64_def)
  then have "\<bar>q - q\<bar> = 0" by (simp add: zero_f64_def)
  with f_less_not_le[of "lit 0.001" 0] lit_mono[of 0 "0.001"]
  show "balance_legs E opp q q st l = (st, l)" by (auto simp: balance_legs_def)
  show "is_fully_filled (OrderStatusInfo_new Filled q q)"
    using \<open>q = Fin r\<close> by (simp add: is_fully_filled_def OrderStatusInfo_new_def)
qed

text \<open>Both legs are found filled in the first turn of the loop.\<close>

lemma paper_poll_loop:
  assumes filled: "\<And>side. ptb_orders (pw_backend (ex_world st)) (so_id (leg_order side l)) = Some (o' side)"
      "\<And>side. so_status (o' side) = Filled" "\<And>side. so_size (o' side) = q"
    and fresh: "\<not> leg_filled Long l" "\<not> leg_filled Short l"
    and lock: "\<not> poisoned (ex_locks st)" "ao_symbol opp \<notin> locked (ex_locks st)"
    and q: "0 < q" "is_finite q" and timeout: "0 < timeout" "start = pw_time (ex_world st)"
  shows "\<exists>st' l1 t. poll_loop (paper_env uuid) config opp start timeout l st = Some (st', Ok l1) \<and>
    l1 = mark_filled (paper_env uuid) t Short q (mark_filled (paper_env uuid) t Long q l)"
proof -
  let ?E = "paper_env uuid"
  let ?st1 = "st\<lparr>ex_world := sleep_ms ?E (ex_world st) (unat (rc_reprice_interval_ms config))\<rparr>"
  let ?l1 = "mark_filled ?E ?st1 Long q l"
  have status: "PaperTradingBackend_get_order_status_detailed (ex_world st\<lparr>pw_time := t\<rparr>) ex
      (so_id (leg_order side l)) symbol = (ex_world st\<lparr>pw_time := t\<rparr>, Ok (OrderStatusInfo_new Filled q q))"
    for t ex side symbol
    using filled by (intro paper_detailed) auto
  have both: "check_both_legs_status ?E (ex_world ?st1) (leg_order Long ?l1) (leg_order Short ?l1) =
      (ex_world ?st1, Ok (BothFilled q q))"
    using status[where side = Long] status[where side = Short] self_balanced(2)[OF q]
    by (simp add: check_both_legs_status_def OrderStatusInfo_new_def del: the_leg.simps)
  have hedge: "hedge_other_leg ?E opp Long q ?l1 ?st1 = (?st1, Ok (NextTurn (mark_filled ?E ?st1 Short q ?l1)))"
  proof -
    have acq: "try_acquire_hedge_lock (ex_locks ?st1) (ao_symbol opp) =
        ((ex_locks st)\<lparr>locked := insert (ao_symbol opp) (locked (ex_locks st))\<rparr>, Ok \<lparr>hl_symbol = ao_symbol opp\<rparr>)"
      using lock by (simp add: try_acquire_simps)
    show ?thesis
      using acq both drop_acquired[OF lock]
      by (simp add: hedge_other_leg_def with_hedge_lock_def call_def Let_def mark_filled_def
          self_balanced(1)[OF q])
  qed
  have "poll_leg ?E opp Long l ?st1 = (?st1, Ok (NextTurn (mark_filled ?E ?st1 Short q ?l1)))"
    using status[where side = Long] hedge fresh self_balanced(2)[OF q]
    by (simp add: poll_leg_def call_def Let_def OrderStatusInfo_new_def mark_filled_def)
  then have "poll_turn ?E config opp l st = (?st1, Ok (Inl (mark_filled ?E ?st1 Short q ?l1)))"
    by (simp add: poll_turn_def and_then_def Let_def)
  then have "poll_loop ?E config opp start timeout l st =
      poll_loop ?E config opp start timeout (mark_filled ?E ?st1 Short q ?l1) ?st1"
    using timeout fresh by (subst poll_loop.simps) (simp add: duration_since_def)
  also have "\<dots> = Some (?st1, Ok (mark_filled ?E ?st1 Short q ?l1))"
    by (subst poll_loop.simps) (simp add: mark_filled_def)
  finally show ?thesis by blast
qed

lemma fmin_same: "fmin x x = (x :: f64)"
  by (cases x) (auto simp: fmin_def)

lemma paper_check_balances:
  assumes "ptb_balances (pw_backend (ex_world st)) (ao_long_exchange opp) = Some bl"
    "ptb_balances (pw_backend (ex_world st)) (ao_short_exchange opp) = Some bs"
    "s * lit 1.2 \<le> bl" "s * lit 1.2 \<le> bs"
  shows "check_balances (paper_env uuid) opp s st = (st, Ok ())"
  using assms f_less_not_le
  by (auto simp: check_balances_def query_balance_def call_def and_then_def
      PaperTradingBackend_get_available_balance_def Let_def)

lemma paper_setup:
  "set_leverage_and_margin (paper_env uuid) opp st = st"
  "0 < paper_quantity opp s \<Longrightarrow>
    contract_quantity_of (paper_env uuid) opp s st = (st, Ok (paper_quantity opp s))"
  using f_less_not_le
  by (auto simp: set_leverage_and_margin_def call_def Let_def PaperTradingBackend_set_leverage_def
    PaperTradingBackend_set_margin_type_isolated_def contract_quantity_of_def quantity_step_def
    PaperTradingBackend_get_quantity_step_def paper_quantity_def fmin_same)

lemma paper_preflight:
  assumes "ex_depth st = DepthChecker_new"
  shows "preflight_depth (paper_env uuid) (config_of opp) opp q st =
    (st, if 90 \<le> ao_confidence_score opp then Ok ()
         else Err (DepthCheckFailed Long (''Failed to get order book depth: '' @
           ''get_order_book_depth not yet implemented for paper trading'')))"
  using assms config_mode(1)[of opp]
  by (cases "rc_execution_mode (config_of opp)")
    (auto simp: preflight_depth_def leg_depth_def check_depth_def check_depth_for_hedge_def
      cache_lookup_def DepthChecker_new_def and_then_def Let_def
      PaperTradingBackend_get_order_book_depth_def)

lemma paper_prepare:
  assumes "0 < s" "s \<le> c" "\<not> ex_halted st" "0 < paper_quantity opp s"
    and "ptb_balances (pw_backend (ex_world st)) (ao_long_exchange opp) = Some bl"
      "ptb_balances (pw_backend (ex_world st)) (ao_short_exchange opp) = Some bs"
      "s * lit 1.2 \<le> bl" "s * lit 1.2 \<le> bs"
  shows "90 \<le> ao_confidence_score opp \<Longrightarrow> \<exists>st1 t l.
      entry_prepare (paper_env uuid) opp c s st = (st1, Ok (t, l)) \<and> ex_locks st1 = ex_locks st \<and>
      (\<forall>side. \<not> leg_filled side l \<and> so_side (leg_order side l) = side \<and>
        (\<exists>o'. ptb_orders (pw_backend (ex_world st1)) (so_id (leg_order side l)) = Some o' \<and>
          so_status o' = Filled \<and> so_size o' = paper_quantity opp s))"
    and "\<not> 90 \<le> ao_confidence_score opp \<Longrightarrow>
      entry_prepare (paper_env uuid) opp c s st =
        (st\<lparr>ex_depth := DepthChecker_new\<rparr>, Err (DepthCheckFailed Long (''Failed to get order book depth: '' @
           ''get_order_book_depth not yet implemented for paper trading'')))"
proof -
  let ?E = "paper_env uuid" and ?q = "paper_quantity opp s" and ?t = "unix_secs (paper_env uuid) (ex_world st)"
  let ?st = "st\<lparr>ex_depth := DepthChecker_new\<rparr>"
  have checks: "entry_checks st c s = (st, Ok ())"
    using assms(1,2,3) f_less_not_le by (auto simp: entry_checks_def is_trading_halted_def)
  have bal: "check_balances ?E opp s st = (st, Ok ())"
    by (rule paper_check_balances[OF assms(5-8)])
  have qty: "contract_quantity_of ?E opp s st = (st, Ok ?q)" by (rule paper_setup(2)[OF assms(4)])
  have pre: "preflight_depth ?E (config_of opp) opp ?q ?st =
    (?st, if 90 \<le> ao_confidence_score opp then Ok ()
         else Err (DepthCheckFailed Long (''Failed to get order book depth: '' @
           ''get_order_book_depth not yet implemented for paper trading'')))"
    by (rule paper_preflight) simp
  note steps = entry_prepare_def checks qty bal and_then_def Let_def paper_setup(1) pre
  show "entry_prepare ?E opp c s st =
        (?st, Err (DepthCheckFailed Long (''Failed to get order book depth: '' @
           ''get_order_book_depth not yet implemented for paper trading'')))"
    if "\<not> 90 \<le> ao_confidence_score opp" using that by (simp add: steps)
  obtain w1 lo where 1: "PaperTradingBackend_place_order uuid (ex_world st)
      (order_template (ao_long_exchange opp) (ao_symbol opp) Long Limit (ao_long_price opp) ?q ?t) = (w1, Ok lo)"
    using paper_place_ok by blast
  obtain w2 so where 2: "PaperTradingBackend_place_order uuid w1
      (order_template (ao_short_exchange opp) (ao_symbol opp) Short Limit (ao_short_price opp) ?q ?t) = (w2, Ok so)"
    using paper_place_ok by blast
  have sel: "so_side (order_template a b sd k x y z) = sd" "so_size (order_template a b sd k x y z) = y"
    for a b sd k x y z by (simp_all add: order_template_def)
  note p = paper_place_filled[OF 1, unfolded sel] paper_place_filled[OF 2, unfolded sel]
  have sides: "(\<forall>side. P side) \<longleftrightarrow> P Long \<and> P Short" for P by (metis order_side.exhaust)
  show "\<exists>st1 t l.
      entry_prepare ?E opp c s st = (st1, Ok (t, l)) \<and> ex_locks st1 = ex_locks st \<and>
      (\<forall>side. \<not> leg_filled side l \<and> so_side (leg_order side l) = side \<and>
        (\<exists>o'. ptb_orders (pw_backend (ex_world st1)) (so_id (leg_order side l)) = Some o' \<and>
          so_status o' = Filled \<and> so_size o' = ?q))"
    if "90 \<le> ao_confidence_score opp"
    using that p unfolding sides
    by (simp add: steps place_both_legs_def call_def 1 2 new_leg_def)
qed

lemma template_sels [simp]:
  "so_side (order_template ex symbol side kind p q t) = side"
  "so_size (order_template ex symbol side kind p q t) = q"
  "so_exchange (order_template ex symbol side kind p q t) = ex"
  "so_price (order_template ex symbol side kind p q t) = p"
  by (simp_all add: order_template_def)

lemma paper_place_exit:
  "\<exists>st' x. place_exit (paper_env uuid) template st = (st', Some x) \<and>
    so_side x = so_side template \<and> so_size x = so_size template \<and> so_exchange x = so_exchange template \<and>
    so_price x = so_price template"
proof -
  obtain w x where p: "PaperTradingBackend_place_order uuid (ex_world st) template = (w, Ok x)"
    using paper_place_ok by blast
  show ?thesis using paper_place_filled[OF p] p by (simp add: place_exit_def call_def)
qed

lemma paper_finish:
  assumes "leg_filled Long l" "leg_filled Short l"
  shows "\<exists>st' trade x y. finish_trade (paper_env uuid) opp s t l st = (st', Ok trade) \<and>
    pt_long_order trade = leg_order Long l \<and> pt_short_order trade = leg_order Short l \<and>
    pt_long_exit_order trade = Some x \<and> pt_short_exit_order trade = Some y \<and>
    so_side x = Short \<and> so_size x = so_size (leg_order Long l) \<and> so_exchange x = ao_long_exchange opp \<and>
    so_side y = Long \<and> so_size y = so_size (leg_order Short l) \<and> so_exchange y = ao_short_exchange opp"
proof -
  let ?a = "(ao_short_price opp - ao_long_price opp) * lit 0.9"
  obtain st1 u where 1: "call st (paper_new_uuid uuid (ex_world st)) = (st1, u)" by fastforce
  let ?secs = "unix_secs (paper_env uuid) (ex_world st1)"
  obtain st2 x where 2: "place_exit (paper_env uuid) (order_template (ao_long_exchange opp) (ao_symbol opp)
      Short Limit (ao_long_price opp + ?a) (so_size (leg_order Long l)) ?secs) st1 = (st2, Some x)"
    "so_side x = Short" "so_size x = so_size (leg_order Long l)" "so_exchange x = ao_long_exchange opp"
    using paper_place_exit[of uuid _ st1] template_sels by metis
  obtain st3 y where 3: "place_exit (paper_env uuid) (order_template (ao_short_exchange opp) (ao_symbol opp)
      Long Limit (ao_short_price opp - ?a) (so_size (leg_order Short l)) ?secs) st2 = (st3, Some y)"
    "so_side y = Long" "so_size y = so_size (leg_order Short l)" "so_exchange y = ao_short_exchange opp"
    using paper_place_exit[of uuid _ st2] template_sels by metis
  show ?thesis
    using assms 1 2 3 by (simp add: finish_trade_def Let_def)
qed

lemma entry_real_frames:
  assumes "clocked E"
  shows "\<exists>q. execute_atomic_entry_real E opp available_capital position_size st = Some q \<and> frames st q"
proof -
  obtain st1 r1 where p: "entry_prepare E opp available_capital position_size st = (st1, r1)" by fastforce
  have f: "frames st (st1, r1)" using frames_entry_prepare[of st E opp available_capital position_size] p by simp
  show ?thesis
  proof (cases r1)
    case (Err e)
    with p f show ?thesis by (cases e) (auto simp: execute_atomic_entry_real_def frames_def)
  next
    case (Ok tl)
    obtain t l where tl: "tl = (t, l)" by fastforce
    let ?start = "instant_now E (ex_world st1)"
    let ?timeout = "from_millis (unat (rc_total_timeout_seconds (config_of opp) * 1000))"
    have "0 < rc_reprice_interval_ms (config_of opp)" by (simp add: config_interval)
    from clocked.poll_loop_ends[OF assms this order_refl,
        where st = st1 and opp = opp and timeout = ?timeout and l = l]
    obtain st2 r2 where l: "poll_loop E (config_of opp) opp ?start ?timeout l st1 = Some (st2, r2)"
      "steady E st1 (st2, r2)" by (metis surj_pair)
    show ?thesis
    proof (cases r2)
      case (Ok l2)
      with p \<open>r1 = Ok tl\<close> tl l f clocked.steady_entry_complete[OF assms, of st2 opp position_size t l2]
      show ?thesis by (simp add: execute_atomic_entry_real_def Let_def steady_def frames_def)
    next
      case (Err e)
      with p \<open>r1 = Ok tl\<close> tl l f show ?thesis
        by (cases e) (simp_all add: execute_atomic_entry_real_def Let_def steady_def frames_def)
    qed
  qed
qed

lemma entry_real_halted:
  "ex_halted st \<Longrightarrow>
   execute_atomic_entry_real E opp available_capital position_size st = Some (st, Err TradingHalted)"
  by (simp add: execute_atomic_entry_real_def entry_prepare_def entry_checks_def and_then_def
      is_trading_halted_def)

lemma entry_real_trade:
  assumes "execute_atomic_entry_real E opp available_capital position_size st = Some (st', Ok trade)"
  shows "pt_symbol trade = ao_symbol opp" "pt_status trade = Active" "pt_exit_reason trade = None"
    "pt_position_size_usd trade = position_size" "pt_leg_out_event trade = None"
proof -
  obtain st1 t l where "entry_complete E opp position_size t l st1 = (st', Ok trade)"
    using assms by (auto simp: execute_atomic_entry_real_def Let_def
        split: prod.splits result.splits option.splits)
  then obtain st2 l2 where "finish_trade E opp position_size t l2 st2 = (st', Ok trade)"
    unfolding entry_complete_def and_then_def by (auto split: prod.splits result.splits)
  then show "pt_symbol trade = ao_symbol opp" "pt_status trade = Active" "pt_exit_reason trade = None"
    "pt_position_size_usd trade = position_size" "pt_leg_out_event trade = None"
    by (auto simp: finish_trade_def Let_def split: if_splits prod.splits)
qed

text \<open>When the long order is refused, the short order that was accepted stays in the market.\<close>

lemma refused_long_leaves_short:
  "\<exists>st' placed. place_both_legs refusing_env (order_template ''bybit'' ''BTCUSDT'' Long Limit (lit 100) (lit 2) 0)
     (order_template ''okx'' ''BTCUSDT'' Short Limit (lit 101) (lit 2) 0) (paper_exec (paper_start sample_balances)) =
       (st', Err (PlaceFailed Long ''rejected'')) \<and>
     ptb_orders (pw_backend (ex_world st')) (nat_str 0) = Some placed \<and> so_side placed = Short \<and>
     so_status placed = Filled"
  by (simp add: place_both_legs_def refusing_env_def call_def paper_exec_def paper_start_def
      PaperTradingBackend_new_def order_template_def paper_defs Let_def)

text \<open>Both legs filled with different quantities: the larger leg is reduced in the market and its size
  adjusted, but when it is the leg found second, \<open>mark_filled\<close> writes the old quantity back.\<close>

lemma balanced_size_overwritten:
  assumes "place_market_order E (ex_world st) (order_template (ao_short_exchange opp) (ao_symbol opp) Long
      Market (ao_short_price opp) (lit 3 - lit 2) (unix_secs E (ex_world st))) = (w, Ok placed)"
    and "balance_legs E opp (lit 2) (lit 3) st l = (st', l')"
  shows "so_size (leg_order Short l') = lit 2"
    "so_size (leg_order Short (mark_filled E st' Short (lit 3) l')) = lit 3"
proof -
  have b: "lit 0.001 < \<bar>lit 2 - lit 3\<bar>" "\<not> lit 3 < lit 2" by code_simp+
  with assms show "so_size (leg_order Short l') = lit 2"
    by (auto simp: balance_legs_def balance_leg_def call_def set_size_def Let_def
        simp del: lit_numeral)
  show "so_size (leg_order Short (mark_filled E st' Short (lit 3) l')) = lit 3"
    by (simp add: mark_filled_def)
qed

section \<open>Properties\<close>

text \<open>C1. A live entry is safe.  On every backend whose clock does not run backwards, whatever its answers
  are, the entry returns.  When it has returned, the hedge locks are as before, and trading is
  halted exactly when it was halted before or the returned error is that of an emergency close that
  failed.  An entry that starts while trading is halted returns at once, without a call.\<close>

theorem entry_real_safe:
  assumes "clocked E"
  shows "\<exists>st' r. execute_atomic_entry_real E opp available_capital position_size st = Some (st', r) \<and>
    ex_locks st' = ex_locks st \<and>
    (ex_halted st' \<longleftrightarrow> ex_halted st \<or> close_failed r) \<and>
    (ex_halted st \<longrightarrow> st' = st \<and> r = Err TradingHalted)"
  using entry_real_frames[OF assms, of opp available_capital position_size st] entry_real_halted
  by (fastforce simp: frames_def)

theorem entry_real_safe_witness:
  "\<exists>st' r. execute_atomic_entry_real (paper_env nat_str)
     (sample_opportunity ''bybit'' ''okx'' (lit 1000) (lit 1000)) (lit 1000) (lit 500)
     (paper_exec (paper_start sample_balances)) = Some (st', r) \<and>
     ex_locks st' = no_locks \<and> (ex_halted st' \<longleftrightarrow> close_failed r)"
  using entry_real_safe[OF clocked_paper, of nat_str "sample_opportunity ''bybit'' ''okx'' (lit 1000) (lit 1000)"
      "lit 1000" "lit 500" "paper_exec (paper_start sample_balances)"]
  by (auto simp: paper_exec_def)

text \<open>C6. The live entry on the paper backend.  With enough balance on both exchanges, a positive finite
  quantity and a free hedge lock, a confidence score of 90 or more gives a trade whose legs are
  filled with the same quantity, the position size divided by the higher price and rounded down to
  the step 0.1, with an exit order of that quantity against each leg.  A lower score never gives a
  trade: the depth check fails, because this backend has no order book, and no order is placed.\<close>

theorem paper_entry_outcome:
  assumes "0 < position_size" "position_size \<le> available_capital" "\<not> ex_halted st"
    and "\<not> poisoned (ex_locks st)" "ao_symbol opp \<notin> locked (ex_locks st)"
    and "0 < paper_quantity opp position_size" "is_finite (paper_quantity opp position_size)"
    and "ptb_balances (pw_backend (ex_world st)) (ao_long_exchange opp) = Some long_balance"
      "ptb_balances (pw_backend (ex_world st)) (ao_short_exchange opp) = Some short_balance"
      "position_size * lit 1.2 \<le> long_balance" "position_size * lit 1.2 \<le> short_balance"
  shows "\<exists>st' r. execute_atomic_entry_real (paper_env uuid) opp available_capital position_size st = Some (st', r) \<and>
    (if 90 \<le> ao_confidence_score opp
     then \<exists>trade x y. r = Ok trade \<and>
       so_status (pt_long_order trade) = Filled \<and> so_side (pt_long_order trade) = Long \<and>
       so_size (pt_long_order trade) = paper_quantity opp position_size \<and>
       so_status (pt_short_order trade) = Filled \<and> so_side (pt_short_order trade) = Short \<and>
       so_size (pt_short_order trade) = paper_quantity opp position_size \<and>
       pt_long_exit_order trade = Some x \<and> pt_short_exit_order trade = Some y \<and>
       so_side x = Short \<and> so_size x = paper_quantity opp position_size \<and> so_exchange x = ao_long_exchange opp \<and>
       so_side y = Long \<and> so_size y = paper_quantity opp position_size \<and> so_exchange y = ao_short_exchange opp
     else ex_world st' = ex_world st \<and> (\<exists>e. r = Err (DepthCheckFailed Long e)))"
proof (cases "90 \<le> ao_confidence_score opp")
  case False
  from paper_prepare(2)[OF assms(1,2,3,6,8-11) this] False show ?thesis
    by (simp add: execute_atomic_entry_real_def)
next
  case True
  let ?E = "paper_env uuid" and ?q = "paper_quantity opp position_size"
  from paper_prepare(1)[OF assms(1,2,3,6,8-11) True, of uuid] obtain st1 t l o' where
    p: "entry_prepare ?E opp available_capital position_size st = (st1, Ok (t, l))" "ex_locks st1 = ex_locks st"
      "\<And>side. \<not> leg_filled side l" "\<And>side. so_side (leg_order side l) = side"
      "\<And>side. ptb_orders (pw_backend (ex_world st1)) (so_id (leg_order side l)) = Some (o' side)"
      "\<And>side. so_status (o' side) = Filled" "\<And>side. so_size (o' side) = ?q" by metis
  have "0 < from_millis (unat (rc_total_timeout_seconds (config_of opp) * 1000))"
    by (simp add: config_mode from_millis_def)
  from paper_poll_loop[OF p(5,6,7) p(3)[of Long] p(3)[of Short] _ _ assms(6,7) this refl, of opp uuid "config_of opp"]
  obtain st2 l2 t2 where l: "poll_loop ?E (config_of opp) opp (pw_time (ex_world st1))
      (from_millis (unat (rc_total_timeout_seconds (config_of opp) * 1000))) l st1 = Some (st2, Ok l2)"
    "l2 = mark_filled ?E t2 Short ?q (mark_filled ?E t2 Long ?q l)"
    using p(2) assms(4,5) by auto
  have f: "leg_filled Long l2" "leg_filled Short l2" "so_size (leg_order Long l2) = ?q"
    "so_size (leg_order Short l2) = ?q" "so_status (leg_order Long l2) = Filled"
    "so_status (leg_order Short l2) = Filled" "so_side (leg_order Long l2) = Long"
    "so_side (leg_order Short l2) = Short"
    unfolding l(2) using p(4)[of Long] p(4)[of Short] by (simp_all add: mark_filled_def)
  from paper_finish[OF f(1,2), of uuid opp position_size t st2] f True p(1) l(1) show ?thesis
    by (auto simp: execute_atomic_entry_real_def Let_def entry_complete_def final_check_def and_then_def)
qed

theorem paper_entry_outcome_witness:
  "\<exists>st' trade. execute_atomic_entry_real (paper_env nat_str)
     ((sample_opportunity ''bybit'' ''okx'' (lit 1000) (lit 1000))\<lparr>ao_confidence_score := 95\<rparr>)
     (lit 1000) (lit 500) (paper_exec (paper_start sample_balances)) = Some (st', Ok trade) \<and>
     so_size (pt_long_order trade) = so_size (pt_short_order trade)"
proof -
  let ?opp = "(sample_opportunity ''bybit'' ''okx'' (lit 1000) (lit 1000))\<lparr>ao_confidence_score := 95\<rparr>"
  have "0 < paper_quantity ?opp (lit 500)" "is_finite (paper_quantity ?opp (lit 500))"
    unfolding paper_quantity_def sample_opportunity_def by (simp, code_simp)+
  moreover have "lit 500 * lit 1.2 \<le> lit 1000" "0 < lit 500" by code_simp+
  ultimately show ?thesis
    using paper_entry_outcome[of "lit 500" "lit 1000" "paper_exec (paper_start sample_balances)" ?opp
        "lit 1000" "lit 1000" nat_str]
    by (auto simp: paper_exec_def no_locks_def paper_start_def PaperTradingBackend_new_def sample_balances_def
        sample_opportunity_def)
qed

end
