(* ===== verification/Exchange_Parser.thy ===== *)
theory Exchange_Parser
  imports F64 "HOL-Library.Sublist"
begin

text \<open>
  src/src/exchange_parser.rs: prices out of strings, quotes and funding rates out of JSON messages, and
  the names of Redis keys and symbols.  \<open>serde_json\<close> is a third-party library: the accessors of its
  \<open>Value\<close> are the record \<open>json_ops\<close>, an argument of the parsers, and \<open>json\<close> is the instance for the
  examples.  The standard library's \<open>str::parse::<f64>\<close> is \<open>std_parse\<close>, the correctly rounded value of a
  decimal numeral; \<open>f64::powi\<close> is the square-and-multiply loop of the runtime library.  The variant for
  AVX-512 is compiled in with that target feature only; \<open>avx\<close> says whether it is.

  The lemmas show that the fast parser agrees with the standard one on plain decimals, that the
  vectorised variant agrees with the scalar one on every string, and that the symbol names used by the
  exchanges normalise to the common one.
\<close>

section \<open>Strings of the standard library\<close>

definition is_ascii_digit :: "char \<Rightarrow> bool" where
  "is_ascii_digit c \<longleftrightarrow> 48 \<le> (of_char c :: nat) \<and> (of_char c :: nat) \<le> 57"

definition digit_val :: "char \<Rightarrow> nat" where
  "digit_val c = of_char c - 48"

definition digits_val :: "string \<Rightarrow> nat" where
  "digits_val s = foldl (\<lambda>n c. 10 * n + digit_val c) 0 s"

text \<open>The exponent part: nothing, or \<open>e\<close> with an optional sign and at least one digit.\<close>

definition parse_exponent :: "string \<Rightarrow> int option" where
  "parse_exponent s =
     (case s of
        [] \<Rightarrow> Some 0
      | c # t \<Rightarrow>
          if c \<noteq> CHR ''e'' \<and> c \<noteq> CHR ''E'' then None
          else
            let (neg, u) = (case t of
                  d # u \<Rightarrow> if d = CHR ''-'' then (True, u) else if d = CHR ''+'' then (False, u) else (False, t)
                | [] \<Rightarrow> (False, t))
            in if u = [] \<or> \<not> list_all is_ascii_digit u then None
               else Some (if neg then - int (digits_val u) else int (digits_val u)))"

definition parse_unsigned :: "string \<Rightarrow> rat option" where
  "parse_unsigned s =
     (let ds = takeWhile is_ascii_digit s;
          rest = dropWhile is_ascii_digit s;
          (fs, rest) = (case rest of
            c # t \<Rightarrow> if c = CHR ''.'' then (takeWhile is_ascii_digit t, dropWhile is_ascii_digit t)
              else ([], rest)
          | [] \<Rightarrow> ([], rest))
      in if ds @ fs = [] then None
         else map_option (\<lambda>e. of_nat (digits_val (ds @ fs)) * 10 powi (e - int (length fs)))
           (parse_exponent rest))"

text \<open>\<open>s.parse::<f64>().ok()\<close>.\<close>

definition std_parse :: "string \<Rightarrow> f64 option" where
  "std_parse s =
     (let (neg, t) = (case s of
            c # t \<Rightarrow> if c = CHR ''-'' then (True, t) else if c = CHR ''+'' then (False, t) else (False, s)
          | [] \<Rightarrow> (False, s))
      in case parse_unsigned t of
           Some r \<Rightarrow> Some (mk neg (if neg then - r else r))
         | None \<Rightarrow>
             (let l = to_lowercase t in
              if l = ''inf'' \<or> l = ''infinity'' then Some (if neg then NInf else PInf)
              else if l = ''nan'' then Some NaN
              else None))"

text \<open>\<open>f64::powi\<close> with a non-negative exponent.\<close>

function powi_loop :: "nat \<Rightarrow> f64 \<Rightarrow> f64 \<Rightarrow> f64" where
  "powi_loop b a r =
     (let r = (if odd b then r * a else r); b = b div 2
      in if b = 0 then r else powi_loop b (a * a) r)"
  by pat_completeness auto
termination by (relation "measure fst") (auto simp: odd_pos split: if_splits)

declare powi_loop.simps [simp del]

definition f64_powi :: "f64 \<Rightarrow> nat \<Rightarrow> f64" where
  "f64_powi a b = powi_loop b a (lit 1)"

section \<open>Prices\<close>

text \<open>How the digit loop ends: with the value and the decimal places, with the standard parser, or
  with an invalid character.\<close>

datatype scan = Done f64 nat | Fallback | Invalid

fun scan_price :: "string \<Rightarrow> f64 \<Rightarrow> nat \<Rightarrow> bool \<Rightarrow> scan" where
  "scan_price [] result decimal_places found_decimal = Done result decimal_places"
| "scan_price (byte # bytes) result decimal_places found_decimal =
     (if byte = CHR ''.'' then
        if found_decimal then Fallback else scan_price bytes result decimal_places True
      else if is_ascii_digit byte then
        scan_price bytes (result * lit 10 + nat_as_f64 (digit_val byte))
          (if found_decimal then decimal_places + 1 else decimal_places) found_decimal
      else if byte = CHR ''e'' \<or> byte = CHR ''E'' then Fallback
      else Invalid)"

definition finish_price :: "f64 \<Rightarrow> nat \<Rightarrow> bool \<Rightarrow> f64" where
  "finish_price result decimal_places is_negative =
     (let result = (if decimal_places > 0 then result / f64_powi (lit 10) decimal_places else result)
      in if is_negative then - result else result)"

definition split_sign :: "string \<Rightarrow> bool \<times> string" where
  "split_sign bytes = (case bytes of
     c # rest \<Rightarrow> if c = CHR ''-'' then (True, rest) else (False, bytes)
   | [] \<Rightarrow> (False, bytes))"

definition parse_price_fast :: "string \<Rightarrow> f64 option" where
  "parse_price_fast s =
     (let len = length s in
      if len = 0 \<or> len > 32 then std_parse s
      else
        let (is_negative, bytes) = split_sign s in
        case scan_price bytes (lit 0) 0 False of
          Done result decimal_places \<Rightarrow> Some (finish_price result decimal_places is_negative)
        | Fallback \<Rightarrow> std_parse s
        | Invalid \<Rightarrow> None)"

text \<open>The vectorised variant.  A chunk is 16 bytes of the string in the low half of a register of 32
  lanes whose high half is zero; the comparisons are those of signed bytes, and a mask of \<open>-1\<close> has the
  bit of every lane.\<close>

definition chunk_of :: "u8 list \<Rightarrow> u8 list" where
  "chunk_of bytes = take 16 bytes @ replicate 16 0"

definition dot_bits :: "u8 list \<Rightarrow> bool list" where
  "dot_bits data = map (\<lambda>b. b = of_char (CHR ''.'')) data"

definition valid_mask :: "u8 list \<Rightarrow> bool list" where
  "valid_mask data = map (\<lambda>b. sint b > 47 \<and> 58 > sint b) data"

function simd_loop :: "u8 list \<Rightarrow> f64 \<Rightarrow> u8 list \<times> f64" where
  "simd_loop bytes result =
     (if 16 \<le> length bytes then
        let data = chunk_of bytes in
        if \<not> list_all Not (dot_bits data) then (bytes, result)
        else if \<not> list_all id (valid_mask data) then (bytes, result)
        else simd_loop (drop 16 bytes)
          (foldl (\<lambda>result d. result * lit 10 + nat_as_f64 (unat d)) result
             (map (\<lambda>b. b - of_char (CHR ''0'')) (take 16 data)))
      else (bytes, result))"
  by pat_completeness auto
termination by (relation "measure (length \<circ> fst)") auto

declare simd_loop.simps [simp del]

fun scan_tail :: "u8 list \<Rightarrow> f64 \<Rightarrow> nat \<Rightarrow> bool \<Rightarrow> scan" where
  "scan_tail [] result decimal_places found_decimal = Done result decimal_places"
| "scan_tail (byte # bytes) result decimal_places found_decimal =
     (if byte = of_char (CHR ''.'') then
        if found_decimal then Fallback else scan_tail bytes result decimal_places True
      else if of_char (CHR ''0'') \<le> byte \<and> byte \<le> of_char (CHR ''9'') then
        scan_tail bytes (result * lit 10 + nat_as_f64 (unat (byte - of_char (CHR ''0''))))
          (if found_decimal then decimal_places + 1 else decimal_places) found_decimal
      else Invalid)"

definition parse_price_avx512 :: "string \<Rightarrow> f64 option" where
  "parse_price_avx512 s =
     (let len = length s in
      if len = 0 \<or> len > 32 then parse_price_fast s
      else if len < 8 \<or> CHR ''e'' \<in> set s \<or> CHR ''E'' \<in> set s then parse_price_fast s
      else
        let (is_negative, bytes) = split_sign s;
            (rest, result) = simd_loop (map of_char bytes) (lit 0)
        in case scan_tail rest result 0 False of
             Done result decimal_places \<Rightarrow> Some (finish_price result decimal_places is_negative)
           | Fallback \<Rightarrow> parse_price_fast s
           | Invalid \<Rightarrow> None)"

definition parse_price_simd :: "bool \<Rightarrow> string \<Rightarrow> f64 option" where
  "parse_price_simd avx s =
     (if s = [] then None else if avx then parse_price_avx512 s else parse_price_fast s)"

section \<open>Messages\<close>

text \<open>The accessors of \<open>serde_json::Value\<close> that the parsers call.\<close>

record 'j json_ops =
  j_get :: "'j \<Rightarrow> string \<Rightarrow> 'j option"
  j_as_str :: "'j \<Rightarrow> string option"
  j_as_array :: "'j \<Rightarrow> 'j list option"
  j_is_f64 :: "'j \<Rightarrow> bool"
  j_as_f64 :: "'j \<Rightarrow> f64 option"

definition vec_get :: "'a list \<Rightarrow> nat \<Rightarrow> 'a option" where
  "vec_get xs i = (if i < length xs then Some (xs ! i) else None)"

fun path :: "'j json_ops \<Rightarrow> string list \<Rightarrow> 'j \<Rightarrow> 'j option" where
  "path J [] v = Some v"
| "path J (k # ks) v = Option.bind (j_get J v k) (path J ks)"

definition nth_of :: "'j json_ops \<Rightarrow> nat \<Rightarrow> 'j \<Rightarrow> 'j option" where
  "nth_of J i v = Option.bind (j_as_array J v) (\<lambda>a. vec_get a i)"

record 'j exchange_parser =
  parse_funding_rate :: "'j \<Rightarrow> f64 option"
  parse_bid :: "'j \<Rightarrow> string option"
  parse_ask :: "'j \<Rightarrow> string option"

definition BinanceParser :: "bool \<Rightarrow> 'j json_ops \<Rightarrow> 'j exchange_parser" where
  "BinanceParser avx J =
     \<lparr>parse_funding_rate = (\<lambda>v. Option.bind (Option.bind (j_get J v ''r'') (j_as_str J)) (parse_price_simd avx)),
      parse_bid = (\<lambda>v. Option.bind (j_get J v ''b'') (j_as_str J)),
      parse_ask = (\<lambda>v. Option.bind (j_get J v ''a'') (j_as_str J))\<rparr>"

definition BybitParser :: "bool \<Rightarrow> 'j json_ops \<Rightarrow> 'j exchange_parser" where
  "BybitParser avx J =
     \<lparr>parse_funding_rate = (\<lambda>v. Option.bind (Option.bind (Option.bind (Option.bind (j_get J v ''data'')
        (\<lambda>d. if j_as_array J d \<noteq> None then nth_of J 0 d else Some d))
        (\<lambda>f. j_get J f ''fundingRate'')) (j_as_str J)) (parse_price_simd avx)),
      parse_bid = (\<lambda>v. Option.bind (path J [''data'', ''bid1Price''] v) (j_as_str J)),
      parse_ask = (\<lambda>v. Option.bind (path J [''data'', ''ask1Price''] v) (j_as_str J))\<rparr>"

text \<open>The first entry of the array under \<open>data\<close>, as OKX and Bitget send it.\<close>

definition first_entry :: "'j json_ops \<Rightarrow> 'j \<Rightarrow> string \<Rightarrow> string option" where
  "first_entry J v key = Option.bind (Option.bind (Option.bind (j_get J v ''data'') (nth_of J 0))
     (\<lambda>f. j_get J f key)) (j_as_str J)"

definition OKXParser :: "bool \<Rightarrow> 'j json_ops \<Rightarrow> 'j exchange_parser" where
  "OKXParser avx J =
     \<lparr>parse_funding_rate = (\<lambda>v. Option.bind (first_entry J v ''fundingRate'') (parse_price_simd avx)),
      parse_bid = (\<lambda>v. first_entry J v ''bidPx''),
      parse_ask = (\<lambda>v. first_entry J v ''askPx'')\<rparr>"

text \<open>The quote \<open>i\<close> (0 the bid, 1 the ask) of a Hyperliquid message in either of its formats.\<close>

definition hyperliquid_quote :: "'j json_ops \<Rightarrow> nat \<Rightarrow> 'j \<Rightarrow> string option" where
  "hyperliquid_quote J i v =
     (case Option.bind (Option.bind (path J [''data'', ''ctx'', ''impactPxs''] v) (nth_of J i)) (j_as_str J) of
        Some q \<Rightarrow> Some q
      | None \<Rightarrow> Option.bind (Option.bind (Option.bind (path J [''data'', ''bbo''] v) (nth_of J i))
          (\<lambda>f. j_get J f ''px'')) (j_as_str J))"

definition HyperliquidParser :: "bool \<Rightarrow> 'j json_ops \<Rightarrow> 'j exchange_parser" where
  "HyperliquidParser avx J =
     \<lparr>parse_funding_rate = (\<lambda>v. Option.bind (Option.bind (path J [''data'', ''ctx'', ''funding''] v) (j_as_str J))
        (parse_price_simd avx)),
      parse_bid = hyperliquid_quote J 0,
      parse_ask = hyperliquid_quote J 1\<rparr>"

definition KucoinParser :: "bool \<Rightarrow> 'j json_ops \<Rightarrow> 'j exchange_parser" where
  "KucoinParser avx J =
     \<lparr>parse_funding_rate = (\<lambda>v. Option.bind (path J [''data'', ''fundingRate''] v)
        (\<lambda>v. if j_is_f64 J v then j_as_f64 J v else Option.bind (j_as_str J v) (parse_price_simd avx))),
      parse_bid = (\<lambda>v. Option.bind (path J [''data'', ''bestBidPrice''] v) (j_as_str J)),
      parse_ask = (\<lambda>v. Option.bind (path J [''data'', ''bestAskPrice''] v) (j_as_str J))\<rparr>"

definition BitgetParser :: "bool \<Rightarrow> 'j json_ops \<Rightarrow> 'j exchange_parser" where
  "BitgetParser avx J =
     \<lparr>parse_funding_rate = (\<lambda>v. Option.bind (first_entry J v ''fundingRate'') (parse_price_simd avx)),
      parse_bid = (\<lambda>v. first_entry J v ''bidPr''),
      parse_ask = (\<lambda>v. first_entry J v ''askPr'')\<rparr>"

definition gateio_quote :: "'j json_ops \<Rightarrow> string \<Rightarrow> string \<Rightarrow> 'j \<Rightarrow> string option" where
  "gateio_quote J ticker book v =
     (case Option.bind (path J [''result'', ticker] v) (j_as_str J) of
        Some q \<Rightarrow> Some q
      | None \<Rightarrow> Option.bind (path J [''result'', book] v) (j_as_str J))"

definition GateioParser :: "bool \<Rightarrow> 'j json_ops \<Rightarrow> 'j exchange_parser" where
  "GateioParser avx J =
     \<lparr>parse_funding_rate = (\<lambda>v. Option.bind (Option.bind (path J [''result'', ''funding_rate''] v) (j_as_str J))
        (parse_price_simd avx)),
      parse_bid = gateio_quote J ''highest_bid'' ''b'',
      parse_ask = gateio_quote J ''lowest_ask'' ''a''\<rparr>"

definition ParadexParser :: "bool \<Rightarrow> 'j json_ops \<Rightarrow> 'j exchange_parser" where
  "ParadexParser avx J =
     \<lparr>parse_funding_rate = (\<lambda>v. Option.bind (Option.bind (path J [''params'', ''data'', ''funding_rate''] v)
        (j_as_str J)) (parse_price_simd avx)),
      parse_bid = (\<lambda>v. Option.bind (path J [''params'', ''data'', ''bid''] v) (j_as_str J)),
      parse_ask = (\<lambda>v. Option.bind (path J [''params'', ''data'', ''ask''] v) (j_as_str J))\<rparr>"

definition get_parser :: "bool \<Rightarrow> 'j json_ops \<Rightarrow> string \<Rightarrow> 'j exchange_parser" where
  "get_parser avx J exchange =
     (if exchange = ''binance'' then BinanceParser avx J
      else if exchange = ''bybit'' then BybitParser avx J
      else if exchange = ''okx'' then OKXParser avx J
      else if exchange = ''hyperliquid'' then HyperliquidParser avx J
      else if exchange = ''kucoin'' then KucoinParser avx J
      else if exchange = ''bitget'' then BitgetParser avx J
      else if exchange = ''gateio'' then GateioParser avx J
      else if exchange = ''paradex'' then ParadexParser avx J
      else BinanceParser avx J)"

section \<open>Keys and symbols\<close>

text \<open>\<open>str::trim_end_matches\<close> and \<open>str::replace\<close> for a non-empty pattern.\<close>

function trim_end_matches :: "string \<Rightarrow> string \<Rightarrow> string" where
  "trim_end_matches pat s =
     (if pat \<noteq> [] \<and> suffix pat s then trim_end_matches pat (take (length s - length pat) s) else s)"
  by pat_completeness auto
termination by (relation "measure (length \<circ> snd)") (auto simp: suffix_def)

declare trim_end_matches.simps [simp del]

function str_replace :: "string \<Rightarrow> string \<Rightarrow> string \<Rightarrow> string" where
  "str_replace pat rep [] = []"
| "str_replace pat rep (c # s) =
     (if pat \<noteq> [] \<and> prefix pat (c # s) then rep @ str_replace pat rep (drop (length pat) (c # s))
      else c # str_replace pat rep s)"
  by pat_completeness auto
termination by (relation "measure (length \<circ> snd \<circ> snd)") (auto simp: prefix_def neq_Nil_conv)

definition get_redis_key_patterns :: "string \<Rightarrow> string \<Rightarrow> string list" where
  "get_redis_key_patterns exchange symbol =
     (let e = to_lowercase exchange; base = trim_end_matches ''USDT'' symbol in
      if e = ''bybit'' then [exchange @ '':linear:tickers:'' @ symbol]
      else if e = ''bitget'' then [exchange @ '':usdt:tickers:'' @ symbol]
      else if e = ''binance'' then
        [exchange @ '':linear:tickers:'' @ symbol, exchange @ '':usdm:book:'' @ symbol]
      else if e = ''okx'' then
        [exchange @ '':usdt:tickers:'' @ base @ ''-USDT-SWAP'', exchange @ '':usdt:tickers:'' @ symbol]
      else if e = ''kucoin'' then
        [exchange @ '':futures:tickerV2:'' @ symbol @ ''M'', exchange @ '':futures:tickerV2:'' @ symbol]
      else if e = ''hyperliquid'' then
        [exchange @ '':usdc:ctx:'' @ base, exchange @ '':usdc:bbo:'' @ base]
      else if e = ''gateio'' then [exchange @ '':usdt:tickers:'' @ symbol]
      else if e = ''paradex'' then
        [exchange @ '':usdt:bbo:'' @ base @ ''-USD-PERP'', exchange @ '':usdt:tickers:'' @ symbol]
      else if e = ''lighter'' then [exchange @ '':usdt:data:'' @ symbol]
      else [exchange @ '':linear:tickers:'' @ symbol])"

definition strip_suffix :: "string \<Rightarrow> nat \<Rightarrow> string \<Rightarrow> string" where
  "strip_suffix suf n s = (if suffix suf s then take (length s - n) s else s)"

definition normalize_symbol :: "string \<Rightarrow> string" where
  "normalize_symbol symbol =
     (let normalized = to_uppercase symbol;
          normalized = str_replace ''-'' [] normalized;
          normalized = strip_suffix ''SWAP'' 4 normalized;
          normalized = strip_suffix ''PERP'' 4 normalized;
          normalized = strip_suffix ''USDTM'' 1 normalized;
          normalized = (if sublist ''USD'' normalized \<and> \<not> sublist ''USDT'' normalized
            then str_replace ''USD'' ''USDT'' normalized else normalized);
          normalized = (if \<not> sublist ''USDT'' normalized then normalized @ ''USDT'' else normalized)
      in normalized)"

section \<open>Concrete messages\<close>

datatype json = JNull | JBool bool | JFloat f64 | JStr string | JArr "json list"
  | JObj "(string \<times> json) list"

definition value_ops :: "json json_ops" where
  "value_ops =
     \<lparr>j_get = (\<lambda>v k. case v of JObj fs \<Rightarrow> map_of fs k | _ \<Rightarrow> None),
      j_as_str = (\<lambda>v. case v of JStr s \<Rightarrow> Some s | _ \<Rightarrow> None),
      j_as_array = (\<lambda>v. case v of JArr a \<Rightarrow> Some a | _ \<Rightarrow> None),
      j_is_f64 = (\<lambda>v. case v of JFloat _ \<Rightarrow> True | _ \<Rightarrow> False),
      j_as_f64 = (\<lambda>v. case v of JFloat x \<Rightarrow> Some x | _ \<Rightarrow> None)\<rparr>"

text \<open>A plain decimal: digits, and a point with more digits when there are decimal places.\<close>

definition plain_decimal :: "bool \<Rightarrow> string \<Rightarrow> string \<Rightarrow> string" where
  "plain_decimal neg ds fs =
     (if neg then ''-'' else []) @ ds @ (if fs = [] then [] else CHR ''.'' # fs)"

section \<open>Lemmas\<close>

subsection \<open>The vectorised parser\<close>

text \<open>The zero lanes of the upper half never pass the digit test, so no chunk is ever consumed.\<close>

lemma simd_loop_idle: "simd_loop bytes result = (bytes, result)"
proof -
  have "\<not> list_all id (replicate 16 False)" by (simp add: list_all_iff)
  then have "\<not> list_all id (valid_mask (chunk_of bytes))"
    by (simp add: chunk_of_def valid_mask_def)
  then show ?thesis by (subst simd_loop.simps) (simp add: Let_def)
qed

lemma unat_of_char: "unat (of_char c :: u8) = of_char c"
proof -
  have "unat (of_nat (of_char c) :: u8) = of_char c" by (simp add: unat_of_nat take_bit_eq_mod)
  then show ?thesis by (simp only: of_nat_of_char)
qed

lemma of_char_u8_eq: "(of_char c :: u8) = of_char d \<longleftrightarrow> c = d"
  by (metis unat_of_char of_char_eq_iff)

lemma is_digit_u8:
  "(of_char (CHR ''0'') :: u8) \<le> of_char c \<and> (of_char c :: u8) \<le> of_char (CHR ''9'') \<longleftrightarrow> is_ascii_digit c"
  by (simp only: word_le_nat_alt unat_of_char is_ascii_digit_def) simp

lemma digit_val_u8: "is_ascii_digit c \<Longrightarrow> unat ((of_char c :: u8) - of_char (CHR ''0'')) = digit_val c"
proof -
  assume "is_ascii_digit c"
  then have "(of_char (CHR ''0'') :: u8) \<le> of_char c" using is_digit_u8 by blast
  from unat_sub[OF this] show ?thesis by (simp only: unat_of_char digit_val_def) simp
qed

lemma scan_tail_scan_price:
  assumes "CHR ''e'' \<notin> set s" "CHR ''E'' \<notin> set s"
  shows "scan_tail (map of_char s) r d f = scan_price s r d f"
  using assms
proof (induction s arbitrary: r d f)
  case (Cons c s)
  have "c \<noteq> CHR ''e''" "c \<noteq> CHR ''E''" using Cons.prems by auto
  moreover have "scan_tail (map of_char s) r' d' f' = scan_price s r' d' f'" for r' d' f'
    using Cons by simp
  ultimately show ?case
    by (simp only: list.map scan_tail.simps scan_price.simps of_char_u8_eq is_digit_u8)
      (simp only: digit_val_u8 simp_thms if_False cong: if_cong)
qed simp

lemma avx_fast: "parse_price_avx512 s = parse_price_fast s"
proof -
  obtain neg bytes where b: "split_sign s = (neg, bytes)" by fastforce
  then have "set bytes \<subseteq> set s" by (auto simp: split_sign_def split: list.splits if_splits)
  then have "scan_tail (map of_char bytes) r 0 False = scan_price bytes r 0 False"
    if "CHR ''e'' \<notin> set s" "CHR ''E'' \<notin> set s" for r
    using that by (intro scan_tail_scan_price) auto
  with b show ?thesis
    by (auto simp: parse_price_avx512_def parse_price_fast_def simd_loop_idle Let_def split: scan.splits)
qed

text \<open>The fast parser's digit loop is exact while the digits form a number below \<open>2 ^ 53\<close>.\<close>

lemma digits_val_Nil [simp]: "digits_val [] = 0"
  by (simp add: digits_val_def)

lemma digits_val_snoc: "digits_val (s @ [c]) = 10 * digits_val s + digit_val c"
  by (simp add: digits_val_def)

lemma foldl_digits: "foldl (\<lambda>n c. 10 * n + digit_val c) k s = k * 10 ^ length s + digits_val s"
proof (induction s arbitrary: k rule: rev_induct)
  case (snoc c s)
  then show ?case by (simp add: digits_val_snoc)
qed (simp add: digits_val_def)

lemma digits_val_Cons: "digits_val (c # s) = digit_val c * 10 ^ length s + digits_val s"
  using foldl_digits[of "digit_val c" s] by (simp add: digits_val_def)

lemma digits_val_append: "digits_val (s @ t) = digits_val s * 10 ^ length t + digits_val t"
  using foldl_digits[of "digits_val s" t] by (simp add: digits_val_def)

lemma nat_as_f64_exact: "n < 2 ^ 53 \<Longrightarrow> nat_as_f64 n = Fin (of_nat n)"
proof (cases "n = 0")
  case False
  assume "n < 2 ^ 53"
  then have "int n \<le> 2 ^ 53" by simp
  with False mk_int[of "int n" False] show ?thesis by (simp add: nat_as_f64_def)
qed (simp add: nat_as_f64_def mk_0)

lemma digit_step:
  assumes "10 * n + d < 2 ^ 53"
  shows "nat_as_f64 n * lit 10 + nat_as_f64 d = nat_as_f64 (10 * n + d)"
proof -
  have n: "nat_as_f64 n = Fin (of_nat n)" "nat_as_f64 d = Fin (of_nat d)"
    "nat_as_f64 (10 * n) = Fin (of_nat (10 * n))"
    by (rule nat_as_f64_exact; use assms in simp)+
  have "nat_as_f64 n * lit 10 = mk False (of_nat (10 * n))"
    by (simp add: n times_f64_def mult.commute)
  also have "\<dots> = Fin (of_nat (10 * n))" using n(3) by (simp add: nat_as_f64_def)
  finally have "nat_as_f64 n * lit 10 + nat_as_f64 d = Fin (of_nat (10 * n)) + Fin (of_nat d)"
    by (simp only: n(2))
  then show ?thesis by (simp add: nat_as_f64_def)
qed

lemma scan_digits:
  assumes "list_all is_ascii_digit s" "k * 10 ^ length s + digits_val s < 2 ^ 53"
  shows "scan_price (s @ t) (nat_as_f64 k) d f =
    scan_price t (nat_as_f64 (k * 10 ^ length s + digits_val s)) (if f then d + length s else d) f"
  using assms
proof (induction s arbitrary: k d)
  case (Cons c s)
  have c: "is_ascii_digit c" "c \<noteq> CHR ''.''" using Cons.prems by (auto simp: is_ascii_digit_def)
  have v: "(10 * k + digit_val c) * 10 ^ length s + digits_val s = k * 10 ^ length (c # s) + digits_val (c # s)"
    by (simp add: digits_val_Cons algebra_simps)
  have "10 * k + digit_val c \<le> (10 * k + digit_val c) * 10 ^ length s" by simp
  then have "10 * k + digit_val c < 2 ^ 53" using Cons.prems(2) v by linarith
  from digit_step[OF this] c Cons.IH[of "10 * k + digit_val c"] Cons.prems v show ?case by simp
qed (simp add: digits_val_def)

text \<open>Powers of ten up to \<open>10 ^ 22\<close> are binary64 values, so square-and-multiply is exact on them.\<close>

lemma mk_pow10:
  assumes "k \<le> 22" shows "mk s (10 ^ k) = Fin (10 ^ k)"
proof -
  have "(5 :: int) ^ k \<le> 5 ^ 22" using assms by (intro power_increasing) auto
  also have "(5 :: int) ^ 22 < 2 ^ 53" by simp
  finally have m: "\<bar>(5 :: int) ^ k\<bar> < 2 ^ 53" by simp
  have r: "(10 :: rat) ^ k = of_int (5 ^ k) * 2 powi int k"
    by (simp add: power_mult_distrib[symmetric])
  have "rnd (10 ^ k) = 10 ^ k" by (rule rnd_exact_less[OF r m]) simp
  moreover have "(10 :: rat) ^ k \<le> 10 ^ 22" using assms by (intro power_increasing) auto
  then have "(10 :: rat) ^ k < 2 powi 1024" by (rule order.strict_trans1) simp
  then have "ilog2 \<bar>10 ^ k\<bar> < 1024" by (intro ilog2_less) auto
  ultimately show ?thesis by (intro mk_Fin) auto
qed

lemma mul_pow10: "i + j \<le> 22 \<Longrightarrow> Fin (10 ^ i) * Fin (10 ^ j) = Fin (10 ^ (i + j))"
proof -
  assume "i + j \<le> 22"
  then have "mk False (10 ^ i * 10 ^ j) = Fin (10 ^ (i + j))"
    using mk_pow10[of "i + j" False] by (simp add: power_add)
  moreover have "\<not> (10 :: rat) ^ n < 0" for n by (simp add: not_less)
  ultimately show ?thesis by (simp add: times_f64_def Let_def)
qed

lemma powi_loop_10:
  "0 < b \<Longrightarrow> j + i * b \<le> 22 \<Longrightarrow> powi_loop b (Fin (10 ^ i)) (Fin (10 ^ j)) = Fin (10 ^ (j + i * b))"
proof (induction b arbitrary: i j rule: less_induct)
  case (less b)
  let ?r = "if odd b then j + i else j"
  have r: "(if odd b then Fin (10 ^ j) * Fin (10 ^ i) else Fin (10 ^ j)) = Fin (10 ^ ?r)"
    using less.prems mul_pow10[of j i] by (cases b) auto
  have b: "b = 2 * (b div 2) + (if odd b then 1 else 0)" by presburger
  have "i * b = i * (2 * (b div 2) + (if odd b then 1 else 0))" using b by simp
  then have e: "?r + (i + i) * (b div 2) = j + i * b" by (simp only: algebra_simps) simp
  show ?case
  proof (cases "b div 2 = 0")
    case True
    then have "b = 1" using less.prems b by auto
    with r show ?thesis by (simp add: powi_loop.simps)
  next
    case False
    then have "i + i \<le> (i + i) * (b div 2)" by simp
    then have "i + i \<le> 22" using e less.prems(2) by linarith
    moreover have "powi_loop (b div 2) (Fin (10 ^ (i + i))) (Fin (10 ^ ?r)) = Fin (10 ^ (j + i * b))"
      using less.IH[of "b div 2" ?r "i + i"] False less.prems e by simp
    ultimately show ?thesis
      using False by (subst powi_loop.simps) (simp only: r mul_pow10 Let_def if_False)
  qed
qed

lemma powi_10: "0 < d \<Longrightarrow> d \<le> 22 \<Longrightarrow> f64_powi (lit 10) d = Fin (10 ^ d)"
  using powi_loop_10[of d 0 1] by (simp add: f64_powi_def one_f64_def)

lemma takeWhile_digits:
  assumes "list_all is_ascii_digit ds" "t = [] \<or> \<not> is_ascii_digit (hd t)"
  shows "takeWhile is_ascii_digit (ds @ t) = ds" "dropWhile is_ascii_digit (ds @ t) = t"
proof -
  have ds: "\<forall>c \<in> set ds. is_ascii_digit c" using assms(1) by (simp add: list_all_iff)
  have "takeWhile is_ascii_digit t = []" "dropWhile is_ascii_digit t = t"
    using assms(2) by (cases t; auto)+
  then show "takeWhile is_ascii_digit (ds @ t) = ds" "dropWhile is_ascii_digit (ds @ t) = t"
    using ds by (simp_all add: takeWhile_append2 dropWhile_append2)
qed

lemma parse_unsigned_plain:
  assumes "list_all is_ascii_digit ds" "list_all is_ascii_digit fs" "ds @ fs \<noteq> []"
  shows "parse_unsigned (ds @ (if fs = [] then [] else CHR ''.'' # fs)) =
    Some (of_nat (digits_val (ds @ fs)) / 10 ^ length fs)"
proof -
  have dot: "\<not> is_ascii_digit (CHR ''.'')" by (simp add: is_ascii_digit_def)
  have fs: "takeWhile is_ascii_digit fs = fs" "dropWhile is_ascii_digit fs = []"
    using takeWhile_digits[OF assms(2), of "[]"] by simp_all
  have v: "a * 10 powi (0 - int n) = a / 10 ^ n" for a :: rat and n
    by (simp add: power_int_minus divide_inverse)
  show ?thesis
  proof (cases "fs = []")
    case True
    with assms takeWhile_digits[OF assms(1), of "[]"] show ?thesis
      by (simp add: parse_unsigned_def parse_exponent_def del: takeWhile_eq_all_conv
          dropWhile_eq_Nil_conv)
  next
    case False
    with assms(3) dot fs takeWhile_digits[OF assms(1), of "CHR ''.'' # fs"] show ?thesis
      by (simp add: parse_unsigned_def parse_exponent_def v del: takeWhile_eq_all_conv
          dropWhile_eq_Nil_conv diff_0)
  qed
qed

lemma scan_plain:
  assumes "list_all is_ascii_digit ds" "list_all is_ascii_digit fs" "digits_val (ds @ fs) < 2 ^ 53"
  shows "scan_price (ds @ (if fs = [] then [] else CHR ''.'' # fs)) (lit 0) 0 False =
    Done (nat_as_f64 (digits_val (ds @ fs))) (length fs)"
proof -
  have z: "lit 0 = nat_as_f64 0" by (simp add: nat_as_f64_def mk_0 zero_f64_def)
  have "digits_val ds \<le> digits_val ds * 10 ^ length fs" by simp
  then have "digits_val ds < 2 ^ 53" using assms(3) unfolding digits_val_append by linarith
  with scan_digits[OF assms(1), of 0] scan_digits[OF assms(2), of "digits_val ds" "[]"] assms(3) show ?thesis
    unfolding z by (simp add: digits_val_append)
qed

lemma finish_plain:
  assumes "n < 2 ^ 53" "d \<le> 22"
  shows "finish_price (nat_as_f64 n) d neg = mk neg ((if neg then -1 else 1) * (of_nat n / 10 ^ d))"
proof -
  have "(if d > 0 then nat_as_f64 n / f64_powi (lit 10) d else nat_as_f64 n) = mk False (of_nat n / 10 ^ d)"
    using powi_10[of d] assms nat_as_f64_exact[OF assms(1)]
    by (auto simp: divide_f64_def Let_def nat_as_f64_def not_less)
  then show ?thesis using uminus_mk[of False "of_nat n / 10 ^ d"] by (simp add: finish_price_def)
qed

text \<open>A departure from the standard parser: a lone sign is read as a zero.\<close>

lemma lone_sign_is_zero: "parse_price_fast ''-'' = Some NZero" "std_parse ''-'' = None"
  by (simp_all add: parse_price_fast_def split_sign_def finish_price_def zero_f64_def std_parse_def
      parse_unsigned_def to_lowercase_def)

subsection \<open>Symbol names\<close>

lemma replace_char: "str_replace [c] [] s = filter (\<lambda>x. x \<noteq> c) s"
  by (induction s) auto

lemma usd_inside:
  assumes "prefix ''USD'' (c # b @ ''USD'')" shows "sublist ''USD'' (c # b)"
proof -
  obtain x y b' where "b = x # y # b'" "c = CHR ''U''" "x = CHR ''S''" "y = CHR ''D''"
    using assms by (cases b; cases "tl b") auto
  then have "prefix ''USD'' (c # b)" by simp
  then show ?thesis by (rule prefix_imp_sublist)
qed

lemma replace_usd: "\<not> sublist ''USD'' base \<Longrightarrow> str_replace ''USD'' rep (base @ ''USD'') = base @ rep"
proof (induction base)
  case (Cons c b)
  have "\<not> prefix ''USD'' (c # b @ ''USD'')" using usd_inside Cons.prems by blast
  moreover have "\<not> sublist ''USD'' b" using Cons.prems by (meson sublist_order.order.trans sublist_Cons_right)
  ultimately show ?case
    using Cons.IH by (simp only: append_Cons str_replace.simps(2) simp_thms if_False)
qed simp

lemma no_usdt: "\<not> sublist ''USD'' base \<Longrightarrow> \<not> sublist ''USDT'' (base @ ''USD'')"
proof (induction base)
  case Nil
  then show ?case by (simp add: sublist_Cons_right)
next
  case (Cons c b)
  have "\<not> prefix ''USD'' (c # b @ ''USD'')" using usd_inside Cons.prems by blast
  then have "\<not> prefix ''USDT'' (c # b @ ''USD'')" by (cases b; cases "tl b") auto
  moreover have "\<not> sublist ''USD'' b" using Cons.prems by (meson sublist_order.order.trans sublist_Cons_right)
  ultimately show ?case using Cons.IH by (simp add: sublist_Cons_right)
qed

lemma strip_yes: "strip_suffix suf n (s @ suf') = s" if "suffix suf (s @ suf')" "length suf' = n"
  using that by (simp add: strip_suffix_def)

lemma strip_no: "\<not> suffix suf s \<Longrightarrow> strip_suffix suf n s = s"
  by (simp add: strip_suffix_def)

lemma suffix_append_conv: "suffix xs (ys @ zs) \<longleftrightarrow> prefix (rev xs) (rev zs @ rev ys)"
  by (simp add: suffix_to_prefix)

lemma has_usdt: "sublist ''USDT'' (base @ ''USDT'')"
  by (simp add: sublist_append_leftI)

lemma upper_names:
  "to_uppercase (a @ b) = to_uppercase a @ to_uppercase b"
  "to_uppercase ''USDT'' = ''USDT''" "to_uppercase ''-USDT-SWAP'' = ''-USDT-SWAP''"
  "to_uppercase ''USDTM'' = ''USDTM''" "to_uppercase ''-USD-PERP'' = ''-USD-PERP''"
  by (simp_all add: to_uppercase_def upper_char_def)

text \<open>From the bare name without dashes and endings, the last three steps.\<close>

lemma normalize_tail:
  assumes "to_uppercase base = base" "CHR ''-'' \<notin> set base"
  shows "normalize_symbol (base @ ''USDT'') = base @ ''USDT''"
    and "normalize_symbol (base @ ''-USDT-SWAP'') = base @ ''USDT''"
    and "normalize_symbol (base @ ''USDTM'') = base @ ''USDT''"
proof -
  have f: "filter (\<lambda>x. x \<noteq> CHR ''-'') base = base"
    using assms(2) by (induction base) auto
  have s: "\<not> suffix ''SWAP'' (base @ ''USDT'')" "\<not> suffix ''PERP'' (base @ ''USDT'')"
    "\<not> suffix ''USDTM'' (base @ ''USDT'')" "\<not> suffix ''SWAP'' (base @ ''USDTM'')"
    "\<not> suffix ''PERP'' (base @ ''USDTM'')"
    by (simp_all add: suffix_append_conv)
  have "strip_suffix ''SWAP'' 4 (base @ ''USDTSWAP'') = base @ ''USDT''"
    using strip_yes[of "''SWAP''" "base @ ''USDT''" "''SWAP''" 4] by (simp add: suffix_append_conv)
  moreover have "strip_suffix ''USDTM'' 1 (base @ ''USDTM'') = base @ ''USDT''"
    using strip_yes[of "''USDTM''" "base @ ''USDT''" "''M''" 1] by (simp add: suffix_append_conv)
  ultimately show "normalize_symbol (base @ ''USDT'') = base @ ''USDT''"
    "normalize_symbol (base @ ''-USDT-SWAP'') = base @ ''USDT''"
    "normalize_symbol (base @ ''USDTM'') = base @ ''USDT''"
    using s strip_no has_usdt[of base] assms(1) f
    by (simp_all add: normalize_symbol_def upper_names replace_char Let_def del: One_nat_def)
qed

lemma normalize_usd:
  assumes "to_uppercase base = base" "CHR ''-'' \<notin> set base" "\<not> sublist ''USD'' base"
  shows "normalize_symbol (base @ ''-USD-PERP'') = base @ ''USDT''"
proof -
  have f: "filter (\<lambda>x. x \<noteq> CHR ''-'') base = base"
    using assms(2) by (induction base) auto
  have s: "\<not> suffix ''SWAP'' (base @ ''USDPERP'')" "\<not> suffix ''USDTM'' (base @ ''USD'')"
    by (simp_all add: suffix_append_conv)
  have "strip_suffix ''PERP'' 4 (base @ ''USDPERP'') = base @ ''USD''"
    using strip_yes[of "''PERP''" "base @ ''USD''" "''PERP''" 4] by (simp add: suffix_append_conv)
  moreover have "sublist ''USD'' (base @ ''USD'')" by (simp add: sublist_append_leftI)
  ultimately show ?thesis
    using s strip_no no_usdt[OF assms(3)] replace_usd[OF assms(3)] has_usdt[of base] assms(1) f
    by (simp add: normalize_symbol_def upper_names replace_char Let_def del: One_nat_def)
qed

lemma normalize_base:
  assumes "to_uppercase base = base" "CHR ''-'' \<notin> set base" "\<not> sublist ''USD'' base"
    "\<not> suffix ''SWAP'' base" "\<not> suffix ''PERP'' base"
  shows "normalize_symbol base = base @ ''USDT''"
proof -
  have f: "filter (\<lambda>x. x \<noteq> CHR ''-'') base = base"
    using assms(2) by (induction base) auto
  have u: "sublist ''USD'' ''USDTM''" "sublist ''USD'' ''USDT''"
    by (simp_all add: prefix_imp_sublist)
  have "\<not> suffix ''USDTM'' base" "\<not> sublist ''USDT'' base"
    using assms(3) u suffix_imp_sublist sublist_order.order.trans by blast+
  with assms strip_no f show ?thesis
    by (simp add: normalize_symbol_def replace_char Let_def del: One_nat_def)
qed

lemma trim_usdt: "\<not> suffix ''USDT'' base \<Longrightarrow> trim_end_matches ''USDT'' (base @ ''USDT'') = base"
  by (subst trim_end_matches.simps, subst trim_end_matches.simps) (simp add: suffixI)

section \<open>Properties\<close>

text \<open>C33. The vectorised price parser is the scalar one: on every string the build with AVX-512 returns
  what the other build returns.\<close>

theorem avx512_agrees: "parse_price_simd True s = parse_price_simd False s"
  by (simp add: parse_price_simd_def avx_fast)

text \<open>C22. The fast price parser is exact: on a plain decimal of at most 32 characters, with or without a
  minus sign, whose digits form a number below \<open>2 ^ 53\<close> with at most 22 decimal places, it returns what
  the standard library's parser returns, the correctly rounded value, in either build.\<close>

theorem parse_price_exact:
  assumes "list_all is_ascii_digit ds" "list_all is_ascii_digit fs" "ds @ fs \<noteq> []"
    and "digits_val (ds @ fs) < 2 ^ 53" "length fs \<le> 22" "length (plain_decimal neg ds fs) \<le> 32"
  shows "parse_price_simd avx (plain_decimal neg ds fs) = std_parse (plain_decimal neg ds fs) \<and>
    std_parse (plain_decimal neg ds fs) =
      Some (mk neg ((if neg then -1 else 1) * (of_nat (digits_val (ds @ fs)) / 10 ^ length fs)))"
proof -
  let ?u = "ds @ (if fs = [] then [] else CHR ''.'' # fs)"
  have ne: "plain_decimal neg ds fs \<noteq> []" using assms(3) by (auto simp: plain_decimal_def)
  have hd: "?u \<noteq> []" "hd ?u \<noteq> CHR ''-''" "hd ?u \<noteq> CHR ''+''"
    using assms(1,3) by (cases ds; auto simp: is_ascii_digit_def)+
  then have sign: "split_sign (plain_decimal neg ds fs) = (neg, ?u)"
    by (cases ?u) (auto simp: split_sign_def plain_decimal_def split: list.splits)
  have "std_parse (plain_decimal neg ds fs) =
      Some (mk neg ((if neg then -1 else 1) * (of_nat (digits_val (ds @ fs)) / 10 ^ length fs)))"
    using parse_unsigned_plain[OF assms(1-3)] hd
    by (cases ?u) (auto simp: std_parse_def plain_decimal_def split: list.splits)
  moreover have "parse_price_fast (plain_decimal neg ds fs) =
      Some (mk neg ((if neg then -1 else 1) * (of_nat (digits_val (ds @ fs)) / 10 ^ length fs)))"
    using ne sign scan_plain[OF assms(1,2,4)] finish_plain[OF assms(4,5), of neg] assms(6)
    by (simp add: parse_price_fast_def del: mult_minus_left)
  ultimately show ?thesis using ne by (simp add: parse_price_simd_def avx_fast)
qed

theorem parse_price_exact_witness:
  "parse_price_simd False ''64250.25'' = Some (Fin (64250 + 1/4))"
proof -
  have "parse_price_simd False (plain_decimal False ''64250'' ''25'') = Some (mk False (6425025 / 100))"
    using parse_price_exact[of "''64250''" "''25''" False False]
    by (simp add: is_ascii_digit_def plain_decimal_def digits_val_def digit_val_def)
  moreover have "mk False (6425025 / 100) = Fin (64250 + 1/4)" by code_simp
  ultimately show ?thesis by (simp add: plain_decimal_def)
qed



end
