(* ===== verification/Runner.thy ===== *)
theory Runner
  imports Entry_Real Exchange_Parser Branchless Market_Data Symbol_Map Pipeline Portfolio Fill_Probability
begin

text \<open>
  src/src/strategy/runner.rs, first part: the strategy runner's state, the prices it reads, the execution
  of an opportunity and the clean-up of exiting trades.  The monitoring of open positions has a theory of
  its own.

  The third-party services are the record \<open>libs\<close>, an argument of every operation: the execution
  backend with clock and UUIDs, the concurrent maps, the queues, the outcome of Redis writes and the JSON
  value behind a Redis key, and \<open>tokio::time::sleep\<close> for microseconds.  The map of active trades needs more of DashMap than the symbol map: removal,
  iteration, and removal by a task that still holds a reference into the map, of which the documentation
  says that it may deadlock; \<open>dm_remove_held\<close> is \<open>None\<close> then.  \<open>get_mut\<close> is a look-up and an insertion.

  \<open>execute_opportunity\<close> and \<open>check_exits\<close> return \<open>None\<close> for a run that never comes back.  The lemmas
  show that an opportunity is taken up at most once per symbol, that a refused one leaves no trace, and
  what happens at an exit.
\<close>

section \<open>Libraries\<close>

record ('m, 'k, 'v) dashmap_full_ops = "('m, 'k, 'v) dashmap_ops" +
  dm_remove :: "'m \<Rightarrow> 'k \<Rightarrow> 'm"
  dm_entries :: "'m \<Rightarrow> ('k \<times> 'v) list"
  dm_remove_held :: "'m \<Rightarrow> 'k \<Rightarrow> 'm option"

record ('w, 'm, 'n, 'tm, 'nm, 'mq, 'oq, 'j) libs =
  l_env :: "'w env"
  l_to :: "('m, key, u32) dashmap_ops"
  l_from :: "('n, u32, key) dashmap_ops"
  l_trades :: "('tm, string, paper_trade) dashmap_full_ops"
  l_trackers :: "('nm, string, negative_funding_tracker) dashmap_ops"
  l_mq :: "('mq, market_update) array_queue_ops"
  l_oq :: "('oq, arbitrage_opportunity) array_queue_ops"
  l_redis_write :: "'w \<Rightarrow> 'w \<times> bool"
  l_redis_get :: "'w \<Rightarrow> string \<Rightarrow> 'w \<times> 'j option"
  l_json :: "'j json_ops"
  l_sleep_us :: "'w \<Rightarrow> nat \<Rightarrow> 'w"
  l_avx :: bool

section \<open>State\<close>

record ('w, 'm, 'n, 'tm, 'nm, 'mq, 'oq) runner =
  rn_portfolio :: portfolio_manager
  rn_exec :: "'w exec"
  rn_trades :: 'tm
  rn_trackers :: 'nm
  rn_estimator :: fill_probability_estimator
  rn_market_consumer :: "'mq market_pipeline option"
  rn_store :: market_data_store
  rn_opportunity_consumer :: "'oq opportunity_queue option"
  rn_symbols :: "('m, 'n) symbol_map"

abbreviation rn_world :: "('w, 'm, 'n, 'tm, 'nm, 'mq, 'oq) runner \<Rightarrow> 'w" where
  "rn_world r \<equiv> ex_world (rn_exec r)"

definition set_world ::
  "'w \<Rightarrow> ('w, 'm, 'n, 'tm, 'nm, 'mq, 'oq) runner \<Rightarrow> ('w, 'm, 'n, 'tm, 'nm, 'mq, 'oq) runner" where
  "set_world w r = r\<lparr>rn_exec := (rn_exec r)\<lparr>ex_world := w\<rparr>\<rparr>"

definition StrategyRunner_new ::
  "('w, 'm, 'n, 'tm, 'nm, 'mq, 'oq, 'j) libs \<Rightarrow> 'w exec \<Rightarrow> f64 \<Rightarrow> ('m, 'n) symbol_map \<Rightarrow> bool \<Rightarrow> bool \<Rightarrow>
   (('w, 'm, 'n, 'tm, 'nm, 'mq, 'oq) runner, portfolio_error) result" where
  "StrategyRunner_new L ex starting_capital symbols del_ok persist_ok =
     (case PortfolioManager_new starting_capital (unix_secs (l_env L) (ex_world ex)) del_ok persist_ok of
        Err e \<Rightarrow> Err e
      | Ok portfolio \<Rightarrow>
          Ok \<lparr>rn_portfolio = portfolio, rn_exec = ex, rn_trades = dm_new (l_trades L),
              rn_trackers = dm_new (l_trackers L), rn_estimator = FillProbabilityEstimator_new,
              rn_market_consumer = None, rn_store = MarketDataStore_new,
              rn_opportunity_consumer = None, rn_symbols = symbols\<rparr>)"

definition set_market_consumer ::
  "('w, 'm, 'n, 'tm, 'nm, 'mq, 'oq) runner \<Rightarrow> 'mq market_pipeline \<Rightarrow>
   ('w, 'm, 'n, 'tm, 'nm, 'mq, 'oq) runner" where
  "set_market_consumer r consumer = r\<lparr>rn_market_consumer := Some consumer\<rparr>"

definition set_opportunity_consumer ::
  "('w, 'm, 'n, 'tm, 'nm, 'mq, 'oq) runner \<Rightarrow> 'oq opportunity_queue \<Rightarrow>
   ('w, 'm, 'n, 'tm, 'nm, 'mq, 'oq) runner" where
  "set_opportunity_consumer r consumer = r\<lparr>rn_opportunity_consumer := Some consumer\<rparr>"

section \<open>Prices and fees\<close>

datatype price_error = NoAsk | NoBid | InvalidPrices | NoTradeForPair

definition get_prices_from_store ::
  "('w, 'm, 'n, 'tm, 'nm, 'mq, 'oq, 'j) libs \<Rightarrow> ('w, 'm, 'n, 'tm, 'nm, 'mq, 'oq) runner \<Rightarrow>
   string \<Rightarrow> string \<Rightarrow> string \<Rightarrow>
   ('w, 'm, 'n, 'tm, 'nm, 'mq, 'oq) runner \<times> (f64 \<times> f64, price_error) result" where
  "get_prices_from_store L r pair long_exchange short_exchange =
     (let (m, long_symbol_id) = get_or_insert (l_to L) (l_from L) (rn_symbols r) long_exchange pair;
          (m, short_symbol_id) = get_or_insert (l_to L) (l_from L) m short_exchange pair;
          r = r\<lparr>rn_symbols := m\<rparr>
      in case get_ask (rn_store r) long_symbol_id of
           None \<Rightarrow> (r, Err NoAsk)
         | Some long_ask \<Rightarrow>
             (case get_bid (rn_store r) short_symbol_id of
                None \<Rightarrow> (r, Err NoBid)
              | Some short_bid \<Rightarrow>
                  if long_ask \<le> lit 0 \<or> short_bid \<le> lit 0 then (r, Err InvalidPrices)
                  else (r, Ok (long_ask, short_bid))))"

definition get_current_prices_for_opportunity ::
  "('w, 'm, 'n, 'tm, 'nm, 'mq, 'oq, 'j) libs \<Rightarrow> ('w, 'm, 'n, 'tm, 'nm, 'mq, 'oq) runner \<Rightarrow>
   string \<Rightarrow> string \<Rightarrow> string \<Rightarrow>
   ('w, 'm, 'n, 'tm, 'nm, 'mq, 'oq) runner \<times> (f64 \<times> f64, price_error) result" where
  "get_current_prices_for_opportunity L r pair long_exchange short_exchange =
     get_prices_from_store L r pair long_exchange short_exchange"

definition get_current_prices ::
  "('w, 'm, 'n, 'tm, 'nm, 'mq, 'oq, 'j) libs \<Rightarrow> ('w, 'm, 'n, 'tm, 'nm, 'mq, 'oq) runner \<Rightarrow> string \<Rightarrow>
   ('w, 'm, 'n, 'tm, 'nm, 'mq, 'oq) runner \<times> (f64 \<times> f64, price_error) result" where
  "get_current_prices L r pair =
     (case List.find (\<lambda>(k, trade). pt_symbol trade = pair) (dm_entries (l_trades L) (rn_trades r)) of
        Some (k, trade) \<Rightarrow> get_prices_from_store L r pair (pt_long_exchange trade) (pt_short_exchange trade)
      | None \<Rightarrow> (r, Err NoTradeForPair))"

definition get_exchange_taker_fee :: "string \<Rightarrow> f64" where
  "get_exchange_taker_fee exchange =
     (let e = to_lowercase exchange in
      if e = ''binance'' then lit 4 else if e = ''okx'' then lit 5 else if e = ''bybit'' then lit 5.5
      else if e = ''bitget'' then lit 6 else if e = ''kucoin'' then lit 6
      else if e = ''hyperliquid'' then lit 4.5 else if e = ''paradex'' then lit 5
      else if e = ''gateio'' then lit 6 else lit 6)"

text \<open>Redis and the parser of one exchange: the first key with a funding rate.\<close>

fun first_rate ::
  "('w, 'm, 'n, 'tm, 'nm, 'mq, 'oq, 'j) libs \<Rightarrow> string \<Rightarrow> string list \<Rightarrow> 'w \<Rightarrow> 'w \<times> f64 option" where
  "first_rate L exchange [] w = (w, None)"
| "first_rate L exchange (k # ks) w =
     (let (w, data) = l_redis_get L w k in
      case Option.bind data (parse_funding_rate (get_parser (l_avx L) (l_json L) exchange)) of
        Some rate \<Rightarrow> (w, Some rate)
      | None \<Rightarrow> first_rate L exchange ks w)"

fun collect_rates ::
  "('w, 'm, 'n, 'tm, 'nm, 'mq, 'oq, 'j) libs \<Rightarrow> string \<Rightarrow> string list \<Rightarrow> 'w \<Rightarrow> 'w \<times> f64 list" where
  "collect_rates L pair [] w = (w, [])"
| "collect_rates L pair (exchange # exchanges) w =
     (let (w, rate) = first_rate L exchange (get_redis_key_patterns exchange pair) w;
          (w, rates) = collect_rates L pair exchanges w
      in (w, case rate of Some x \<Rightarrow> x # rates | None \<Rightarrow> rates))"

definition get_funding_rates ::
  "('w, 'm, 'n, 'tm, 'nm, 'mq, 'oq, 'j) libs \<Rightarrow> ('w, 'm, 'n, 'tm, 'nm, 'mq, 'oq) runner \<Rightarrow> string \<Rightarrow>
   ('w, 'm, 'n, 'tm, 'nm, 'mq, 'oq) runner \<times> (f64 \<times> f64) option" where
  "get_funding_rates L r pair =
     (let (w, rates) = collect_rates L pair [''binance'', ''bybit'', ''okx'', ''kucoin'', ''bitget'', ''gateio'',
            ''hyperliquid'', ''paradex''] (rn_world r)
      in (set_world w r, case rates of a # b # _ \<Rightarrow> Some (a, b) | _ \<Rightarrow> None))"

section \<open>Portfolio calls\<close>

text \<open>\<open>open_trade\<close> and \<open>close_trade\<close> with the Redis writes they reach.\<close>

definition portfolio_open ::
  "('w, 'm, 'n, 'tm, 'nm, 'mq, 'oq, 'j) libs \<Rightarrow> ('w, 'm, 'n, 'tm, 'nm, 'mq, 'oq) runner \<Rightarrow> paper_trade \<Rightarrow>
   ('w, 'm, 'n, 'tm, 'nm, 'mq, 'oq) runner \<times> (unit, portfolio_error) result" where
  "portfolio_open L r trade =
     (let (w1, log_ok) = l_redis_write L (rn_world r);
          (w2, persist_ok) = l_redis_write L w1;
          (p, result) = open_trade (rn_portfolio r) trade log_ok persist_ok;
          w = (case result of Err (ExceedsCapital a b) \<Rightarrow> rn_world r | _ \<Rightarrow> if log_ok then w2 else w1)
      in ((set_world w r)\<lparr>rn_portfolio := p\<rparr>, result))"

definition portfolio_close ::
  "('w, 'm, 'n, 'tm, 'nm, 'mq, 'oq, 'j) libs \<Rightarrow> ('w, 'm, 'n, 'tm, 'nm, 'mq, 'oq) runner \<Rightarrow> string \<Rightarrow> f64 \<Rightarrow>
   string \<Rightarrow> ('w, 'm, 'n, 'tm, 'nm, 'mq, 'oq) runner \<times> (unit, portfolio_error) result" where
  "portfolio_close L r trade_id actual_profit exit_reason =
     (let (w1, log_ok) = l_redis_write L (rn_world r);
          (w2, persist_ok) = l_redis_write L w1;
          (p, result) = close_trade (rn_portfolio r) trade_id actual_profit exit_reason
            (unix_secs (l_env L) (rn_world r)) log_ok persist_ok;
          w = (if position (\<lambda>t. pt_id t = trade_id) (ps_active_trades (pfm_state (rn_portfolio r))) = None
            then rn_world r else if log_ok then w2 else w1)
      in ((set_world w r)\<lparr>rn_portfolio := p\<rparr>, result))"

section \<open>Executing an opportunity\<close>

definition SimulatedOrder_default :: simulated_order where
  "SimulatedOrder_default =
     \<lparr>so_id = [], so_exchange = [], so_symbol = [], so_side = Long, so_order_type = Limit,
      so_price = lit 0, so_size = lit 0, so_queue_position = None, so_created_at = 0,
      so_filled_at = None, so_fill_price = None, so_status = Pending\<rparr>"

definition placeholder_of :: "string \<Rightarrow> arbitrage_opportunity \<Rightarrow> paper_trade" where
  "placeholder_of i opportunity =
     \<lparr>pt_id = i, pt_symbol = ao_symbol opportunity, pt_long_exchange = ao_long_exchange opportunity,
      pt_short_exchange = ao_short_exchange opportunity, pt_entry_time = 0,
      pt_entry_long_price = lit 0, pt_entry_short_price = lit 0, pt_entry_spread_bps = lit 0,
      pt_position_size_usd = lit 0, pt_funding_delta_entry = lit 0, pt_projected_profit_usd = lit 0,
      pt_actual_profit_usd = lit 0, pt_status = Active, pt_exit_reason = Some ''PLACEHOLDER'',
      pt_exit_spread_bps = None, pt_exit_time = None, pt_long_order = SimulatedOrder_default,
      pt_short_order = SimulatedOrder_default, pt_long_exit_order = None, pt_short_exit_order = None,
      pt_stop_loss_triggered = False, pt_stop_loss_long_price = lit 0, pt_stop_loss_short_price = lit 0,
      pt_leg_out_event = None\<rparr>"

definition is_live :: "paper_trade \<Rightarrow> bool" where
  "is_live t \<longleftrightarrow> pt_status t = Active \<or> pt_status t = Exiting"

definition has_active_or_exiting_trade ::
  "('w, 'm, 'n, 'tm, 'nm, 'mq, 'oq, 'j) libs \<Rightarrow> ('w, 'm, 'n, 'tm, 'nm, 'mq, 'oq) runner \<Rightarrow> string \<Rightarrow> bool" where
  "has_active_or_exiting_trade L r symbol =
     list_ex (\<lambda>(k, t). pt_symbol t = symbol \<and> is_live t) (dm_entries (l_trades L) (rn_trades r))"

definition is_real_trading :: "('w, 'm, 'n, 'tm, 'nm, 'mq, 'oq, 'j) libs \<Rightarrow> bool" where
  "is_real_trading L \<longleftrightarrow> backend_name (l_env L) = ''Demo'' \<or> backend_name (l_env L) = ''Live''"

text \<open>The entry, live or simulated; \<open>None\<close> as the result of the trade is an error.\<close>

definition enter_trade ::
  "('w, 'm, 'n, 'tm, 'nm, 'mq, 'oq, 'j) libs \<Rightarrow> ('w, 'm, 'n, 'tm, 'nm, 'mq, 'oq) runner \<Rightarrow>
   arbitrage_opportunity \<Rightarrow> f64 \<Rightarrow> f64 \<Rightarrow>
   (('w, 'm, 'n, 'tm, 'nm, 'mq, 'oq) runner \<times> paper_trade option) option" where
  "enter_trade L r opportunity available_capital position_size =
     (if is_real_trading L then
        case execute_atomic_entry_real (l_env L) opportunity available_capital position_size (rn_exec r) of
          None \<Rightarrow> None
        | Some (ex, Ok trade) \<Rightarrow> Some (r\<lparr>rn_exec := ex\<rparr>, Some trade)
        | Some (ex, Err e) \<Rightarrow> Some (r\<lparr>rn_exec := ex\<rparr>, None)
      else
        case execute_atomic_entry (l_env L) (rn_world r) opportunity available_capital position_size of
          (w, Ok trade) \<Rightarrow> Some (set_world w r, Some trade)
        | (w, Err e) \<Rightarrow> Some (set_world w r, None))"

definition remove_trade ::
  "('w, 'm, 'n, 'tm, 'nm, 'mq, 'oq, 'j) libs \<Rightarrow> string \<Rightarrow> ('w, 'm, 'n, 'tm, 'nm, 'mq, 'oq) runner \<Rightarrow>
   ('w, 'm, 'n, 'tm, 'nm, 'mq, 'oq) runner" where
  "remove_trade L i r = r\<lparr>rn_trades := dm_remove (l_trades L) (rn_trades r) i\<rparr>"

definition put_trade ::
  "('w, 'm, 'n, 'tm, 'nm, 'mq, 'oq, 'j) libs \<Rightarrow> string \<Rightarrow> paper_trade \<Rightarrow>
   ('w, 'm, 'n, 'tm, 'nm, 'mq, 'oq) runner \<Rightarrow> ('w, 'm, 'n, 'tm, 'nm, 'mq, 'oq) runner" where
  "put_trade L i t r = r\<lparr>rn_trades := dm_insert (l_trades L) (rn_trades r) i t\<rparr>"

text \<open>The checks between the placeholder and the entry: current spread, fees, available capital and
  position size, or \<open>None\<close> for \<open>skip_and_cleanup!\<close>.\<close>

definition validate_opportunity ::
  "('w, 'm, 'n, 'tm, 'nm, 'mq, 'oq, 'j) libs \<Rightarrow> ('w, 'm, 'n, 'tm, 'nm, 'mq, 'oq) runner \<Rightarrow>
   arbitrage_opportunity \<Rightarrow>
   ('w, 'm, 'n, 'tm, 'nm, 'mq, 'oq) runner \<times> (f64 \<times> f64 \<times> f64 \<times> f64) option" where
  "validate_opportunity L r opportunity =
     (case get_current_prices_for_opportunity L r (ao_symbol opportunity)
         (ao_long_exchange opportunity) (ao_short_exchange opportunity) of
        (r, Err e) \<Rightarrow> (r, None)
      | (r, Ok (current_long_price, current_short_price)) \<Rightarrow>
          let current_spread_bps = calculate_spread_bps current_long_price current_short_price in
          if current_spread_bps \<le> lit 0 then (r, None)
          else
            let long_taker_bps = get_exchange_taker_fee (ao_long_exchange opportunity);
                short_taker_bps = get_exchange_taker_fee (ao_short_exchange opportunity);
                total_fee_bps = long_taker_bps + short_taker_bps;
                net_profit_bps = current_spread_bps - total_fee_bps
            in if net_profit_bps \<le> lit 0 then (r, None)
               else
                 let available_capital = get_available_capital (rn_portfolio r) in
                 if available_capital \<le> lit 0 then (r, None)
                 else
                   let starting_capital = get_starting_capital (rn_portfolio r);
                       position_size = calculate_position_size current_spread_bps available_capital
                         total_fee_bps (lit 10) starting_capital
                   in if position_size \<le> lit 0 \<or> position_size > available_capital then (r, None)
                      else (r, Some (current_spread_bps, total_fee_bps, available_capital, position_size)))"

definition execute_opportunity ::
  "('w, 'm, 'n, 'tm, 'nm, 'mq, 'oq, 'j) libs \<Rightarrow> ('w, 'm, 'n, 'tm, 'nm, 'mq, 'oq) runner \<Rightarrow>
   arbitrage_opportunity \<Rightarrow> ('w, 'm, 'n, 'tm, 'nm, 'mq, 'oq) runner option" where
  "execute_opportunity L r opportunity =
     (if has_active_or_exiting_trade L r (ao_symbol opportunity) then Some r
      else
        let (w, u) = new_uuid (l_env L) (rn_world r);
            placeholder_trade_id = ''placeholder_'' @ u;
            r = put_trade L placeholder_trade_id (placeholder_of placeholder_trade_id opportunity) (set_world w r)
        in case validate_opportunity L r opportunity of
          (r, None) \<Rightarrow> Some (remove_trade L placeholder_trade_id r)
        | (r, Some (current_spread_bps, total_fee_bps, available_capital, position_size)) \<Rightarrow>
            (case enter_trade L r opportunity available_capital position_size of
               None \<Rightarrow> None
             | Some (r, None) \<Rightarrow> Some (remove_trade L placeholder_trade_id r)
             | Some (r, Some trade) \<Rightarrow>
                 let projected_profit_bps = (current_spread_bps * lit 0.9) - total_fee_bps;
                     trade = trade\<lparr>pt_projected_profit_usd :=
                       (projected_profit_bps / lit 10000) * position_size\<rparr>;
                     r = put_trade L (pt_id trade) trade (remove_trade L placeholder_trade_id r)
                 in Some (fst (portfolio_open L r trade))))"

text \<open>The older path over \<open>AtomicExecutor\<close>, the only one that starts a funding tracker; nothing calls it.\<close>

definition execute_atomic_trade ::
  "('w, 'm, 'n, 'tm, 'nm, 'mq, 'oq, 'j) libs \<Rightarrow> ('w, 'm, 'n, 'tm, 'nm, 'mq, 'oq) runner \<Rightarrow>
   arbitrage_opportunity \<Rightarrow>
   ('w, 'm, 'n, 'tm, 'nm, 'mq, 'oq) runner \<times> (unit, string) result" where
  "execute_atomic_trade L r opportunity =
     (case execute_dual_leg (l_env L) (rn_world r) (ao_symbol opportunity) (ao_long_exchange opportunity)
        (ao_short_exchange opportunity) (ao_long_price opportunity) (ao_short_price opportunity)
        (nat_as_f64 (if order_book_depth_sufficient (cm_hard_constraints (ao_metrics opportunity)) then 1 else 0)
          * lit 1000) of
        (w, Err e) \<Rightarrow> (set_world w r, Err e)
      | (w, Ok res) \<Rightarrow>
          if aer_both_filled res then
            let (w, trade_id) = new_uuid (l_env L) w;
                r = set_world w r;
                trade = \<lparr>pt_id = trade_id, pt_symbol = ao_symbol opportunity,
                  pt_long_exchange = ao_long_exchange opportunity,
                  pt_short_exchange = ao_short_exchange opportunity,
                  pt_entry_time = unix_secs (l_env L) w,
                  pt_entry_long_price = ao_long_price opportunity,
                  pt_entry_short_price = ao_short_price opportunity,
                  pt_entry_spread_bps = ao_spread_bps opportunity,
                  pt_position_size_usd = ao_projected_profit_usd opportunity,
                  pt_funding_delta_entry = ao_funding_delta_8h opportunity,
                  pt_projected_profit_usd = ao_projected_profit_usd opportunity,
                  pt_actual_profit_usd = lit 0, pt_status = Active, pt_exit_reason = None,
                  pt_exit_spread_bps = None, pt_exit_time = None, pt_long_order = aer_long_order res,
                  pt_short_order = aer_short_order res, pt_long_exit_order = None,
                  pt_short_exit_order = None, pt_stop_loss_triggered = False,
                  pt_stop_loss_long_price = lit 0, pt_stop_loss_short_price = lit 0,
                  pt_leg_out_event = None\<rparr>;
                r = r\<lparr>rn_trackers := dm_insert (l_trackers L) (rn_trackers r) (ao_symbol opportunity)
                  (NegativeFundingTracker_new (ao_symbol opportunity))\<rparr>
            in (put_trade L trade_id trade r, Ok ())
          else (set_world w r, Ok ()))"

section \<open>Cleaning up exits\<close>

definition cancel_exit_order ::
  "('w, 'm, 'n, 'tm, 'nm, 'mq, 'oq, 'j) libs \<Rightarrow> string \<Rightarrow> simulated_order option \<Rightarrow>
   ('w, 'm, 'n, 'tm, 'nm, 'mq, 'oq) runner \<Rightarrow> ('w, 'm, 'n, 'tm, 'nm, 'mq, 'oq) runner" where
  "cancel_exit_order L exchange exit_order r =
     (case exit_order of
        Some order \<Rightarrow>
          if so_status order \<noteq> Cancelled
          then set_world (fst (cancel_order (l_env L) (rn_world r) exchange (so_id order))) r else r
      | None \<Rightarrow> r)"

definition exit_profit :: "paper_trade \<Rightarrow> f64" where
  "exit_profit trade =
     (let exit_spread_bps = (case pt_exit_spread_bps trade of Some x \<Rightarrow> x | None \<Rightarrow> lit 0);
          spread_reduction_bps = pt_entry_spread_bps trade - exit_spread_bps;
          long_taker_bps = get_exchange_taker_fee (pt_long_exchange trade);
          short_taker_bps = get_exchange_taker_fee (pt_short_exchange trade);
          total_fee_bps = long_taker_bps + short_taker_bps
      in ((spread_reduction_bps - total_fee_bps) / lit 10000) * pt_position_size_usd trade)"

text \<open>The reference \<open>trade\<close> is held until the end of the block, the removal included.\<close>

definition finish_exit ::
  "('w, 'm, 'n, 'tm, 'nm, 'mq, 'oq, 'j) libs \<Rightarrow> string \<Rightarrow> string \<Rightarrow> paper_trade \<Rightarrow>
   ('w, 'm, 'n, 'tm, 'nm, 'mq, 'oq) runner \<Rightarrow>
   (('w, 'm, 'n, 'tm, 'nm, 'mq, 'oq) runner \<times> (unit, portfolio_error) result) option" where
  "finish_exit L trade_id symbol trade r =
     (let actual_profit = exit_profit trade;
          exit_reason = (case pt_exit_reason trade of Some x \<Rightarrow> x | None \<Rightarrow> ''manual_exit'');
          r = cancel_exit_order L (pt_long_exchange trade) (pt_long_exit_order trade) r;
          r = cancel_exit_order L (pt_short_exchange trade) (pt_short_exit_order trade) r
      in case portfolio_close L r trade_id actual_profit exit_reason of
           (r, Err e) \<Rightarrow> Some (r, Err e)
         | (r, Ok _) \<Rightarrow>
             let r = (case dm_get (l_trackers L) (rn_trackers r) symbol of
                   Some tracker \<Rightarrow> r\<lparr>rn_trackers := dm_insert (l_trackers L) (rn_trackers r) symbol
                     (NegativeFundingTracker_reset tracker)\<rparr>
                 | None \<Rightarrow> r)
             in (case dm_remove_held (l_trades L) (rn_trades r) trade_id of
                   None \<Rightarrow> None
                 | Some m \<Rightarrow> Some (r\<lparr>rn_trades := m\<rparr>, Ok ())))"

text \<open>The exit for negative funding: \<open>None\<close> is \<open>continue\<close>.\<close>

definition funding_exit ::
  "('w, 'm, 'n, 'tm, 'nm, 'mq, 'oq, 'j) libs \<Rightarrow> string \<Rightarrow> string \<Rightarrow>
   ('w, 'm, 'n, 'tm, 'nm, 'mq, 'oq) runner \<Rightarrow>
   ('w, 'm, 'n, 'tm, 'nm, 'mq, 'oq) runner \<times> bool" where
  "funding_exit L trade_id symbol r =
     (case get_funding_rates L r symbol of
        (r, None) \<Rightarrow> (r, False)
      | (r, Some (funding_long, funding_short)) \<Rightarrow>
          let funding_delta = funding_long - funding_short;
              r = (case dm_get (l_trackers L) (rn_trackers r) symbol of
                Some tracker \<Rightarrow> r\<lparr>rn_trackers := dm_insert (l_trackers L) (rn_trackers r) symbol
                  (fst (update_funding tracker funding_delta))\<rparr>
              | None \<Rightarrow> r);
              r = (case dm_get (l_trades L) (rn_trades r) trade_id of
                Some trade \<Rightarrow> put_trade L trade_id (trade\<lparr>pt_exit_reason := Some ''negative_funding_exit'',
                  pt_status := Exiting\<rparr>) r
              | None \<Rightarrow> r)
          in (r, True))"

definition check_exit ::
  "('w, 'm, 'n, 'tm, 'nm, 'mq, 'oq, 'j) libs \<Rightarrow> string \<Rightarrow> ('w, 'm, 'n, 'tm, 'nm, 'mq, 'oq) runner \<Rightarrow>
   (('w, 'm, 'n, 'tm, 'nm, 'mq, 'oq) runner \<times> (unit, portfolio_error) result) option" where
  "check_exit L trade_id r =
     (case dm_get (l_trades L) (rn_trades r) trade_id of
        None \<Rightarrow> Some (r, Ok ())
      | Some t \<Rightarrow>
          let symbol = pt_symbol t;
              should_exit = (case dm_get (l_trackers L) (rn_trackers r) symbol of
                Some tracker \<Rightarrow> NegativeFundingTracker_should_exit tracker | None \<Rightarrow> False);
              (r, go_on) = (if should_exit then funding_exit L trade_id symbol r else (r, True))
          in if \<not> go_on then Some (r, Ok ())
             else (case dm_get (l_trades L) (rn_trades r) trade_id of
               Some trade \<Rightarrow> if pt_status trade = Exiting then finish_exit L trade_id symbol trade r
                 else Some (r, Ok ())
             | None \<Rightarrow> Some (r, Ok ())))"

fun check_exit_loop ::
  "('w, 'm, 'n, 'tm, 'nm, 'mq, 'oq, 'j) libs \<Rightarrow> string list \<Rightarrow> ('w, 'm, 'n, 'tm, 'nm, 'mq, 'oq) runner \<Rightarrow>
   (('w, 'm, 'n, 'tm, 'nm, 'mq, 'oq) runner \<times> (unit, portfolio_error) result) option" where
  "check_exit_loop L [] r = Some (r, Ok ())"
| "check_exit_loop L (trade_id # ids) r =
     (case check_exit L trade_id r of
        None \<Rightarrow> None
      | Some (r, Err e) \<Rightarrow> Some (r, Err e)
      | Some (r, Ok _) \<Rightarrow> check_exit_loop L ids r)"

definition check_exits ::
  "('w, 'm, 'n, 'tm, 'nm, 'mq, 'oq, 'j) libs \<Rightarrow> ('w, 'm, 'n, 'tm, 'nm, 'mq, 'oq) runner \<Rightarrow>
   (('w, 'm, 'n, 'tm, 'nm, 'mq, 'oq) runner \<times> (unit, portfolio_error) result) option" where
  "check_exits L r = check_exit_loop L (map fst (dm_entries (l_trades L) (rn_trades r))) r"

section \<open>The book of trades\<close>

text \<open>Every trade is stored under its own identifier, is active or exiting, and is the only one of its
  symbol.\<close>

definition book_ok ::
  "('w, 'm, 'n, 'tm, 'nm, 'mq, 'oq, 'j) libs \<Rightarrow> ('w, 'm, 'n, 'tm, 'nm, 'mq, 'oq) runner \<Rightarrow> bool" where
  "book_ok L r \<longleftrightarrow>
     list_all (\<lambda>(i, t). pt_id t = i \<and> is_live t) (dm_entries (l_trades L) (rn_trades r)) \<and>
     distinct (map (\<lambda>(i, t). pt_symbol t) (dm_entries (l_trades L) (rn_trades r)))"

abbreviation trade_at ::
  "('w, 'm, 'n, 'tm, 'nm, 'mq, 'oq, 'j) libs \<Rightarrow> ('w, 'm, 'n, 'tm, 'nm, 'mq, 'oq) runner \<Rightarrow> string \<Rightarrow>
   paper_trade option" where
  "trade_at L r \<equiv> dm_get (l_trades L) (rn_trades r)"

text \<open>The book, the invariants of the two maps and the absence of funding trackers, together.\<close>

definition runner_ok ::
  "('w, 'm, 'n, 'tm, 'nm, 'mq, 'oq, 'j) libs \<Rightarrow> ('tm \<Rightarrow> bool) \<Rightarrow> ('nm \<Rightarrow> bool) \<Rightarrow>
   ('w, 'm, 'n, 'tm, 'nm, 'mq, 'oq) runner \<Rightarrow> bool" where
  "runner_ok L tinv ninv r \<longleftrightarrow> tinv (rn_trades r) \<and> ninv (rn_trackers r) \<and> book_ok L r \<and>
     (\<forall>s. dm_get (l_trackers L) (rn_trackers r) s = None)"

text \<open>What a step leaves alone besides the world and the symbol map.\<close>

definition books :: "('w, 'm, 'n, 'tm, 'nm, 'mq, 'oq) runner \<Rightarrow> 'tm \<times> 'nm \<times> portfolio_manager" where
  "books r = (rn_trades r, rn_trackers r, rn_portfolio r)"

text \<open>Concrete libraries: association lists, list queues, the paper backend, a Redis that stores
  everything and returns nothing.  With \<open>blocks\<close>, a removal under a held reference deadlocks.\<close>

definition alist_full_ops :: "bool \<Rightarrow> (('k \<times> 'v) list, 'k, 'v) dashmap_full_ops" where
  "alist_full_ops blocks =
     (let remove = (\<lambda>m k. filter (\<lambda>p. fst p \<noteq> k) m) in
      \<lparr>dm_new = [], dm_get = map_of, dm_insert = (\<lambda>m k v. (k, v) # remove m k), dm_len = length,
       dm_remove = remove, dm_entries = (\<lambda>m. m),
       dm_remove_held = (\<lambda>m k. if blocks then None else Some (remove m k))\<rparr>)"

type_synonym sample_libs_type =
  "(paper_world, (key \<times> u32) list, (u32 \<times> key) list, (string \<times> paper_trade) list,
    (string \<times> negative_funding_tracker) list, nat \<times> market_update list,
    nat \<times> arbitrage_opportunity list, json) libs"

type_synonym sample_runner_type =
  "(paper_world, (key \<times> u32) list, (u32 \<times> key) list, (string \<times> paper_trade) list,
    (string \<times> negative_funding_tracker) list, nat \<times> market_update list,
    nat \<times> arbitrage_opportunity list) runner"

definition sample_libs :: "bool \<Rightarrow> sample_libs_type" where
  "sample_libs blocks =
     \<lparr>l_env = paper_env nat_str, l_to = alist_ops, l_from = alist_ops, l_trades = alist_full_ops blocks,
      l_trackers = alist_ops, l_mq = list_queue, l_oq = list_queue, l_redis_write = (\<lambda>w. (w, True)),
      l_redis_get = (\<lambda>w k. (w, None)), l_json = value_ops,
      l_sleep_us = (\<lambda>w n. w\<lparr>pw_time := pw_time w + 1000 * n\<rparr>), l_avx = False\<rparr>"

definition sample_runner :: "(string \<times> paper_trade) list \<Rightarrow> sample_runner_type" where
  "sample_runner ts =
     \<lparr>rn_portfolio = \<lparr>pfm_state = (PortfolioState_new (lit 1000))\<lparr>ps_active_trades := map snd ts\<rparr>,
        pfm_start_time = 0\<rparr>,
      rn_exec = paper_exec (paper_start Map.empty), rn_trades = ts, rn_trackers = [],
      rn_estimator = FillProbabilityEstimator_new, rn_market_consumer = None,
      rn_store = update (update MarketDataStore_new 1 (lit 99) (lit 100) 0) 2 (lit 101) (lit 102) 0,
      rn_opportunity_consumer = None,
      rn_symbols = \<lparr>to_id = [((''bybit'', ''BTCUSDT''), 1), ((''okx'', ''BTCUSDT''), 2)],
        from_id = [(1, (''bybit'', ''BTCUSDT'')), (2, (''okx'', ''BTCUSDT''))], next_id = 3\<rparr>\<rparr>"

section \<open>Contracts of the libraries\<close>

text \<open>What the documentation of DashMap says of the operations used here.\<close>

locale dashmap_full =
  fixes D :: "('m, 'k, 'v) dashmap_full_ops" and dm_inv :: "'m \<Rightarrow> bool"
  assumes inv_new: "dm_inv (dm_new D)"
    and inv_insert: "dm_inv m \<Longrightarrow> dm_inv (dm_insert D m k v)"
    and inv_remove: "dm_inv m \<Longrightarrow> dm_inv (dm_remove D m k)"
    and get_new: "dm_get D (dm_new D) k = None"
    and get_insert: "dm_inv m \<Longrightarrow> dm_get D (dm_insert D m k v) = (dm_get D m)(k \<mapsto> v)"
    and get_remove: "dm_inv m \<Longrightarrow> dm_get D (dm_remove D m k) = (dm_get D m)(k := None)"
    and entries: "dm_inv m \<Longrightarrow> (k, v) \<in> set (dm_entries D m) \<longleftrightarrow> dm_get D m k = Some v"
    and distinct_keys: "dm_inv m \<Longrightarrow> distinct (map fst (dm_entries D m))"
    and len_entries: "dm_inv m \<Longrightarrow> dm_len D m = length (dm_entries D m)"
    and remove_held: "dm_remove_held D m k = Some m' \<Longrightarrow> m' = dm_remove D m k"
begin

lemma dom_entries: "dm_inv m \<Longrightarrow> dom (dm_get D m) = fst ` set (dm_entries D m)"
  using entries by (force simp: image_iff)

end

sublocale dashmap_full \<subseteq> plain: dashmap "dashmap_ops.truncate D" dm_inv
proof
  fix m assume m: "dm_inv m"
  then show "finite (dom (dm_get (dashmap_ops.truncate D) m))"
    by (simp add: dashmap_ops.truncate_def dom_entries)
  show "dm_len (dashmap_ops.truncate D) m = card (dom (dm_get (dashmap_ops.truncate D) m))"
    using distinct_card[OF distinct_keys[OF m]] m
    by (simp add: dashmap_ops.truncate_def dom_entries len_entries)
qed (simp_all add: dashmap_ops.truncate_def inv_new inv_insert get_new get_insert)

interpretation alist_full: dashmap_full "alist_full_ops blocks" "\<lambda>m. distinct (map fst m)"
proof
  fix m :: "('a \<times> 'b) list" and k v
  have f: "map_of (filter (\<lambda>p. fst p \<noteq> k) m) = (map_of m)(k := None)" by (induction m) auto
  show "dm_get (alist_full_ops blocks) (dm_remove (alist_full_ops blocks) m k) =
      (dm_get (alist_full_ops blocks) m)(k := None)" by (simp add: alist_full_ops_def f)
  show "dm_get (alist_full_ops blocks) (dm_insert (alist_full_ops blocks) m k v) =
      (dm_get (alist_full_ops blocks) m)(k \<mapsto> v)" by (simp add: alist_full_ops_def f)
qed (auto simp: alist_full_ops_def distinct_map_filter split: if_splits)

text \<open>The libraries of the runner.\<close>

locale runner_libs =
  trades: dashmap_full "l_trades L" tinv + trackers: dashmap "l_trackers L" ninv
  for L :: "('w, 'm, 'n, 'tm, 'nm, 'mq, 'oq, 'j) libs" and tinv :: "'tm \<Rightarrow> bool" and ninv :: "'nm \<Rightarrow> bool"
begin

lemmas trade_rules =
  trades.get_insert trades.get_remove trades.inv_insert trades.inv_remove put_trade_def remove_trade_def

lemma has_live_iff:
  assumes "tinv (rn_trades r)"
  shows "has_active_or_exiting_trade L r s \<longleftrightarrow> (\<exists>i t. trade_at L r i = Some t \<and> pt_symbol t = s \<and> is_live t)"
  unfolding has_active_or_exiting_trade_def list_ex_iff
  using trades.entries[OF assms] by force

lemma book_ok_iff:
  assumes "tinv (rn_trades r)"
  shows "book_ok L r \<longleftrightarrow> (\<forall>i t. trade_at L r i = Some t \<longrightarrow> pt_id t = i \<and> is_live t) \<and>
    (\<forall>i j t u. trade_at L r i = Some t \<longrightarrow> trade_at L r j = Some u \<longrightarrow> pt_symbol t = pt_symbol u \<longrightarrow> i = j)"
proof -
  let ?es = "dm_entries (l_trades L) (rn_trades r)"
  have e: "trade_at L r i = Some t \<longleftrightarrow> (i, t) \<in> set ?es" for i t using trades.entries[OF assms] by simp
  have d: "distinct ?es" "inj_on fst (set ?es)" using trades.distinct_keys[OF assms] by (auto simp: distinct_map)
  have "(\<forall>i j t u. (i, t) \<in> set ?es \<longrightarrow> (j, u) \<in> set ?es \<longrightarrow> pt_symbol t = pt_symbol u \<longrightarrow> i = j) \<longleftrightarrow>
    inj_on (\<lambda>(i, t). pt_symbol t) (set ?es)"
    using d(2) unfolding inj_on_def by fastforce
  then show ?thesis unfolding book_ok_def e by (auto simp: list_all_iff distinct_map d(1))
qed

lemma book_ok_insert:
  assumes "tinv (rn_trades r)" "book_ok L r" "pt_id t = i" "is_live t"
    and "\<And>j u. trade_at L r j = Some u \<Longrightarrow> pt_symbol u = pt_symbol t \<Longrightarrow> j = i"
  shows "book_ok L (put_trade L i t r)"
  using assms by (subst book_ok_iff) (auto simp: trade_rules book_ok_iff)

lemma book_ok_remove:
  assumes "tinv (rn_trades r)" "book_ok L r"
  shows "book_ok L (remove_trade L i r)"
  using assms by (subst book_ok_iff) (auto simp: trade_rules book_ok_iff split: if_splits)

lemma book_ok_books: "books r' = books r \<Longrightarrow> book_ok L r' = book_ok L r"
  by (simp add: books_def book_ok_def)

end

section \<open>What the steps leave alone\<close>

lemma set_world_sels [simp]:
  "rn_trades (set_world w r) = rn_trades r" "rn_portfolio (set_world w r) = rn_portfolio r"
  "rn_trackers (set_world w r) = rn_trackers r" "rn_store (set_world w r) = rn_store r"
  "rn_symbols (set_world w r) = rn_symbols r" "rn_world (set_world w r) = w"
  "rn_estimator (set_world w r) = rn_estimator r"
  by (simp_all add: set_world_def)

lemma put_trade_sels [simp]:
  "rn_portfolio (put_trade L i t r) = rn_portfolio r" "rn_trackers (put_trade L i t r) = rn_trackers r"
  "rn_store (put_trade L i t r) = rn_store r" "rn_symbols (put_trade L i t r) = rn_symbols r"
  "rn_trades (put_trade L i t r) = dm_insert (l_trades L) (rn_trades r) i t"
  "rn_exec (put_trade L i t r) = rn_exec r" "rn_estimator (put_trade L i t r) = rn_estimator r"
  by (simp_all add: put_trade_def)

lemma remove_trade_sels [simp]:
  "rn_portfolio (remove_trade L i r) = rn_portfolio r" "rn_trackers (remove_trade L i r) = rn_trackers r"
  "rn_trades (remove_trade L i r) = dm_remove (l_trades L) (rn_trades r) i"
  "rn_exec (remove_trade L i r) = rn_exec r"
  by (simp_all add: remove_trade_def)

lemma books_set_world [simp]: "books (set_world w r) = books r"
  by (simp add: books_def)

lemma books_prices: "get_prices_from_store L r pair a b = (r', res) \<Longrightarrow> books r' = books r"
  by (auto simp: get_prices_from_store_def Let_def books_def split: prod.splits option.splits if_splits)

lemma prices_frame:
  "rn_symbols r = rn_symbols r' \<Longrightarrow> rn_store r = rn_store r' \<Longrightarrow>
   snd (get_prices_from_store L r pair a b) = snd (get_prices_from_store L r' pair a b)"
  by (simp add: get_prices_from_store_def Let_def split: prod.splits option.splits)

text \<open>The conditions under which an opportunity may be entered.\<close>

lemma validate_opportunity_cases:
  assumes "validate_opportunity L r opp = (r', v)"
  shows "books r' = books r"
    and "v = Some (spread, fee, available, sz) \<Longrightarrow>
      available = get_available_capital (rn_portfolio r) \<and> \<not> sz \<le> lit 0 \<and> \<not> available < sz \<and>
      fee = get_exchange_taker_fee (ao_long_exchange opp) + get_exchange_taker_fee (ao_short_exchange opp) \<and>
      \<not> spread - fee \<le> lit 0 \<and> (\<exists>ask bid. spread = calculate_spread_bps ask bid \<and>
        snd (get_prices_from_store L r (ao_symbol opp) (ao_long_exchange opp) (ao_short_exchange opp)) = Ok (ask, bid))"
proof -
  obtain r1 res where p: "get_prices_from_store L r (ao_symbol opp) (ao_long_exchange opp) (ao_short_exchange opp) = (r1, res)"
    by fastforce
  note b = books_prices[OF p]
  show "books r' = books r"
    using assms p b by (auto simp: validate_opportunity_def get_current_prices_for_opportunity_def Let_def
        split: result.splits prod.splits if_splits)
  have c: "get_available_capital (rn_portfolio r1) = get_available_capital (rn_portfolio r)"
    using b by (simp add: books_def)
  assume "v = Some (spread, fee, available, sz)"
  with assms p show "available = get_available_capital (rn_portfolio r) \<and> \<not> sz \<le> lit 0 \<and> \<not> available < sz \<and>
      fee = get_exchange_taker_fee (ao_long_exchange opp) + get_exchange_taker_fee (ao_short_exchange opp) \<and>
      \<not> spread - fee \<le> lit 0 \<and> (\<exists>ask bid. spread = calculate_spread_bps ask bid \<and>
        snd (get_prices_from_store L r (ao_symbol opp) (ao_long_exchange opp) (ao_short_exchange opp)) = Ok (ask, bid))"
    unfolding validate_opportunity_def get_current_prices_for_opportunity_def Let_def
    by (auto simp: c split: result.splits prod.splits if_splits)
qed

lemma enter_trade_books: "enter_trade L r opp c s = Some (r', x) \<Longrightarrow> books r' = books r"
  by (auto simp: enter_trade_def books_def split: if_splits option.splits prod.splits result.splits)

lemma enter_trade_fields:
  assumes "enter_trade L r opp c s = Some (r', Some trade)"
  shows "pt_symbol trade = ao_symbol opp" "pt_status trade = Active" "pt_position_size_usd trade = s"
    "pt_exit_reason trade = None" "pt_leg_out_event trade = None"
  using assms entry_real_trade entry_trade entry_completed(13,14)
  by (auto simp: enter_trade_def split: if_splits option.splits prod.splits result.splits)

lemma enter_trade_returns: "clocked (l_env L) \<Longrightarrow> \<exists>q. enter_trade L r opp c s = Some q"
  using entry_real_frames[of "l_env L" opp c s "rn_exec r"]
  by (auto simp: enter_trade_def split: prod.splits result.splits)

section \<open>Executing an opportunity\<close>

lemma portfolio_open_frame:
  "rn_trades (fst (portfolio_open L r t)) = rn_trades r"
  "rn_trackers (fst (portfolio_open L r t)) = rn_trackers r"
  "pfm_state (rn_portfolio (fst (portfolio_open L r t))) =
    pfm_state (fst (open_trade (rn_portfolio r) t True True))"
  by (simp_all add: portfolio_open_def Let_def case_prod_beta open_trade_state)

lemma execute_opportunity_cases:
  assumes "execute_opportunity L r opp = Some r'"
  obtains (duplicate) "has_active_or_exiting_trade L r (ao_symbol opp)" "r' = r"
  | (refused) p where "\<not> has_active_or_exiting_trade L r (ao_symbol opp)"
      "p = ''placeholder_'' @ snd (new_uuid (l_env L) (rn_world r))"
      "rn_trades r' = dm_remove (l_trades L) (dm_insert (l_trades L) (rn_trades r) p (placeholder_of p opp)) p"
      "rn_trackers r' = rn_trackers r" "rn_portfolio r' = rn_portfolio r"
  | (entered) p t ask bid where "\<not> has_active_or_exiting_trade L r (ao_symbol opp)"
      "p = ''placeholder_'' @ snd (new_uuid (l_env L) (rn_world r))"
      "rn_trades r' = dm_insert (l_trades L) (dm_remove (l_trades L)
         (dm_insert (l_trades L) (rn_trades r) p (placeholder_of p opp)) p) (pt_id t) t"
      "rn_trackers r' = rn_trackers r"
      "pfm_state (rn_portfolio r') = pfm_state (fst (open_trade (rn_portfolio r) t True True))"
      "pt_symbol t = ao_symbol opp" "pt_status t = Active" "pt_leg_out_event t = None"
      "\<not> get_available_capital (rn_portfolio r) < pt_position_size_usd t"
      "\<not> pt_position_size_usd t \<le> lit 0"
      "snd (get_prices_from_store L r (ao_symbol opp) (ao_long_exchange opp) (ao_short_exchange opp)) = Ok (ask, bid)"
      "\<not> calculate_spread_bps ask bid - (get_exchange_taker_fee (ao_long_exchange opp) +
         get_exchange_taker_fee (ao_short_exchange opp)) \<le> lit 0"
proof (cases "has_active_or_exiting_trade L r (ao_symbol opp)")
  case True
  with assms have "r' = r" by (simp add: execute_opportunity_def)
  with True show ?thesis by (rule duplicate)
next
  case False
  obtain w u where u: "new_uuid (l_env L) (rn_world r) = (w, u)" by fastforce
  define p where "p = ''placeholder_'' @ u"
  define r0 where "r0 = put_trade L p (placeholder_of p opp) (set_world w r)"
  obtain r1 v where v: "validate_opportunity L r0 opp = (r1, v)" by fastforce
  have b0: "books r0 = (dm_insert (l_trades L) (rn_trades r) p (placeholder_of p opp), rn_trackers r, rn_portfolio r)"
    by (simp add: r0_def books_def)
  have p: "p = ''placeholder_'' @ snd (new_uuid (l_env L) (rn_world r))" by (simp add: p_def u)
  note b1 = validate_opportunity_cases(1)[OF v, unfolded b0]
  note ex = assms[unfolded execute_opportunity_def Let_def u prod.case, folded p_def, folded r0_def]
  have skip: thesis if "r' = remove_trade L p r2" "books r2 = books r0" for r2
    using refused[OF False p] that b0 by (simp add: books_def)
  show ?thesis
  proof (cases v)
    case None
    with ex False v have "r' = remove_trade L p r1" by simp
    then show ?thesis using skip b1 b0 by simp
  next
    case (Some x)
    obtain spread fee cap sz where x: "x = (spread, fee, cap, sz)" by (cases x)
    note c = validate_opportunity_cases(2)[OF v, unfolded Some x, OF refl]
    from ex False v Some x obtain r2 res where e: "enter_trade L r1 opp cap sz = Some (r2, res)"
      by (auto split: option.splits)
    note b2 = enter_trade_books[OF e, unfolded b1]
    show ?thesis
    proof (cases res)
      case None
      with ex False v Some x e have "r' = remove_trade L p r2" by simp
      then show ?thesis using skip b2 b0 by simp
    next
      case t: (Some t)
      define t' where "t' = t\<lparr>pt_projected_profit_usd := ((spread * lit 0.9 - fee) / lit 10000) * sz\<rparr>"
      have f: "pt_symbol t' = ao_symbol opp" "pt_status t' = Active" "pt_position_size_usd t' = sz"
        "pt_leg_out_event t' = None"
        using enter_trade_fields[OF e[unfolded t]] by (simp_all add: t'_def)
      from c obtain ask bid where ab: "spread = calculate_spread_bps ask bid"
        "snd (get_prices_from_store L r0 (ao_symbol opp) (ao_long_exchange opp) (ao_short_exchange opp)) = Ok (ask, bid)"
        by blast
      have ab': "snd (get_prices_from_store L r (ao_symbol opp) (ao_long_exchange opp) (ao_short_exchange opp)) = Ok (ask, bid)"
        using ab(2) prices_frame[of r0 r L "ao_symbol opp" "ao_long_exchange opp" "ao_short_exchange opp"]
        by (simp add: r0_def)
      have r': "r' = fst (portfolio_open L (put_trade L (pt_id t') t' (remove_trade L p r2)) t')"
        using ex False v Some x e t by (simp add: t'_def)
      show ?thesis
        by (rule entered[OF False p _ _ _ f(1,2,4) _ _ ab'])
          (use b0 b2 c f(3) ab(1) in \<open>auto simp: r' portfolio_open_frame books_def\<close>)
    qed
  qed
qed

lemma execute_opportunity_returns:
  assumes "clocked (l_env L)" shows "\<exists>r'. execute_opportunity L r opp = Some r'"
proof -
  have n: "enter_trade L r1 opp c sz = None \<longleftrightarrow> False" for r1 c sz
    using enter_trade_returns[OF assms, of r1 opp c sz] by auto
  have "execute_opportunity L r opp \<noteq> None"
    by (auto simp: execute_opportunity_def Let_def n simp del: not_None_eq split: prod.splits option.splits)
  then show ?thesis by simp
qed

section \<open>Cleaning up\<close>

lemma portfolio_close_frame:
  "rn_trades (fst (portfolio_close L r i pr reason)) = rn_trades r"
  "rn_trackers (fst (portfolio_close L r i pr reason)) = rn_trackers r"
  by (simp_all add: portfolio_close_def Let_def case_prod_beta)

lemma close_trade_ok: "snd (close_trade m i pr reason now True True) = Ok ()"
  by (simp add: close_trade_def Let_def split: option.splits)

lemma portfolio_close_ok:
  assumes "\<forall>w. snd (l_redis_write L w)"
  shows "snd (portfolio_close L r i pr reason) = Ok ()"
    and "rn_portfolio (fst (portfolio_close L r i pr reason)) =
      fst (close_trade (rn_portfolio r) i pr reason (unix_secs (l_env L) (rn_world r)) True True)"
  using assms by (simp_all add: portfolio_close_def Let_def case_prod_beta close_trade_ok)

lemma cancel_exit_books [simp]: "books (cancel_exit_order L exchange x r) = books r"
  by (simp add: cancel_exit_order_def split: option.splits)

lemma get_funding_rates_books: "get_funding_rates L r s = (r', x) \<Longrightarrow> books r' = books r"
  by (auto simp: get_funding_rates_def Let_def split: prod.splits)

text \<open>The exit of one trade: the state of the portfolio after \<open>close_trade\<close>, and the removal.\<close>

lemma finish_exit_cases:
  assumes "finish_exit L i symbol t r = Some (r', res)"
  shows "rn_trades r' = rn_trades r \<or> dm_remove_held (l_trades L) (rn_trades r) i = Some (rn_trades r')"
    and "rn_trackers r' = rn_trackers r \<or> (\<exists>n. dm_get (l_trackers L) (rn_trackers r) symbol = Some n \<and>
      rn_trackers r' = dm_insert (l_trackers L) (rn_trackers r) symbol (NegativeFundingTracker_reset n))"
proof -
  define r1 where "r1 = cancel_exit_order L (pt_short_exchange t) (pt_short_exit_order t)
    (cancel_exit_order L (pt_long_exchange t) (pt_long_exit_order t) r)"
  have b: "rn_trades r1 = rn_trades r" "rn_trackers r1 = rn_trackers r"
    using cancel_exit_books unfolding r1_def books_def by (metis prod.inject)+
  obtain r2 x where c: "portfolio_close L r1 i (exit_profit t)
      (case pt_exit_reason t of Some x \<Rightarrow> x | None \<Rightarrow> ''manual_exit'') = (r2, x)" by fastforce
  have b2: "rn_trades r2 = rn_trades r" "rn_trackers r2 = rn_trackers r"
    using portfolio_close_frame[of L r1 i "exit_profit t"] c b by (metis fst_conv)+
  note a = assms[unfolded finish_exit_def Let_def, folded r1_def, unfolded c prod.case]
  show "rn_trades r' = rn_trades r \<or> dm_remove_held (l_trades L) (rn_trades r) i = Some (rn_trades r')"
    using a b2 by (auto split: result.splits option.splits)
  show "rn_trackers r' = rn_trackers r \<or> (\<exists>n. dm_get (l_trackers L) (rn_trackers r) symbol = Some n \<and>
      rn_trackers r' = dm_insert (l_trackers L) (rn_trackers r) symbol (NegativeFundingTracker_reset n))"
    using a b2 by (auto split: result.splits option.splits)
qed

interpretation sample: runner_libs "sample_libs blocks" "\<lambda>m. distinct (map fst m)" "\<lambda>_. True"
  by (simp add: runner_libs_def sample_libs_def alist_full.dashmap_full_axioms dashmap_alist)

context runner_libs
begin

lemma runner_ok_books: "books r' = books r \<Longrightarrow> runner_ok L tinv ninv r \<Longrightarrow> runner_ok L tinv ninv r'"
  by (simp add: runner_ok_def books_def book_ok_def)

lemma runner_ok_trades:
  "rn_trades r' = rn_trades r1 \<Longrightarrow> rn_trackers r' = rn_trackers r1 \<Longrightarrow> runner_ok L tinv ninv r1 \<Longrightarrow>
   runner_ok L tinv ninv r'"
  by (simp add: runner_ok_def book_ok_def)

lemma runner_ok_update:
  assumes "runner_ok L tinv ninv r" "trade_at L r i = Some t"
    and "pt_id t' = pt_id t" "pt_symbol t' = pt_symbol t" "is_live t'"
  shows "runner_ok L tinv ninv (put_trade L i t' r)"
proof -
  have t: "tinv (rn_trades r)" and b: "book_ok L r" using assms(1) by (auto simp: runner_ok_def)
  have "pt_id t = i" using b assms(2) unfolding book_ok_iff[OF t] by blast
  moreover have "j = i" if "trade_at L r j = Some u" "pt_symbol u = pt_symbol t" for j u
    using b assms(2) that unfolding book_ok_iff[OF t] by blast
  ultimately have "book_ok L (put_trade L i t' r)"
    using assms(3-5) by (intro book_ok_insert[OF t b]) auto
  with assms(1) show ?thesis by (simp add: runner_ok_def trades.inv_insert)
qed

lemma runner_ok_remove: "runner_ok L tinv ninv r \<Longrightarrow> runner_ok L tinv ninv (remove_trade L i r)"
  using book_ok_remove[of r i] by (simp add: runner_ok_def trades.inv_remove)

lemma runner_ok_execute:
  assumes ok: "runner_ok L tinv ninv r" and ex: "execute_opportunity L r opp = Some r'"
  shows "runner_ok L tinv ninv r'"
proof -
  have t: "tinv (rn_trades r)" and b: "book_ok L r" using ok by (auto simp: runner_ok_def)
  have fresh: "pt_symbol u \<noteq> ao_symbol opp"
    if "\<not> has_active_or_exiting_trade L r (ao_symbol opp)" "trade_at L r j = Some u" for j u
    using that b t by (auto simp: has_live_iff book_ok_iff)
  have skipped: "runner_ok L tinv ninv (remove_trade L p (put_trade L p x r))" for p x
  proof -
    have "trade_at L (remove_trade L p (put_trade L p x r)) = (trade_at L r)(p := None)"
      using t by (simp add: trades.get_insert trades.get_remove trades.inv_insert)
    then show ?thesis
      using ok t unfolding runner_ok_def
      by (auto simp: book_ok_iff trades.inv_insert trades.inv_remove)
  qed
  from ex show ?thesis
  proof (cases rule: execute_opportunity_cases)
    case duplicate
    with ok show ?thesis by simp
  next
    case (refused p)
    then show ?thesis by (intro runner_ok_trades[OF _ _ skipped[of p "placeholder_of p opp"]]) simp_all
  next
    case (entered p x)
    let ?r = "remove_trade L p (put_trade L p (placeholder_of p opp) r)"
    have s: "runner_ok L tinv ninv ?r" by (rule skipped)
    have "trade_at L ?r = (trade_at L r)(p := None)"
      using t by (simp add: trades.get_insert trades.get_remove trades.inv_insert)
    then have "book_ok L (put_trade L (pt_id x) x ?r)"
      using s entered fresh[OF entered(1)]
      by (intro book_ok_insert) (auto simp: runner_ok_def is_live_def split: if_splits)
    with s have "runner_ok L tinv ninv (put_trade L (pt_id x) x ?r)"
      by (simp add: runner_ok_def trades.inv_insert)
    with entered show ?thesis by (intro runner_ok_trades[of r' "put_trade L (pt_id x) x ?r"]) simp_all
  qed
qed

text \<open>Without trackers the exit for negative funding is never taken, and the clean-up of one trade is the
  exit of an exiting one.\<close>

lemma check_exit_no_tracker:
  assumes "dm_get (l_trackers L) (rn_trackers r) = (\<lambda>_. None)"
  shows "check_exit L i r =
    (case trade_at L r i of
       None \<Rightarrow> Some (r, Ok ())
     | Some t \<Rightarrow> if pt_status t = Exiting then finish_exit L i (pt_symbol t) t r else Some (r, Ok ()))"
  using assms by (simp add: check_exit_def split: option.splits)

lemma runner_ok_finish_exit:
  assumes "runner_ok L tinv ninv r" "finish_exit L i symbol t r = Some (r', res)"
  shows "runner_ok L tinv ninv r'"
proof -
  have "rn_trackers r' = rn_trackers r" using finish_exit_cases(2)[OF assms(2)] assms(1) by (auto simp: runner_ok_def)
  moreover have "rn_trades r' = rn_trades r \<or> rn_trades r' = rn_trades (remove_trade L i r)"
    using finish_exit_cases(1)[OF assms(2)] trades.remove_held by auto
  ultimately show ?thesis
    using runner_ok_trades[of r' r] runner_ok_trades[of r' "remove_trade L i r"] assms(1) runner_ok_remove by auto
qed

lemma runner_ok_check_exit:
  assumes "runner_ok L tinv ninv r" "check_exit L i r = Some (r', res)"
  shows "runner_ok L tinv ninv r'"
proof -
  have "dm_get (l_trackers L) (rn_trackers r) = (\<lambda>_. None)" using assms(1) by (auto simp: runner_ok_def)
  from assms(2)[unfolded check_exit_no_tracker[OF this]] show ?thesis
    using assms(1) runner_ok_finish_exit by (auto split: option.splits if_splits)
qed

lemma runner_ok_check_exit_loop:
  "runner_ok L tinv ninv r \<Longrightarrow> check_exit_loop L ids r = Some (r', res) \<Longrightarrow> runner_ok L tinv ninv r'"
  by (induction ids arbitrary: r)
    (auto split: option.splits result.splits dest: runner_ok_check_exit)

end

text \<open>The symbol map hands out identifiers without a bound and the store keeps the first 256: a symbol
  that comes later never has a price.\<close>

lemma late_symbol_no_price:
  assumes "store_wf (rn_store r)" "get_or_insert (l_to L) (l_from L) (rn_symbols r) a pair = (m, i)"
    and "MAX_SYMBOLS \<le> unat i"
  shows "snd (get_prices_from_store L r pair a b) = Err NoAsk"
proof -
  have "get_ask (rn_store r) i = None" using store_wf_count[OF assms(1)] assms(3) by (simp add: get_ask_def)
  then show ?thesis by (simp add: get_prices_from_store_def assms(2) Let_def split: prod.splits)
qed

section \<open>Properties\<close>

text \<open>C7. An opportunity is taken up entirely or not at all.  When a live trade of the symbol exists
  nothing changes.  Otherwise, given a UUID that is not in use, either the trades and the portfolio are
  exactly as before, or one active trade of the symbol has been added to both: its size is within the
  capital that was available, its capital is deducted, and the spread of the current prices exceeded
  the fees of the two exchanges.\<close>

theorem execute_opportunity_all_or_nothing:
  assumes "dashmap_full (l_trades L) tinv" "tinv (rn_trades r)"
    and "trade_at L r (''placeholder_'' @ snd (new_uuid (l_env L) (rn_world r))) = None"
    and "execute_opportunity L r opp = Some r'"
  shows "if has_active_or_exiting_trade L r (ao_symbol opp) then r' = r
    else (trade_at L r' = trade_at L r \<and> rn_portfolio r' = rn_portfolio r) \<or>
      (\<exists>t ask bid. trade_at L r' = (trade_at L r)(pt_id t \<mapsto> t) \<and>
        pt_symbol t = ao_symbol opp \<and> pt_status t = Active \<and>
        \<not> get_available_capital (rn_portfolio r) < pt_position_size_usd t \<and>
        ps_active_trades (pfm_state (rn_portfolio r')) = ps_active_trades (pfm_state (rn_portfolio r)) @ [t] \<and>
        get_available_capital (rn_portfolio r') = get_available_capital (rn_portfolio r) - pt_position_size_usd t \<and>
        snd (get_prices_from_store L r (ao_symbol opp) (ao_long_exchange opp) (ao_short_exchange opp)) =
          Ok (ask, bid) \<and>
        \<not> calculate_spread_bps ask bid - (get_exchange_taker_fee (ao_long_exchange opp) +
          get_exchange_taker_fee (ao_short_exchange opp)) \<le> lit 0)"
  using assms(4)
proof (cases rule: execute_opportunity_cases)
  case duplicate
  then show ?thesis by simp
next
  case (refused p)
  note rules = dashmap_full.get_insert[OF assms(1)] dashmap_full.get_remove[OF assms(1)]
    dashmap_full.inv_insert[OF assms(1)]
  from refused assms(2,3) have "trade_at L r' = trade_at L r" by (simp add: rules fun_upd_idem)
  with refused show ?thesis by simp
next
  case (entered p t ask bid)
  note rules = dashmap_full.get_insert[OF assms(1)] dashmap_full.get_remove[OF assms(1)]
    dashmap_full.inv_insert[OF assms(1)] dashmap_full.inv_remove[OF assms(1)]
  from entered(2,3) assms(2,3) have "trade_at L r' = (trade_at L r)(pt_id t \<mapsto> t)"
    by (simp add: rules fun_upd_idem)
  with entered show ?thesis by (auto simp: open_trade_state get_available_capital_def)
qed

theorem execute_opportunity_all_or_nothing_witness:
  "\<exists>r'. execute_opportunity (sample_libs False) (sample_runner [])
       (Entry.sample_opportunity ''bybit'' ''okx'' (lit 1000) (lit 1000)) = Some r' \<and>
     (trade_at (sample_libs False) r' = Map.empty \<and> rn_portfolio r' = rn_portfolio (sample_runner []) \<or>
      (\<exists>t. trade_at (sample_libs False) r' = [pt_id t \<mapsto> t] \<and> pt_symbol t = ''BTCUSDT'' \<and>
         ps_active_trades (pfm_state (rn_portfolio r')) = [t]))"
proof -
  let ?L = "sample_libs False" and ?r = "sample_runner []"
    and ?opp = "Entry.sample_opportunity ''bybit'' ''okx'' (lit 1000) (lit 1000)"
  have m: "dashmap_full (l_trades ?L) (\<lambda>m. distinct (map fst m))"
    using alist_full.dashmap_full_axioms by (simp add: sample_libs_def)
  have "clocked (l_env ?L)" using clocked_paper by (simp add: sample_libs_def)
  from execute_opportunity_returns[OF this] obtain r' where r': "execute_opportunity ?L ?r ?opp = Some r'"
    by blast
  have e: "trade_at ?L ?r = Map.empty" "\<not> has_active_or_exiting_trade ?L ?r s"
    "ps_active_trades (pfm_state (rn_portfolio ?r)) = []" "distinct (map fst (rn_trades ?r))" for s
    by (simp_all add: sample_libs_def sample_runner_def alist_full_ops_def has_active_or_exiting_trade_def
        fun_eq_iff)
  have "ao_symbol ?opp = ''BTCUSDT''" by (simp add: Entry.sample_opportunity_def)
  with execute_opportunity_all_or_nothing[OF m e(4) _ r'] e r' show ?thesis by auto
qed



end
