(* ===== verification/Monitor.thy ===== *)
theory Monitor
  imports Runner Positions
begin

text \<open>
  src/src/strategy/runner.rs, second part: \<open>monitor_active_positions\<close> and the turn of
  \<open>run_scanning_loop\<close>.

  The locals of one round of the monitoring loop are the record \<open>monitored\<close>.  A trade with both exit
  orders under a real backend is watched on the exchange (\<open>monitor_real\<close>: both exits filled, neither
  after three seconds, one of the two, stop loss); every other trade by its spread (\<open>monitor_paper\<close>).
  The two legs of an operation that the source writes out twice are one definition with the leg as an
  argument.  Log output is left out.  \<open>tokio::join!\<close> of the monitoring and the clean-up is modelled
  sequentially, in the order they are polled.

  A result \<open>None\<close> is a panic or a deadlock.
\<close>

section \<open>Formatting\<close>

text \<open>\<open>format!("{:.2}", x)\<close>: the exact value rounded to two decimal places, ties to even.\<close>

fun fmt2 :: "f64 \<Rightarrow> string" where
  "fmt2 NaN = ''NaN''"
| "fmt2 PInf = ''inf''"
| "fmt2 NInf = ''-inf''"
| "fmt2 x = (let n = nat (rne (\<bar>val x\<bar> * 100)) in
     (if sign_bit x then ''-'' else '''') @ nat_str (n div 100) @ ''.'' @
     nat_str (n mod 100 div 10) @ nat_str (n mod 10))"

section \<open>Locals of one round\<close>

record monitored =
  mo_trade_id :: string
  mo_symbol :: string
  mo_entry_spread_bps :: f64
  mo_position_size_usd :: f64
  mo_projected_profit :: f64
  mo_has_exit_orders :: bool
  mo_stop_loss_long :: f64
  mo_stop_loss_short :: f64
  mo_stop_loss_triggered :: bool
  mo_long_exchange :: string
  mo_short_exchange :: string
  mo_long_price :: f64
  mo_short_price :: f64
  mo_spread_bps :: f64
  mo_long_exit_id :: "string option"
  mo_short_exit_id :: "string option"

fun mo_exchange :: "order_side \<Rightarrow> monitored \<Rightarrow> string" where
  "mo_exchange Long m = mo_long_exchange m"
| "mo_exchange Short m = mo_short_exchange m"

fun mo_price :: "order_side \<Rightarrow> monitored \<Rightarrow> f64" where
  "mo_price Long m = mo_long_price m"
| "mo_price Short m = mo_short_price m"

fun mo_exit_id :: "order_side \<Rightarrow> monitored \<Rightarrow> string option" where
  "mo_exit_id Long m = mo_long_exit_id m"
| "mo_exit_id Short m = mo_short_exit_id m"

definition monitored_of :: "string \<Rightarrow> paper_trade \<Rightarrow> f64 \<Rightarrow> f64 \<Rightarrow> monitored" where
  "monitored_of trade_id trade current_long_price current_short_price =
     \<lparr>mo_trade_id = trade_id, mo_symbol = pt_symbol trade, mo_entry_spread_bps = pt_entry_spread_bps trade,
      mo_position_size_usd = pt_position_size_usd trade, mo_projected_profit = pt_projected_profit_usd trade,
      mo_has_exit_orders = (pt_long_exit_order trade \<noteq> None \<and> pt_short_exit_order trade \<noteq> None),
      mo_stop_loss_long = pt_stop_loss_long_price trade, mo_stop_loss_short = pt_stop_loss_short_price trade,
      mo_stop_loss_triggered = pt_stop_loss_triggered trade, mo_long_exchange = pt_long_exchange trade,
      mo_short_exchange = pt_short_exchange trade, mo_long_price = current_long_price,
      mo_short_price = current_short_price,
      mo_spread_bps = calculate_spread_bps current_long_price current_short_price,
      mo_long_exit_id = None, mo_short_exit_id = None\<rparr>"

text \<open>\<open>if let Some(mut trade) = active_trades.get_mut(&trade_id) { ... }\<close>.\<close>

definition update_trade ::
  "('w, 'm, 'n, 'tm, 'nm, 'mq, 'oq, 'j) libs \<Rightarrow> string \<Rightarrow> (paper_trade \<Rightarrow> paper_trade) \<Rightarrow>
   ('w, 'm, 'n, 'tm, 'nm, 'mq, 'oq) runner \<Rightarrow> ('w, 'm, 'n, 'tm, 'nm, 'mq, 'oq) runner" where
  "update_trade L i f r =
     (case dm_get (l_trades L) (rn_trades r) i of
        Some t \<Rightarrow> put_trade L i (f t) r
      | None \<Rightarrow> r)"

definition mark_exit :: "f64 \<Rightarrow> string \<Rightarrow> paper_trade \<Rightarrow> paper_trade" where
  "mark_exit spread reason t =
     t\<lparr>pt_status := Exiting, pt_exit_reason := Some reason, pt_exit_spread_bps := Some spread\<rparr>"

definition exit_trade ::
  "('w, 'm, 'n, 'tm, 'nm, 'mq, 'oq, 'j) libs \<Rightarrow> monitored \<Rightarrow> string \<Rightarrow>
   ('w, 'm, 'n, 'tm, 'nm, 'mq, 'oq) runner \<Rightarrow> ('w, 'm, 'n, 'tm, 'nm, 'mq, 'oq) runner" where
  "exit_trade L m reason r = update_trade L (mo_trade_id m) (mark_exit (mo_spread_bps m) reason) r"

section \<open>Exit orders\<close>

definition exit_order ::
  "'w env \<Rightarrow> string \<Rightarrow> monitored \<Rightarrow> order_side \<Rightarrow> order_type \<Rightarrow> f64 \<Rightarrow> f64 \<Rightarrow> 'w \<Rightarrow> 'w \<times> simulated_order" where
  "exit_order E tag m leg kind price sz w =
     (let (w, u) = new_uuid E w
      in (w, (order_template (mo_exchange leg m) (mo_symbol m) (opposite leg) kind price sz (unix_secs E w))
           \<lparr>so_id := tag @ u\<rparr>))"

definition exit_filled :: "'w env \<Rightarrow> monitored \<Rightarrow> order_side \<Rightarrow> 'w \<Rightarrow> 'w \<times> bool" where
  "exit_filled E m leg w =
     (case mo_exit_id leg m of
        None \<Rightarrow> (w, False)
      | Some order_id \<Rightarrow>
          let (w, status) = get_order_status E w (mo_exchange leg m) order_id in (w, status = Ok Filled))"

text \<open>Cancel the exit order and ask what it had filled; an unanswered question counts as nothing.\<close>

definition cancelled_fill :: "'w env \<Rightarrow> monitored \<Rightarrow> order_side \<Rightarrow> 'w \<Rightarrow> 'w \<times> f64" where
  "cancelled_fill E m leg w =
     (case mo_exit_id leg m of
        None \<Rightarrow> (w, lit 0)
      | Some order_id \<Rightarrow>
          let w = fst (cancel_order E w (mo_exchange leg m) order_id);
              (w, status) = get_order_status_detailed E w (mo_exchange leg m) order_id (mo_symbol m)
          in (w, case status of Ok status_info \<Rightarrow> osi_filled_quantity status_info | Err e \<Rightarrow> lit 0))"

text \<open>The limit order at the best price, left for two seconds: the quantity filled so far with what it adds.\<close>

definition best_exit_price :: "'w env \<Rightarrow> monitored \<Rightarrow> order_side \<Rightarrow> 'w \<Rightarrow> 'w \<times> (f64, string) result" where
  "best_exit_price E m leg w =
     (case leg of
        Long \<Rightarrow> get_best_bid E w (mo_exchange leg m) (mo_symbol m)
      | Short \<Rightarrow> get_best_ask E w (mo_exchange leg m) (mo_symbol m))"

definition aggressive_exit ::
  "'w env \<Rightarrow> string \<Rightarrow> monitored \<Rightarrow> order_side \<Rightarrow> f64 \<Rightarrow> f64 \<Rightarrow> 'w \<Rightarrow> 'w \<times> f64" where
  "aggressive_exit E tag m leg remaining filled w =
     (case best_exit_price E m leg w of
        (w, Err e) \<Rightarrow> (w, filled)
      | (w, Ok price) \<Rightarrow>
          let (w, limit_order) = exit_order E tag m leg Limit price remaining w in
          (case place_order E w limit_order of
            (w, Err e) \<Rightarrow> (w, filled)
          | (w, Ok placed_order) \<Rightarrow>
              let w = sleep_ms E w 2000;
                  (w, status) = get_order_status_detailed E w (mo_exchange leg m) (so_id placed_order) (mo_symbol m);
                  filled = (case status of
                    Ok status_info \<Rightarrow> filled + osi_filled_quantity status_info | Err e \<Rightarrow> filled)
              in (fst (cancel_order E w (mo_exchange leg m) (so_id placed_order)), filled)))"

definition market_exit ::
  "'w env \<Rightarrow> string \<Rightarrow> monitored \<Rightarrow> order_side \<Rightarrow> f64 \<Rightarrow> 'w \<Rightarrow> 'w \<times> (simulated_order, string) result" where
  "market_exit E tag m leg sz w =
     (let (w, market_order) = exit_order E tag m leg Market (mo_price leg m) sz w
      in place_market_order E w market_order)"

section \<open>Neither exit filled in time\<close>

definition EXIT_TIMEOUT_SECONDS :: u64 where
  "EXIT_TIMEOUT_SECONDS = 3"

definition exit_age :: "u64 \<Rightarrow> simulated_order option \<Rightarrow> u64" where
  "exit_age now exit =
     (case exit of
        Some order \<Rightarrow> if now < so_created_at order then 0 else now - so_created_at order
      | None \<Rightarrow> 0)"

definition exits_timed_out :: "u64 \<Rightarrow> paper_trade \<Rightarrow> bool" where
  "exits_timed_out now trade \<longleftrightarrow>
     exit_age now (pt_long_exit_order trade) > EXIT_TIMEOUT_SECONDS \<and>
     exit_age now (pt_short_exit_order trade) > EXIT_TIMEOUT_SECONDS"

definition timeout_orders :: "'w env \<Rightarrow> monitored \<Rightarrow> f64 \<Rightarrow> f64 \<Rightarrow> 'w \<Rightarrow> 'w" where
  "timeout_orders E m long_quantity short_quantity w =
     (let (w, long_filled) = cancelled_fill E m Long w;
          (w, short_filled) = cancelled_fill E m Short w;
          remaining_long = long_quantity - long_filled;
          remaining_short = short_quantity - short_filled;
          (w, long_filled) = (if remaining_long > lit 0.001
            then aggressive_exit E ''timeout_exit_long_'' m Long remaining_long long_filled w
            else (w, long_filled));
          (w, short_filled) = (if remaining_short > lit 0.001
            then aggressive_exit E ''timeout_exit_short_'' m Short remaining_short short_filled w
            else (w, short_filled));
          final_remaining_long = long_quantity - long_filled;
          final_remaining_short = short_quantity - short_filled;
          w = (if final_remaining_long > lit 0.001
            then fst (market_exit E ''timeout_market_long_'' m Long final_remaining_long w) else w);
          w = (if final_remaining_short > lit 0.001
            then fst (market_exit E ''timeout_market_short_'' m Short final_remaining_short w) else w)
      in w)"

definition force_close ::
  "('w, 'm, 'n, 'tm, 'nm, 'mq, 'oq, 'j) libs \<Rightarrow> monitored \<Rightarrow>
   ('w, 'm, 'n, 'tm, 'nm, 'mq, 'oq) runner \<Rightarrow> ('w, 'm, 'n, 'tm, 'nm, 'mq, 'oq) runner" where
  "force_close L m r =
     (case dm_get (l_trades L) (rn_trades r) (mo_trade_id m) of
        None \<Rightarrow> r
      | Some trade \<Rightarrow>
          exit_trade L m (''Exit timeout ('' @ nat_str (unat EXIT_TIMEOUT_SECONDS) @ ''s) - forced close'')
            (set_world (timeout_orders (l_env L) m (so_size (pt_long_order trade))
               (so_size (pt_short_order trade)) (rn_world r)) r))"

section \<open>One exit filled\<close>

text \<open>The long exit is filled and the short leg open.  \<open>book_limit\<close> is the limit order two levels into
  the book; its flag says that the order filled completely.\<close>

definition aggressive_price :: "price_level list \<Rightarrow> f64" where
  "aggressive_price levels =
     (if length levels \<ge> 3 then pl_price (levels ! 2)
      else if length levels \<ge> 2 then pl_price (levels ! 1)
      else if levels \<noteq> [] then pl_price (levels ! 0)
      else lit 0)"

definition book_limit :: "'w env \<Rightarrow> monitored \<Rightarrow> f64 \<Rightarrow> f64 \<Rightarrow> 'w \<Rightarrow> 'w \<times> f64 \<times> bool" where
  "book_limit E m remaining total_filled w =
     (case get_order_book_depth E w (mo_exchange Short m) (mo_symbol m) 5 of
        (w, Err e) \<Rightarrow> (w, total_filled, False)
      | (w, Ok order_book) \<Rightarrow>
          let price = aggressive_price (obd_asks order_book) in
          if price > lit 0 then
            let (w, limit_order) = exit_order E ''aggressive_exit_'' m Short Limit price remaining w in
            (case place_order E w limit_order of
              (w, Err e) \<Rightarrow> (w, total_filled, False)
            | (w, Ok placed_order) \<Rightarrow>
                let w = sleep_ms E w 200 in
                (case get_order_status_detailed E w (mo_exchange Short m) (so_id placed_order) (mo_symbol m) of
                   (w, Ok status_info) \<Rightarrow>
                     let total_filled = total_filled + osi_filled_quantity status_info in
                     if osi_filled_quantity status_info \<ge> remaining then (w, total_filled, True)
                     else (fst (cancel_order E w (mo_exchange Short m) (so_id placed_order)), total_filled, False)
                 | (w, Err e) \<Rightarrow>
                     (fst (cancel_order E w (mo_exchange Short m) (so_id placed_order)), total_filled, False)))
          else (w, total_filled, False))"

text \<open>The orders of the hedge and the reason it ends with; \<open>None\<close> when the market order failed.\<close>

definition hedge_short_orders :: "'w env \<Rightarrow> monitored \<Rightarrow> f64 \<Rightarrow> 'w \<Rightarrow> 'w \<times> string option" where
  "hedge_short_orders E m short_quantity w =
     (let (w, f) = cancelled_fill E m Short w;
          total_filled = lit 0 + f
      in if total_filled \<ge> short_quantity then (w, Some ''Partial exit hedged (cancelled order filled)'')
         else
           let remaining_after_cancel = short_quantity - total_filled;
               (w, total_filled, complete) = book_limit E m remaining_after_cancel total_filled w
           in if complete then (w, Some ''Partial exit hedged with smart limit'')
              else if total_filled \<ge> short_quantity
              then (w, Some ''Partial exit hedged (limit partial fill)'')
              else
                let remaining_quantity = short_quantity - total_filled in
                case market_exit E ''market_hedge_'' m Short remaining_quantity w of
                  (w, Ok _) \<Rightarrow> (w, Some ''Partial exit hedged with market order'')
                | (w, Err e) \<Rightarrow> (w, None))"

definition finish_hedge ::
  "('w, 'm, 'n, 'tm, 'nm, 'mq, 'oq, 'j) libs \<Rightarrow> monitored \<Rightarrow> 'w \<times> string option \<Rightarrow>
   ('w, 'm, 'n, 'tm, 'nm, 'mq, 'oq) runner \<Rightarrow> ('w, 'm, 'n, 'tm, 'nm, 'mq, 'oq) runner" where
  "finish_hedge L m outcome r =
     (case outcome of
        (w, Some reason) \<Rightarrow> exit_trade L m reason (set_world w r)
      | (w, None) \<Rightarrow> set_world w r)"

definition hedge_short_exit ::
  "('w, 'm, 'n, 'tm, 'nm, 'mq, 'oq, 'j) libs \<Rightarrow> monitored \<Rightarrow>
   ('w, 'm, 'n, 'tm, 'nm, 'mq, 'oq) runner \<Rightarrow> ('w, 'm, 'n, 'tm, 'nm, 'mq, 'oq) runner" where
  "hedge_short_exit L m r =
     (let r = update_trade L (mo_trade_id m) (\<lambda>t. t\<lparr>pt_status := Exiting\<rparr>) r in
      case dm_get (l_trades L) (rn_trades r) (mo_trade_id m) of
        None \<Rightarrow> r
      | Some trade \<Rightarrow>
          finish_hedge L m (hedge_short_orders (l_env L) m (so_size (pt_short_order trade)) (rn_world r)) r)"

text \<open>The short exit is filled and the long leg open: a limit order where the estimator expects a fill,
  otherwise a market order.  An index past the end of an empty side of the book is a panic.\<close>

definition smart_price :: "price_level list \<Rightarrow> nat \<Rightarrow> f64 option" where
  "smart_price levels level =
     (if level < length levels then Some (pl_price (levels ! level))
      else if levels \<noteq> [] then Some (pl_price (levels ! 0)) else None)"

definition instant_hedge :: "'w env \<Rightarrow> monitored \<Rightarrow> f64 \<Rightarrow> 'w \<Rightarrow> 'w \<times> string option" where
  "instant_hedge E m long_quantity w =
     (case market_exit E ''instant_hedge_'' m Long long_quantity w of
        (w, Ok _) \<Rightarrow> (w, Some ''Partial exit hedged with instant market'')
      | (w, Err e) \<Rightarrow> (w, None))"

definition smart_limit ::
  "'w env \<Rightarrow> monitored \<Rightarrow> f64 \<Rightarrow> f64 \<Rightarrow> u64 \<Rightarrow> 'w \<Rightarrow> 'w \<times> string option" where
  "smart_limit E m limit_price long_quantity wait_time_ms w =
     (let (w, limit_order) = exit_order E ''smart_exit_'' m Long Limit limit_price long_quantity w in
      case place_order E w limit_order of
        (w, Err e) \<Rightarrow> instant_hedge E m long_quantity w
      | (w, Ok placed_order) \<Rightarrow>
          let w = sleep_ms E w (unat wait_time_ms);
              (w, status) = get_order_status_detailed E w (mo_exchange Long m) (so_id placed_order) (mo_symbol m);
              cancelled = fst (cancel_order E w (mo_exchange Long m) (so_id placed_order))
          in case status of
               Ok status_info \<Rightarrow>
                 if is_fully_filled status_info then (w, Some ''Partial exit hedged with smart limit'')
                 else if osi_filled_quantity status_info > lit 0 then
                   let remaining = long_quantity - osi_filled_quantity status_info
                   in (fst (market_exit E ''market_remaining_'' m Long remaining cancelled),
                       Some ''Partial exit hedged (limit partial + market)'')
                 else instant_hedge E m long_quantity cancelled
             | Err e \<Rightarrow> instant_hedge E m long_quantity cancelled)"

definition hedge_long_orders ::
  "'w env \<Rightarrow> fill_probability_estimator \<Rightarrow> monitored \<Rightarrow> f64 \<Rightarrow> 'w \<Rightarrow> ('w \<times> string option) option" where
  "hedge_long_orders E estimator m long_quantity w =
     (let position_size_usd = long_quantity * mo_price Long m;
          w = (case mo_exit_id Long m of
            Some order_id \<Rightarrow> fst (cancel_order E w (mo_exchange Long m) order_id) | None \<Rightarrow> w)
      in case get_order_book_depth E w (mo_exchange Long m) (mo_symbol m) 5 of
           (w, Ok order_book) \<Rightarrow>
             let decision = should_try_limit estimator order_book Short position_size_usd in
             if lod_use_limit decision then
               map_option (\<lambda>limit_price.
                   smart_limit E m limit_price long_quantity (lod_wait_time_ms decision) w)
                 (smart_price (obd_bids order_book) (lod_price_level decision))
             else Some (instant_hedge E m long_quantity w)
         | (w, Err e) \<Rightarrow>
             Some (fst (market_exit E ''instant_hedge_'' m Long long_quantity w),
                   Some ''Partial exit hedged with market (no order book)''))"

definition hedge_long_exit ::
  "('w, 'm, 'n, 'tm, 'nm, 'mq, 'oq, 'j) libs \<Rightarrow> monitored \<Rightarrow>
   ('w, 'm, 'n, 'tm, 'nm, 'mq, 'oq) runner \<Rightarrow> ('w, 'm, 'n, 'tm, 'nm, 'mq, 'oq) runner option" where
  "hedge_long_exit L m r =
     (let r = update_trade L (mo_trade_id m) (\<lambda>t. t\<lparr>pt_status := Exiting\<rparr>) r in
      case dm_get (l_trades L) (rn_trades r) (mo_trade_id m) of
        None \<Rightarrow> Some r
      | Some trade \<Rightarrow>
          map_option (\<lambda>outcome. finish_hedge L m outcome r)
            (hedge_long_orders (l_env L) (rn_estimator r) m (so_size (pt_long_order trade)) (rn_world r)))"

section \<open>Stop loss\<close>

definition stop_loss_hit :: "monitored \<Rightarrow> bool" where
  "stop_loss_hit m \<longleftrightarrow> mo_long_price m \<le> mo_stop_loss_long m \<or> mo_short_price m \<ge> mo_stop_loss_short m"

definition mark_stop_loss :: "monitored \<Rightarrow> paper_trade \<Rightarrow> paper_trade" where
  "mark_stop_loss m t =
     t\<lparr>pt_stop_loss_triggered := True, pt_status := Exiting,
       pt_exit_reason := Some (''Stop-loss triggered (30% widening) | Long: $'' @ fmt2 (mo_long_price m) @
         '' | Short: $'' @ fmt2 (mo_short_price m)),
       pt_exit_spread_bps := Some (mo_spread_bps m)\<rparr>"

definition stop_loss_orders :: "'w env \<Rightarrow> monitored \<Rightarrow> f64 \<Rightarrow> f64 \<Rightarrow> f64 \<Rightarrow> f64 \<Rightarrow> 'w \<Rightarrow> 'w" where
  "stop_loss_orders E m long_quantity short_quantity long_filled short_filled w =
     (if long_filled \<ge> long_quantity \<and> short_filled \<ge> short_quantity then w
      else
        let (w, long_filled) = (if long_filled < long_quantity
              then aggressive_exit E ''stop_loss_limit_long_'' m Long (long_quantity - long_filled) long_filled w
              else (w, long_filled));
            (w, short_filled) = (if short_filled < short_quantity
              then aggressive_exit E ''stop_loss_limit_short_'' m Short (short_quantity - short_filled) short_filled w
              else (w, short_filled))
        in if long_filled \<ge> long_quantity \<and> short_filled \<ge> short_quantity then w
           else
             let remaining_long = long_quantity - long_filled;
                 remaining_short = short_quantity - short_filled;
                 w = (if remaining_long > lit 0.001
                   then fst (market_exit E ''stop_loss_market_long_'' m Long remaining_long w) else w);
                 w = (if remaining_short > lit 0.001
                   then fst (market_exit E ''stop_loss_market_short_'' m Short remaining_short w) else w)
             in w)"

definition stop_loss ::
  "('w, 'm, 'n, 'tm, 'nm, 'mq, 'oq, 'j) libs \<Rightarrow> monitored \<Rightarrow>
   ('w, 'm, 'n, 'tm, 'nm, 'mq, 'oq) runner \<Rightarrow> ('w, 'm, 'n, 'tm, 'nm, 'mq, 'oq) runner" where
  "stop_loss L m r =
     (if \<not> mo_stop_loss_triggered m \<and> stop_loss_hit m then
        case dm_get (l_trades L) (rn_trades r) (mo_trade_id m) of
          None \<Rightarrow> r
        | Some trade \<Rightarrow>
            let long_quantity = so_size (pt_long_order trade);
                short_quantity = so_size (pt_short_order trade);
                (w, long_filled) = cancelled_fill (l_env L) m Long (rn_world r);
                (w, short_filled) = cancelled_fill (l_env L) m Short w;
                r = update_trade L (mo_trade_id m) (mark_stop_loss m) (set_world w r)
            in set_world (stop_loss_orders (l_env L) m long_quantity short_quantity long_filled short_filled w) r
      else r)"

section \<open>Monitoring on the exchange\<close>

definition monitor_real ::
  "('w, 'm, 'n, 'tm, 'nm, 'mq, 'oq, 'j) libs \<Rightarrow> monitored \<Rightarrow>
   ('w, 'm, 'n, 'tm, 'nm, 'mq, 'oq) runner \<Rightarrow> ('w, 'm, 'n, 'tm, 'nm, 'mq, 'oq) runner option" where
  "monitor_real L m r =
     (case dm_get (l_trades L) (rn_trades r) (mo_trade_id m) of
        None \<Rightarrow> Some r
      | Some trade \<Rightarrow>
          let m = m\<lparr>mo_long_exit_id := map_option so_id (pt_long_exit_order trade),
                    mo_short_exit_id := map_option so_id (pt_short_exit_order trade)\<rparr>;
              (w, long_exit_filled) = exit_filled (l_env L) m Long (rn_world r);
              (w, short_exit_filled) = exit_filled (l_env L) m Short w;
              r = set_world w r
          in if long_exit_filled \<and> short_exit_filled
             then Some (exit_trade L m ''Exit orders filled (90% capture)'' r)
             else if \<not> long_exit_filled \<and> \<not> short_exit_filled then
               (case dm_get (l_trades L) (rn_trades r) (mo_trade_id m) of
                  None \<Rightarrow> Some r
                | Some trade \<Rightarrow>
                    if exits_timed_out (unix_secs (l_env L) w) trade then Some (force_close L m r)
                    else Some (stop_loss L m r))
             else if long_exit_filled then Some (hedge_short_exit L m r)
             else hedge_long_exit L m r)"

section \<open>Monitoring by the spread\<close>

definition stop_reason :: "f64 \<Rightarrow> f64 \<Rightarrow> string" where
  "stop_reason entry_spread_bps current_spread_bps =
     ''Stop loss | Entry: '' @ fmt2 entry_spread_bps @ ''bps | Exit: '' @ fmt2 current_spread_bps @ ''bps''"

definition profit_reason :: "f64 \<Rightarrow> f64 \<Rightarrow> f64 \<Rightarrow> string" where
  "profit_reason entry_spread_bps current_spread_bps spread_reduction_bps =
     ''Profit hit | Entry: '' @ fmt2 entry_spread_bps @ ''bps | Exit: '' @ fmt2 current_spread_bps @
     ''bps | Captured: '' @ fmt2 spread_reduction_bps @ ''bps''"

definition exit_if :: "bool \<Rightarrow> f64 \<Rightarrow> string \<Rightarrow> paper_trade \<Rightarrow> paper_trade" where
  "exit_if condition spread reason t =
     (if condition \<and> pt_exit_reason t = None then mark_exit spread reason t else t)"

definition paper_exit_checks ::
  "f64 \<Rightarrow> f64 \<Rightarrow> f64 \<Rightarrow> f64 \<Rightarrow> f64 \<Rightarrow> f64 \<Rightarrow> paper_trade \<Rightarrow> paper_trade" where
  "paper_exit_checks entry_spread_bps current_spread_bps current_pnl projected entry_funding_delta
       current_funding_delta t =
     (let spread_reduction_bps = entry_spread_bps - current_spread_bps;
          spread_closed_pct = (spread_reduction_bps / entry_spread_bps) * lit 100;
          t = (if spread_closed_pct \<ge> lit 90 \<and> entry_spread_bps > lit 0 \<and> current_spread_bps > lit 0
            then mark_exit current_spread_bps
              (profit_reason entry_spread_bps current_spread_bps spread_reduction_bps) t
            else t);
          t = exit_if (current_pnl \<le> projected * (- lit 0.2) \<and> projected > lit 0) current_spread_bps
            (stop_reason entry_spread_bps current_spread_bps) t;
          max_loss = fmax (projected * lit 0.5) (lit 5);
          t = exit_if (current_pnl \<le> - max_loss) current_spread_bps
            (stop_reason entry_spread_bps current_spread_bps) t;
          t = exit_if (current_spread_bps > entry_spread_bps * lit 1.3) current_spread_bps
            (stop_reason entry_spread_bps current_spread_bps) t;
          t = exit_if (\<bar>entry_funding_delta\<bar> > lit 0.0001 \<and>
              \<bar>current_funding_delta\<bar> < \<bar>entry_funding_delta\<bar> * lit 0.2) current_spread_bps
            ''funding_convergence'' t;
          t = exit_if (\<bar>current_funding_delta\<bar> < lit 0.00005) current_spread_bps ''funding_convergence'' t
      in t)"

definition check_leg_out :: "u64 \<Rightarrow> f64 \<Rightarrow> f64 \<Rightarrow> paper_trade \<Rightarrow> paper_trade" where
  "check_leg_out now_ms current_long_price current_short_price t =
     (let time_since_entry = now_ms - (pt_entry_time t * 1000);
          long_filled = (so_status (pt_long_order t) = Filled);
          short_filled = (so_status (pt_short_order t) = Filled)
      in if detect_leg_out long_filled short_filled time_since_entry \<and> pt_leg_out_event t = None
         then t\<lparr>pt_leg_out_event := Some
                \<lparr>lo_filled_leg = (if long_filled then ''long'' else ''short''),
                 lo_filled_at = (case so_filled_at (pt_long_order t) of Some x \<Rightarrow> x | None \<Rightarrow> 0),
                 lo_unfilled_leg = (if \<not> long_filled then ''long'' else ''short''),
                 lo_hedge_executed = True,
                 lo_hedge_price = fmax current_long_price current_short_price\<rparr>\<rparr>
         else t)"

definition monitor_paper ::
  "('w, 'm, 'n, 'tm, 'nm, 'mq, 'oq, 'j) libs \<Rightarrow> monitored \<Rightarrow>
   ('w, 'm, 'n, 'tm, 'nm, 'mq, 'oq) runner \<Rightarrow>
   ('w, 'm, 'n, 'tm, 'nm, 'mq, 'oq) runner \<times> (unit, price_error) result" where
  "monitor_paper L m r =
     (case get_current_prices L r (mo_symbol m) of
        (r, Err e) \<Rightarrow> (r, Err e)
      | (r, Ok (current_long_price, current_short_price)) \<Rightarrow>
          let current_spread_bps = calculate_spread_bps current_long_price current_short_price;
              spread_reduction_bps = mo_entry_spread_bps m - current_spread_bps;
              current_pnl = (spread_reduction_bps / lit 10000) * mo_position_size_usd m;
              entry_funding_delta = (case dm_get (l_trades L) (rn_trades r) (mo_trade_id m) of
                Some trade \<Rightarrow> pt_funding_delta_entry trade | None \<Rightarrow> lit 0);
              current_funding_delta = entry_funding_delta;
              now_ms = of_nat (unix_nanos (l_env L) (rn_world r) div 1000000)
          in (update_trade L (mo_trade_id m) (\<lambda>t.
                check_leg_out now_ms current_long_price current_short_price
                  (paper_exit_checks (mo_entry_spread_bps m) current_spread_bps current_pnl
                     (mo_projected_profit m) entry_funding_delta current_funding_delta t)) r,
              Ok ()))"

section \<open>monitor_active_positions\<close>

definition monitor_trade ::
  "('w, 'm, 'n, 'tm, 'nm, 'mq, 'oq, 'j) libs \<Rightarrow> string \<Rightarrow> ('w, 'm, 'n, 'tm, 'nm, 'mq, 'oq) runner \<Rightarrow>
   (('w, 'm, 'n, 'tm, 'nm, 'mq, 'oq) runner \<times> (unit, price_error) result) option" where
  "monitor_trade L trade_id r =
     (case dm_get (l_trades L) (rn_trades r) trade_id of
        None \<Rightarrow> Some (r, Ok ())
      | Some trade \<Rightarrow>
          (case get_current_prices L r (pt_symbol trade) of
             (r, Err e) \<Rightarrow> Some (r, Ok ())
           | (r, Ok (current_long_price, current_short_price)) \<Rightarrow>
               let m = monitored_of trade_id trade current_long_price current_short_price in
               if is_real_trading L \<and> mo_has_exit_orders m
               then map_option (\<lambda>r. (r, Ok ())) (monitor_real L m r)
               else Some (monitor_paper L m r)))"

fun monitor_loop ::
  "('w, 'm, 'n, 'tm, 'nm, 'mq, 'oq, 'j) libs \<Rightarrow> string list \<Rightarrow> ('w, 'm, 'n, 'tm, 'nm, 'mq, 'oq) runner \<Rightarrow>
   (('w, 'm, 'n, 'tm, 'nm, 'mq, 'oq) runner \<times> (unit, price_error) result) option" where
  "monitor_loop L [] r = Some (r, Ok ())"
| "monitor_loop L (trade_id # ids) r =
     (case monitor_trade L trade_id r of
        None \<Rightarrow> None
      | Some (r, Err e) \<Rightarrow> Some (r, Err e)
      | Some (r, Ok _) \<Rightarrow> monitor_loop L ids r)"

definition monitor_active_positions ::
  "('w, 'm, 'n, 'tm, 'nm, 'mq, 'oq, 'j) libs \<Rightarrow> ('w, 'm, 'n, 'tm, 'nm, 'mq, 'oq) runner \<Rightarrow>
   (('w, 'm, 'n, 'tm, 'nm, 'mq, 'oq) runner \<times> (unit, price_error) result) option" where
  "monitor_active_positions L r = monitor_loop L (map fst (dm_entries (l_trades L) (rn_trades r))) r"

section \<open>run_scanning_loop\<close>

definition drain_market ::
  "('w, 'm, 'n, 'tm, 'nm, 'mq, 'oq, 'j) libs \<Rightarrow> ('w, 'm, 'n, 'tm, 'nm, 'mq, 'oq) runner \<Rightarrow>
   ('w, 'm, 'n, 'tm, 'nm, 'mq, 'oq) runner" where
  "drain_market L r =
     (case rn_market_consumer r of
        None \<Rightarrow> r
      | Some consumer \<Rightarrow>
          let (consumer, updates) = batch_loop (MarketConsumer_pop (l_mq L)) 100 consumer
          in r\<lparr>rn_market_consumer := Some consumer,
               rn_store := foldl update_from_market_update (rn_store r) updates\<rparr>)"

definition execute_next ::
  "('w, 'm, 'n, 'tm, 'nm, 'mq, 'oq, 'j) libs \<Rightarrow> ('w, 'm, 'n, 'tm, 'nm, 'mq, 'oq) runner \<Rightarrow>
   ('w, 'm, 'n, 'tm, 'nm, 'mq, 'oq) runner option" where
  "execute_next L r =
     (case rn_opportunity_consumer r of
        None \<Rightarrow> None
      | Some consumer \<Rightarrow>
          let (consumer, next_opportunity) = OpportunityConsumer_pop (l_oq L) consumer;
              r = r\<lparr>rn_opportunity_consumer := Some consumer\<rparr>
          in case next_opportunity of
               Some opportunity \<Rightarrow> execute_opportunity L r opportunity
             | None \<Rightarrow> Some r)"

definition scanning_turn ::
  "('w, 'm, 'n, 'tm, 'nm, 'mq, 'oq, 'j) libs \<Rightarrow> ('w, 'm, 'n, 'tm, 'nm, 'mq, 'oq) runner \<Rightarrow>
   ('w, 'm, 'n, 'tm, 'nm, 'mq, 'oq) runner option" where
  "scanning_turn L r =
     (case execute_next L (drain_market L r) of
        None \<Rightarrow> None
      | Some r \<Rightarrow>
          let r = set_world (l_sleep_us L (rn_world r) 100) r in
          (case monitor_active_positions L r of
             None \<Rightarrow> None
           | Some (r, monitor_result) \<Rightarrow> map_option fst (check_exits L r)))"

section \<open>Reachable states\<close>

text \<open>The runner between the turns of its loop.  Other threads fill the queues and extend the symbol map,
  and time passes in the world.\<close>

inductive reachable ::
  "('w, 'm, 'n, 'tm, 'nm, 'mq, 'oq, 'j) libs \<Rightarrow> ('w, 'm, 'n, 'tm, 'nm, 'mq, 'oq) runner \<Rightarrow> bool"
  for L where
  start: "StrategyRunner_new L ex starting_capital symbols del_ok persist_ok = Ok r \<Longrightarrow> reachable L r"
| others: "reachable L r \<Longrightarrow> reachable L ((set_world w r)\<lparr>rn_market_consumer := mc,
    rn_opportunity_consumer := oc, rn_symbols := symbols\<rparr>)"
| turn: "reachable L r \<Longrightarrow> scanning_turn L r = Some r' \<Longrightarrow> reachable L r'"

text \<open>\<open>marks t t'\<close>: monitoring has changed at most the status, to exiting, and the notes on the exit.\<close>

definition trade_core :: "paper_trade \<Rightarrow> paper_trade" where
  "trade_core t = t\<lparr>pt_status := Active, pt_exit_reason := None, pt_exit_spread_bps := None,
     pt_stop_loss_triggered := False, pt_leg_out_event := None\<rparr>"

definition marks :: "paper_trade \<Rightarrow> paper_trade \<Rightarrow> bool" where
  "marks t t' \<longleftrightarrow> trade_core t' = trade_core t \<and> (pt_status t' = pt_status t \<or> pt_status t' = Exiting)"

definition advances ::
  "('w, 'm, 'n, 'tm, 'nm, 'mq, 'oq, 'j) libs \<Rightarrow> ('tm \<Rightarrow> bool) \<Rightarrow>
   ('w, 'm, 'n, 'tm, 'nm, 'mq, 'oq) runner \<Rightarrow> ('w, 'm, 'n, 'tm, 'nm, 'mq, 'oq) runner \<Rightarrow> bool" where
  "advances L tinv r r' \<longleftrightarrow> tinv (rn_trades r') \<and> rn_trackers r' = rn_trackers r \<and>
     rn_portfolio r' = rn_portfolio r \<and> rn_store r' = rn_store r \<and>
     (\<forall>i. rel_option marks (trade_at L r i) (trade_at L r' i))"

text \<open>The decision that the sequence of checks on a simulated trade amounts to.\<close>

definition exit_wanted :: "f64 \<Rightarrow> f64 \<Rightarrow> f64 \<Rightarrow> f64 \<Rightarrow> f64 \<Rightarrow> string option" where
  "exit_wanted entry current pnl projected funding_delta =
     (if (entry - current) / entry * lit 100 \<ge> lit 90 \<and> entry > lit 0 \<and> current > lit 0
      then Some (profit_reason entry current (entry - current))
      else if (pnl \<le> projected * (- lit 0.2) \<and> projected > lit 0) \<or> pnl \<le> - fmax (projected * lit 0.5) (lit 5) \<or>
        current > entry * lit 1.3
      then Some (stop_reason entry current)
      else if \<bar>funding_delta\<bar> < lit 0.00005 then Some ''funding_convergence''
      else None)"

text \<open>No trade of the portfolio carries a leg-out event, and none was ever counted.\<close>

definition no_leg_outs :: "portfolio_state \<Rightarrow> bool" where
  "no_leg_outs st \<longleftrightarrow> (\<forall>t \<in> set (ps_active_trades st). pt_leg_out_event t = None) \<and>
     ps_leg_out_count st = 0 \<and> ps_leg_out_total_loss st = lit 0"

text \<open>Concrete inputs: a new runner with an empty opportunity queue, a trade with exit orders, and the
  libraries with a backend that calls itself Demo.\<close>

definition sample_start :: sample_runner_type where
  "sample_start = (sample_runner [])\<lparr>rn_store := MarketDataStore_new,
     rn_symbols := \<lparr>to_id = [], from_id = [], next_id = 1\<rparr>\<rparr>"

definition sample_queue :: "(nat \<times> arbitrage_opportunity list) opportunity_queue option" where
  "sample_queue = Some \<lparr>oq_queue = (1, []), oq_push_count = 0, oq_pop_count = 0, oq_drop_count = 0\<rparr>"

definition demo_libs :: sample_libs_type where
  "demo_libs = (sample_libs False)\<lparr>l_env := (paper_env nat_str)\<lparr>backend_name := ''Demo''\<rparr>\<rparr>"

definition demo_trade :: paper_trade where
  "demo_trade = (sample_trade (lit 100))\<lparr>pt_long_exit_order := Some (sample_sim_order Short),
     pt_short_exit_order := Some (sample_sim_order Long), pt_stop_loss_short_price := lit 101\<rparr>"

section \<open>What monitoring changes\<close>

lemma marks_refl [simp]: "marks t t"
  by (simp add: marks_def)

lemma marks_trans: "marks t u \<Longrightarrow> marks u v \<Longrightarrow> marks t v"
  by (auto simp: marks_def)

lemma rel_marks_trans:
  "rel_option marks a b \<Longrightarrow> rel_option marks b c \<Longrightarrow> rel_option marks a c"
  by (cases a; cases b; cases c) (auto intro: marks_trans)

lemma trade_core_sels: "pt_id (trade_core t) = pt_id t" "pt_symbol (trade_core t) = pt_symbol t"
  by (simp_all add: trade_core_def)

lemma marks_keeps: "marks t t' \<Longrightarrow> pt_id t' = pt_id t \<and> pt_symbol t' = pt_symbol t \<and> (is_live t \<longrightarrow> is_live t')"
  unfolding marks_def is_live_def by (metis trade_core_sels)

lemma marks_mark_exit [simp]: "marks t (mark_exit spread reason t)"
  by (simp add: marks_def mark_exit_def trade_core_def)

lemma marks_exiting [simp]: "marks t (t\<lparr>pt_status := Exiting\<rparr>)"
  by (simp add: marks_def trade_core_def)

lemma marks_stop_loss [simp]: "marks t (mark_stop_loss m t)"
  by (simp add: marks_def mark_stop_loss_def trade_core_def)

lemma marks_exit_if: "marks t u \<Longrightarrow> marks t (exit_if c spread reason u)"
  by (auto simp: exit_if_def intro: marks_trans)

lemma marks_paper_checks [simp]: "marks t (paper_exit_checks entry current pnl projected fd0 fd t)"
  unfolding paper_exit_checks_def Let_def by (intro marks_exit_if) simp

lemma marks_leg_out: "marks t u \<Longrightarrow> marks t (check_leg_out now a b u)"
  by (auto simp: check_leg_out_def Let_def marks_def trade_core_def)

context runner_libs
begin

lemma advances_refl: "tinv (rn_trades r) \<Longrightarrow> advances L tinv r r"
  by (simp add: advances_def option.rel_refl)

lemma advances_trans: "advances L tinv r r1 \<Longrightarrow> advances L tinv r1 r2 \<Longrightarrow> advances L tinv r r2"
  unfolding advances_def using rel_marks_trans by (metis (no_types, lifting))

lemma advances_set_world [simp]: "advances L tinv r (set_world w r') \<longleftrightarrow> advances L tinv r r'"
  by (simp add: advances_def)

lemma advances_update:
  assumes "advances L tinv r r1" "\<And>t. marks t (f t)"
  shows "advances L tinv r (update_trade L i f r1)"
proof -
  have "advances L tinv r1 (update_trade L i f r1)"
    using assms unfolding advances_def update_trade_def
    by (auto simp: trades.get_insert trades.inv_insert option.rel_refl split: option.splits)
  with assms(1) show ?thesis by (rule advances_trans)
qed

lemma advances_exit_trade: "advances L tinv r r1 \<Longrightarrow> advances L tinv r (exit_trade L m reason r1)"
  unfolding exit_trade_def by (rule advances_update) simp_all

lemma advances_finish_hedge: "advances L tinv r r1 \<Longrightarrow> advances L tinv r (finish_hedge L m outcome r1)"
  by (auto simp: finish_hedge_def intro!: advances_exit_trade split: prod.splits option.splits)

lemma advances_force_close: "advances L tinv r r1 \<Longrightarrow> advances L tinv r (force_close L m r1)"
  by (auto simp: force_close_def intro!: advances_exit_trade split: option.splits)

lemma advances_hedge_short: "advances L tinv r r1 \<Longrightarrow> advances L tinv r (hedge_short_exit L m r1)"
  using advances_update[of r r1 "\<lambda>t. t\<lparr>pt_status := Exiting\<rparr>"]
  by (auto simp: hedge_short_exit_def Let_def intro!: advances_finish_hedge split: option.splits)

lemma advances_hedge_long:
  "hedge_long_exit L m r1 = Some r2 \<Longrightarrow> advances L tinv r r1 \<Longrightarrow> advances L tinv r r2"
  using advances_update[of r r1 "\<lambda>t. t\<lparr>pt_status := Exiting\<rparr>"]
  by (auto simp: hedge_long_exit_def Let_def intro!: advances_finish_hedge split: option.splits)

lemma advances_stop_loss: "advances L tinv r r1 \<Longrightarrow> advances L tinv r (stop_loss L m r1)"
  using advances_update[of r _ "mark_stop_loss m"]
  by (auto simp: stop_loss_def Let_def split: option.splits prod.splits)

lemma advances_monitor_real:
  "advances L tinv r r1 \<Longrightarrow> monitor_real L m r1 = Some r2 \<Longrightarrow> advances L tinv r r2"
  unfolding monitor_real_def Let_def
  by (auto intro!: advances_exit_trade advances_force_close advances_stop_loss advances_hedge_short
      intro: advances_hedge_long split: option.splits prod.splits if_splits)

lemma advances_prices:
  assumes "advances L tinv r r1" "get_current_prices L r1 s = (r2, res)"
  shows "advances L tinv r r2"
proof -
  have "rn_store r2 = rn_store r1 \<and> books r2 = books r1"
    using assms(2) by (auto simp: get_current_prices_def get_prices_from_store_def Let_def books_def
        split: option.splits prod.splits if_splits)
  with assms(1) show ?thesis by (simp add: advances_def books_def)
qed

lemma advances_monitor_paper:
  "advances L tinv r r1 \<Longrightarrow> monitor_paper L m r1 = (r2, res) \<Longrightarrow> advances L tinv r r2"
  unfolding monitor_paper_def Let_def
  by (auto intro!: advances_update marks_leg_out intro: advances_prices split: prod.splits result.splits)

lemma advances_monitor_trade:
  "advances L tinv r r1 \<Longrightarrow> monitor_trade L i r1 = Some (r2, res) \<Longrightarrow> advances L tinv r r2"
  unfolding monitor_trade_def Let_def
  by (auto dest: advances_prices advances_monitor_paper advances_monitor_real
      split: option.splits prod.splits result.splits if_splits)

lemma advances_monitor_loop:
  "advances L tinv r r1 \<Longrightarrow> monitor_loop L ids r1 = Some (r2, res) \<Longrightarrow> advances L tinv r r2"
  by (induction ids arbitrary: r1)
    (auto dest: advances_monitor_trade split: option.splits result.splits)

lemma runner_ok_advances:
  assumes "runner_ok L tinv ninv r" "advances L tinv r r'"
  shows "runner_ok L tinv ninv r'"
proof -
  have t: "tinv (rn_trades r)" "tinv (rn_trades r')" using assms by (auto simp: runner_ok_def advances_def)
  have old: "\<exists>u. trade_at L r i = Some u \<and> pt_id t = pt_id u \<and> pt_symbol t = pt_symbol u \<and> (is_live u \<longrightarrow> is_live t)"
    if "trade_at L r' i = Some t" for i t
    using assms(2) that marks_keeps unfolding advances_def
    by (metis option.rel_cases option.sel option.distinct(1))
  have b: "book_ok L r" using assms(1) by (simp add: runner_ok_def)
  have "book_ok L r'" unfolding book_ok_iff[OF t(2)]
  proof (intro conjI allI impI)
    fix i u assume "trade_at L r' i = Some u"
    from old[OF this] b show "pt_id u = i" "is_live u" unfolding book_ok_iff[OF t(1)] by auto
  next
    fix i j u v assume "trade_at L r' i = Some u" "trade_at L r' j = Some v" "pt_symbol u = pt_symbol v"
    with old[of i u] old[of j v] b show "i = j" unfolding book_ok_iff[OF t(1)] by metis
  qed
  with assms t show ?thesis by (simp add: runner_ok_def advances_def)
qed

end

section \<open>Turns of the loop\<close>

lemma drain_market_books [simp]: "books (drain_market L r) = books r"
  by (simp add: drain_market_def books_def Let_def split: option.splits prod.splits)

lemma close_trade_no_leg_outs:
  assumes "no_leg_outs (pfm_state m)"
  shows "no_leg_outs (pfm_state (fst (close_trade m i pr reason now l p)))"
proof (cases "position (\<lambda>t. pt_id t = i) (ps_active_trades (pfm_state m))")
  case (Some pos)
  from position_Some[OF Some] have "ps_active_trades (pfm_state m) ! pos \<in> set (ps_active_trades (pfm_state m))"
    by simp
  then have n: "pt_leg_out_event (ps_active_trades (pfm_state m) ! pos) = None"
    using assms by (simp add: no_leg_outs_def)
  have r: "set (remove_at pos ts) \<subseteq> set ts" for ts :: "paper_trade list"
    by (auto simp: remove_at_def dest: in_set_takeD in_set_dropD)
  show ?thesis
    using assms r[of "ps_active_trades (pfm_state m)"]
    by (auto simp: close_trade_def Some Let_def n no_leg_outs_def increment_wins_def increment_losses_def)
qed (use assms in \<open>simp add: close_trade_def\<close>)

lemma finish_exit_no_leg_outs:
  assumes "finish_exit L i symbol t r = Some (r', res)" "no_leg_outs (pfm_state (rn_portfolio r))"
  shows "no_leg_outs (pfm_state (rn_portfolio r'))"
proof -
  define r1 where "r1 = cancel_exit_order L (pt_short_exchange t) (pt_short_exit_order t)
    (cancel_exit_order L (pt_long_exchange t) (pt_long_exit_order t) r)"
  have "books r1 = books r" by (simp add: r1_def)
  then have b: "rn_portfolio r1 = rn_portfolio r" by (simp add: books_def)
  obtain r2 x where c: "portfolio_close L r1 i (exit_profit t)
      (case pt_exit_reason t of Some x \<Rightarrow> x | None \<Rightarrow> ''manual_exit'') = (r2, x)" by fastforce
  then have "no_leg_outs (pfm_state (rn_portfolio r2))"
    using close_trade_no_leg_outs[of "rn_portfolio r"] assms(2) b
    by (auto simp: portfolio_close_def Let_def case_prod_beta)
  moreover have "rn_portfolio r' = rn_portfolio r2"
    using assms(1)[unfolded finish_exit_def Let_def, folded r1_def, unfolded c prod.case]
    by (auto split: result.splits option.splits)
  ultimately show ?thesis by simp
qed

lemma open_trade_no_leg_outs:
  "no_leg_outs (pfm_state m) \<Longrightarrow> pt_leg_out_event t = None \<Longrightarrow>
   no_leg_outs (pfm_state (fst (open_trade m t l p)))"
  by (auto simp: open_trade_state no_leg_outs_def)

lemma execute_no_leg_outs:
  assumes "execute_opportunity L r opp = Some r'" "no_leg_outs (pfm_state (rn_portfolio r))"
  shows "no_leg_outs (pfm_state (rn_portfolio r'))"
  using assms(1) by (cases rule: execute_opportunity_cases) (use assms(2) open_trade_no_leg_outs in auto)

context runner_libs
begin

lemma runner_ok_drain: "runner_ok L tinv ninv r \<Longrightarrow> runner_ok L tinv ninv (drain_market L r)"
  by (rule runner_ok_books) simp_all

lemma execute_next_keeps:
  assumes "execute_next L r = Some r'" "runner_ok L tinv ninv r" "no_leg_outs (pfm_state (rn_portfolio r))"
  shows "runner_ok L tinv ninv r' \<and> no_leg_outs (pfm_state (rn_portfolio r'))"
proof -
  have ok: "runner_ok L tinv ninv (r\<lparr>rn_opportunity_consumer := c\<rparr>)" for c
    using assms(2) by (rule runner_ok_books[rotated]) (simp add: books_def)
  show ?thesis
    using assms(1,3) ok runner_ok_execute[OF ok] execute_no_leg_outs[of L "r\<lparr>rn_opportunity_consumer := _\<rparr>"]
    by (auto simp: execute_next_def Let_def split: option.splits prod.splits)
qed

lemma check_exit_no_leg_outs:
  assumes "check_exit L i r = Some (r', res)" "runner_ok L tinv ninv r" "no_leg_outs (pfm_state (rn_portfolio r))"
  shows "no_leg_outs (pfm_state (rn_portfolio r'))"
proof -
  have "dm_get (l_trackers L) (rn_trackers r) = (\<lambda>_. None)" using assms(2) by (auto simp: runner_ok_def)
  from assms(1)[unfolded check_exit_no_tracker[OF this]] assms(3) show ?thesis
    by (auto split: option.splits if_splits dest: finish_exit_no_leg_outs)
qed

lemma check_exit_loop_no_leg_outs:
  "check_exit_loop L ids r = Some (r', res) \<Longrightarrow> runner_ok L tinv ninv r \<Longrightarrow>
   no_leg_outs (pfm_state (rn_portfolio r)) \<Longrightarrow> no_leg_outs (pfm_state (rn_portfolio r'))"
proof (induction ids arbitrary: r)
  case (Cons i ids)
  then obtain r1 x where c: "check_exit L i r = Some (r1, x)" by (auto split: option.splits)
  note k = check_exit_no_leg_outs[OF c Cons.prems(2,3)] runner_ok_check_exit[OF Cons.prems(2) c]
  from Cons.prems(1) c k Cons.IH[of r1] show ?case by (cases x) auto
qed simp

lemma turn_keeps:
  assumes "scanning_turn L r = Some r'" "runner_ok L tinv ninv r" "no_leg_outs (pfm_state (rn_portfolio r))"
  shows "runner_ok L tinv ninv r' \<and> no_leg_outs (pfm_state (rn_portfolio r'))"
proof -
  obtain r1 r2 m e where t: "execute_next L (drain_market L r) = Some r1"
    "monitor_active_positions L (set_world (l_sleep_us L (rn_world r1) 100) r1) = Some (r2, m)"
    "check_exits L r2 = Some (r', e)"
    using assms(1) by (auto simp: scanning_turn_def Let_def split: option.splits prod.splits)
  have "rn_portfolio (drain_market L r) = rn_portfolio r" using drain_market_books[of L r] by (simp add: books_def)
  with execute_next_keeps[OF t(1) runner_ok_drain[OF assms(2)]] assms(3)
  have k1: "runner_ok L tinv ninv r1" "no_leg_outs (pfm_state (rn_portfolio r1))" by simp_all
  have k1': "runner_ok L tinv ninv (set_world w r1)" for w using k1(1) by (rule runner_ok_books[rotated]) simp
  have "tinv (rn_trades r1)" using k1(1) by (simp add: runner_ok_def)
  then have a: "advances L tinv (set_world (l_sleep_us L (rn_world r1) 100) r1) r2"
    using t(2) unfolding monitor_active_positions_def by (intro advances_monitor_loop[OF advances_refl]) simp_all
  have "runner_ok L tinv ninv r2" by (rule runner_ok_advances[OF k1' a])
  moreover have "no_leg_outs (pfm_state (rn_portfolio r2))" using a k1(2) by (simp add: advances_def)
  ultimately show ?thesis
    using t(3) unfolding check_exits_def by (blast intro: runner_ok_check_exit_loop check_exit_loop_no_leg_outs)
qed

lemma new_keeps:
  assumes "StrategyRunner_new L ex c symbols d p = Ok r"
  shows "runner_ok L tinv ninv r \<and> no_leg_outs (pfm_state (rn_portfolio r))"
proof -
  have r: "rn_trades r = dm_new (l_trades L)" "rn_trackers r = dm_new (l_trackers L)"
    "pfm_state (rn_portfolio r) = PortfolioState_new c"
    using assms by (auto simp: StrategyRunner_new_def PortfolioManager_new_def Let_def split: result.splits if_splits)
  then have t: "tinv (rn_trades r)" by (simp add: trades.inv_new)
  have "book_ok L r" unfolding book_ok_iff[OF t] by (simp add: r trades.get_new)
  with t r show ?thesis
    by (simp add: runner_ok_def trackers.dm_inv_new trackers.dm_get_new no_leg_outs_def PortfolioState_new_def)
qed

lemma reachable_ok:
  "reachable L r \<Longrightarrow> runner_ok L tinv ninv r \<and> no_leg_outs (pfm_state (rn_portfolio r))"
proof (induction rule: reachable.induct)
  case (others r symbols oc mc w)
  have "books ((set_world w r)\<lparr>rn_market_consumer := mc, rn_opportunity_consumer := oc,
      rn_symbols := symbols\<rparr>) = books r" by (simp add: books_def)
  from runner_ok_books[OF this] this others.IH show ?case by (simp add: books_def)
next
  case (start ex c symbols d p r)
  then show ?case by (rule new_keeps)
next
  case (turn r r')
  then show ?case using turn_keeps[of r r'] by simp
qed

end

lemma runner_libsI: "dashmap_full (l_trades L) tinv \<Longrightarrow> dashmap (l_trackers L) ninv \<Longrightarrow> runner_libs L tinv ninv"
  by (simp add: runner_libs_def)

section \<open>Monitoring returns\<close>

lemma should_try_limit_level:
  "lod_use_limit (should_try_limit e b Short z) \<Longrightarrow>
   lod_price_level (should_try_limit e b Short z) < length (obd_bids b)"
proof -
  define P where "P d \<longleftrightarrow> lit 0 \<le> lod_probability d \<and> (lod_use_limit d \<longrightarrow> lod_price_level d < length (obd_bids b))"
    for d :: limit_order_decision
  define f where "f = (\<lambda>d level. let p = calculate_fill_probability e b Short level z in
      if fp_probability p \<ge> min_probability_threshold e \<and> fp_probability p > lod_probability d
      then \<lparr>lod_use_limit = True, lod_price_level = level, lod_probability = fp_probability p,
        lod_wait_time_ms = fp_estimated_wait_ms p\<rparr> else d)"
  have step: "P (f d level)" if d: "P d" for d level
  proof (cases "level < length (obd_bids b)")
    case True
    with d show ?thesis by (auto simp: P_def f_def Let_def intro: f_le_trans f_less_imp_le)
  next
    case False
    then have "fp_probability (calculate_fill_probability e b Short level z) = lit 0"
      by (simp add: calculate_fill_probability_def)
    with d show ?thesis by (auto simp: P_def f_def Let_def dest: f_less_not_le)
  qed
  have "P d \<Longrightarrow> P (foldl f d ls)" for d ls by (induction ls arbitrary: d) (auto intro: step)
  moreover have "P \<lparr>lod_use_limit = False, lod_price_level = 0, lod_probability = lit 0, lod_wait_time_ms = 0\<rparr>"
    by (simp add: P_def zero_f64_def)
  ultimately have "P (should_try_limit e b Short z)"
    by (simp add: should_try_limit_def f_def)
  then show "lod_use_limit (should_try_limit e b Short z) \<Longrightarrow> ?thesis" by (simp add: P_def)
qed

lemma hedge_long_orders_returns: "\<exists>outcome. hedge_long_orders E estimator m q w = Some outcome"
  using should_try_limit_level
  by (auto simp: hedge_long_orders_def Let_def smart_price_def split: prod.splits result.splits)

lemma hedge_long_exit_returns: "\<exists>r'. hedge_long_exit L m r = Some r'"
  using hedge_long_orders_returns by (fastforce simp: hedge_long_exit_def Let_def split: option.splits)

lemma monitor_real_returns: "\<exists>r'. monitor_real L m r = Some r'"
  using hedge_long_exit_returns
  by (auto simp: monitor_real_def Let_def split: option.splits prod.splits)

text \<open>The prices of a symbol, asked for twice, are the same: the first query has entered the symbol into the
  map.\<close>

lemma turn_goi_known: "dm_get T (to_id m) (e, y) = Some i \<Longrightarrow> get_or_insert T F m e y = (m, i)"
  by (simp add: get_or_insert_def)

lemma goi_entered:
  assumes "dashmap T minv" "minv (to_id m)" "get_or_insert T F m e y = (m', i)"
  shows "minv (to_id m')" "dm_get T (to_id m') (e, y) = Some i"
    "dm_get T (to_id m) k = Some j \<Longrightarrow> dm_get T (to_id m') k = Some j"
  using assms(2,3)
  by (auto simp: get_or_insert_def Let_def dashmap.dm_inv_insert[OF assms(1)]
      dashmap.dm_get_insert[OF assms(1)] split: option.splits)

lemma prices_again:
  assumes "dashmap (l_to L) minv" "minv (to_id (rn_symbols r))"
    and "get_prices_from_store L r pair a b = (r', res)"
  shows "minv (to_id (rn_symbols r'))" "get_prices_from_store L r' pair a b = (r', res)"
proof -
  obtain m1 i where g1: "get_or_insert (l_to L) (l_from L) (rn_symbols r) a pair = (m1, i)" by fastforce
  obtain m2 j where g2: "get_or_insert (l_to L) (l_from L) m1 b pair = (m2, j)" by fastforce
  note e1 = goi_entered[OF assms(1,2) g1]
  note e2 = goi_entered[OF assms(1) e1(1) g2]
  have r': "r' = r\<lparr>rn_symbols := m2\<rparr>"
    using assms(3) g1 g2 by (auto simp: get_prices_from_store_def Let_def split: option.splits if_splits)
  then show "minv (to_id (rn_symbols r'))" using e2(1) by simp
  have k: "get_or_insert (l_to L) (l_from L) m2 a pair = (m2, i)" "get_or_insert (l_to L) (l_from L) m2 b pair = (m2, j)"
    using e2(2) e2(3)[OF e1(2)] by (auto intro: turn_goi_known)
  show "get_prices_from_store L r' pair a b = (r', res)"
    using assms(3) g1 g2 k
    by (auto simp: get_prices_from_store_def Let_def r' split: option.splits if_splits)
qed

lemma current_prices_again:
  assumes "dashmap (l_to L) minv" "minv (to_id (rn_symbols r))" "get_current_prices L r s = (r', res)"
  shows "minv (to_id (rn_symbols r'))" "get_current_prices L r' s = (r', res)"
    and "rn_trades r' = rn_trades r" "rn_exec r' = rn_exec r"
proof -
  have f: "rn_trades r1 = rn_trades r \<and> rn_exec r1 = rn_exec r"
    if "get_prices_from_store L r p a b = (r1, x)" for r1 x p a b
    using that by (auto simp: get_prices_from_store_def Let_def split: prod.splits option.splits if_splits)
  let ?found = "List.find (\<lambda>(k, t). pt_symbol t = s) (dm_entries (l_trades L) (rn_trades r))"
  have "(rn_trades r' = rn_trades r \<and> rn_exec r' = rn_exec r) \<and> minv (to_id (rn_symbols r')) \<and>
    get_current_prices L r' s = (r', res)"
  proof (cases ?found)
    case None
    with assms(2,3) show ?thesis by (auto simp: get_current_prices_def)
  next
    case (Some kt)
    obtain k t where kt: "kt = (k, t)" by fastforce
    with Some assms(3) have p: "get_prices_from_store L r s (pt_long_exchange t) (pt_short_exchange t) = (r', res)"
      by (simp add: get_current_prices_def)
    from f[OF p] prices_again[OF assms(1,2) p] Some kt show ?thesis by (simp add: get_current_prices_def)
  qed
  then show "rn_trades r' = rn_trades r" "rn_exec r' = rn_exec r" "minv (to_id (rn_symbols r'))"
    "get_current_prices L r' s = (r', res)" by simp_all
qed

lemma update_trade_symbols [simp]: "rn_symbols (update_trade L i f r) = rn_symbols r"
  by (simp add: update_trade_def split: option.splits)

lemma monitor_real_symbols: "monitor_real L m r = Some r' \<Longrightarrow> rn_symbols r' = rn_symbols r"
  by (auto simp: monitor_real_def Let_def exit_trade_def force_close_def stop_loss_def hedge_short_exit_def
      hedge_long_exit_def finish_hedge_def split: option.splits prod.splits if_splits)

lemma monitor_trade_returns:
  assumes "dashmap (l_to L) minv" "minv (to_id (rn_symbols r))"
  shows "\<exists>r'. monitor_trade L i r = Some (r', Ok ()) \<and> minv (to_id (rn_symbols r'))"
proof (cases "trade_at L r i")
  case (Some t)
  obtain r1 res where p: "get_current_prices L r (pt_symbol t) = (r1, res)" by fastforce
  note a = current_prices_again[OF assms p]
  show ?thesis
  proof (cases res)
    case (Ok ab)
    obtain x y where ab: "ab = (x, y)" by fastforce
    let ?m = "monitored_of i t x y"
    obtain r2 where r2: "monitor_real L ?m r1 = Some r2" using monitor_real_returns by blast
    have "\<exists>r2. monitor_paper L ?m r1 = (r2, Ok ()) \<and> rn_symbols r2 = rn_symbols r1"
      using a(2) Ok ab by (simp add: monitor_paper_def monitored_of_def Let_def)
    then show ?thesis
      using Some p Ok ab a(1) r2 monitor_real_symbols[OF r2] by (auto simp: monitor_trade_def Let_def)
  qed (use Some p a in \<open>simp add: monitor_trade_def\<close>)
qed (use assms in \<open>simp add: monitor_trade_def\<close>)

lemma monitor_loop_returns:
  assumes "dashmap (l_to L) minv" "minv (to_id (rn_symbols r))"
  shows "\<exists>r'. monitor_loop L ids r = Some (r', Ok ())"
  using assms(2)
proof (induction ids arbitrary: r)
  case (Cons i ids)
  from monitor_trade_returns[OF assms(1) Cons.prems, of i] Cons.IH show ?case by auto
qed simp

section \<open>The exit decision\<close>

lemma fifth_not_more: "is_f64 x \<Longrightarrow> \<not> \<bar>x\<bar> < \<bar>x\<bar> * lit 0.2"
proof
  assume x: "is_f64 x" "\<bar>x\<bar> < \<bar>x\<bar> * lit 0.2"
  obtain q where q: "lit 0.2 = Fin q" "0 < q" "q \<le> 1"
  proof -
    have "is_finite (lit 0.2)" "lit 0.2 \<noteq> NZero" "0 < lit 0.2" "lit 0.2 \<le> 1" by code_simp+
    then show ?thesis using that by (cases "lit 0.2") (auto simp: zero_f64_def one_f64_def)
  qed
  show False
  proof (cases x)
    case (Fin r)
    have "is_f64 (Fin \<bar>r\<bar>)" using x(1) Fin by (cases "r < 0") (auto simp: rnd_minus)
    then have "\<bar>x\<bar> = mk False \<bar>r\<bar>" using Fin by (simp add: mk_False_Fin)
    moreover have "\<bar>x\<bar> * lit 0.2 = mk False (\<bar>r\<bar> * q)" using Fin q by (simp add: times_f64_def)
    moreover have "mk False (\<bar>r\<bar> * q) \<le> mk False \<bar>r\<bar>" using q by (intro mk_mono) (simp add: mult_left_le)
    ultimately show False using x(2) f_less_not_le by auto
  qed (use x q in \<open>auto simp: times_f64_def Let_def mk_0\<close>)
qed

lemma paper_exit_checks_decision:
  assumes "pt_exit_reason t = None" "is_f64 fd"
  shows "paper_exit_checks entry current pnl projected fd fd t =
    (case exit_wanted entry current pnl projected fd of
       Some reason \<Rightarrow> mark_exit current reason t | None \<Rightarrow> t)"
proof -
  have m: "pt_exit_reason (mark_exit sp reason u) \<noteq> None" for sp reason u by (simp add: mark_exit_def)
  show ?thesis
    using assms(1) fifth_not_more[OF assms(2)] m
    by (simp add: paper_exit_checks_def exit_wanted_def exit_if_def Let_def mark_exit_def)
qed

section \<open>A turn returns\<close>

lemma prices_symbols:
  assumes "dashmap (l_to L) minv" "minv (to_id (rn_symbols r))" "validate_opportunity L r opp = (r', v)"
  shows "minv (to_id (rn_symbols r'))"
proof -
  obtain r1 res where p: "get_prices_from_store L r (ao_symbol opp) (ao_long_exchange opp) (ao_short_exchange opp) = (r1, res)"
    by fastforce
  have "r' = r1" using assms(3) p
    by (auto simp: validate_opportunity_def get_current_prices_for_opportunity_def Let_def
        split: result.splits prod.splits if_splits)
  with prices_again(1)[OF assms(1,2) p] show ?thesis by simp
qed

lemma enter_trade_symbols: "enter_trade L r opp c s = Some (r', x) \<Longrightarrow> rn_symbols r' = rn_symbols r"
  by (auto simp: enter_trade_def split: if_splits option.splits prod.splits result.splits)

lemma portfolio_open_symbols [simp]: "rn_symbols (fst (portfolio_open L r t)) = rn_symbols r"
  by (simp add: portfolio_open_def Let_def case_prod_beta)

lemma execute_symbols:
  assumes "dashmap (l_to L) minv" "minv (to_id (rn_symbols r))" "execute_opportunity L r opp = Some r'"
  shows "minv (to_id (rn_symbols r'))"
proof (cases "has_active_or_exiting_trade L r (ao_symbol opp)")
  case True
  with assms(2,3) show ?thesis by (simp add: execute_opportunity_def)
next
  case False
  obtain w u where u: "new_uuid (l_env L) (rn_world r) = (w, u)" by fastforce
  define p where "p = ''placeholder_'' @ u"
  define r0 where "r0 = put_trade L p (placeholder_of p opp) (set_world w r)"
  obtain r1 v where v: "validate_opportunity L r0 opp = (r1, v)" by fastforce
  have "minv (to_id (rn_symbols r1))" using prices_symbols[OF assms(1) _ v] assms(2) by (simp add: r0_def)
  moreover have "rn_symbols r' = rn_symbols r1"
    using assms(3)[unfolded execute_opportunity_def Let_def u prod.case, folded p_def, folded r0_def] False v
    by (auto simp: remove_trade_def split: option.splits prod.splits dest: enter_trade_symbols)
  ultimately show ?thesis by simp
qed

lemma finish_exit_returns:
  assumes "\<forall>m k. dm_remove_held (l_trades L) m k \<noteq> None"
  shows "finish_exit L i s t r \<noteq> None"
proof -
  have n: "dm_remove_held (l_trades L) m k = None \<longleftrightarrow> False" for m k using assms by auto
  show ?thesis
    by (auto simp: finish_exit_def Let_def n simp del: not_None_eq split: option.split prod.split result.split)
qed

lemma check_exit_loop_returns:
  assumes "\<forall>m k. dm_remove_held (l_trades L) m k \<noteq> None"
  shows "check_exit_loop L ids r \<noteq> None"
proof (induction ids arbitrary: r)
  case (Cons i ids)
  have "check_exit L i r \<noteq> None"
    using finish_exit_returns[OF assms]
    by (simp add: check_exit_def Let_def split: option.splits prod.splits)
  with Cons.IH show ?case by (auto split: option.splits result.splits)
qed simp

lemma drain_market_frame [simp]:
  "rn_opportunity_consumer (drain_market L r) = rn_opportunity_consumer r"
  "rn_symbols (drain_market L r) = rn_symbols r"
  by (simp_all add: drain_market_def Let_def split: option.splits prod.splits)

section \<open>Departures\<close>

text \<open>A hedge whose market order failed leaves the trade exiting, so that the next clean-up books it as
  closed although one leg is open.\<close>

lemma failed_hedge_exits:
  assumes "dashmap_full (l_trades L) tinv" "tinv (rn_trades r)" "trade_at L r (mo_trade_id m) = Some t"
    and "hedge_short_orders (l_env L) m (so_size (pt_short_order t)) (rn_world r) = (w, None)"
  shows "trade_at L (hedge_short_exit L m r) (mo_trade_id m) = Some (t\<lparr>pt_status := Exiting\<rparr>)"
  using assms(2-4) dashmap_full.get_insert[OF assms(1)]
  by (simp add: hedge_short_exit_def update_trade_def finish_hedge_def)

lemma current_prices_frame:
  assumes "get_current_prices L r s = (r', res)"
  shows "rn_trades r' = rn_trades r" "rn_exec r' = rn_exec r"
  using assms by (auto simp: get_current_prices_def get_prices_from_store_def Let_def
      split: option.splits prod.splits if_splits)

context runner_libs
begin

lemma update_trade_at:
  assumes "tinv (rn_trades r)" "trade_at L r i = Some t"
  shows "trade_at L (update_trade L i f r) = (trade_at L r)(i \<mapsto> f t)" "tinv (rn_trades (update_trade L i f r))"
  using assms by (simp_all add: update_trade_def trades.get_insert trades.inv_insert)

lemma exit_trade_at:
  assumes "tinv (rn_trades r)" "trade_at L r (mo_trade_id m) = Some t"
  shows "\<exists>t'. trade_at L (exit_trade L m reason r) (mo_trade_id m) = Some t' \<and> pt_status t' = Exiting"
  using update_trade_at[OF assms] by (simp add: exit_trade_def mark_exit_def)

lemma hedged_at:
  assumes "tinv (rn_trades r)" "trade_at L r (mo_trade_id m) = Some t"
    and "r1 = update_trade L (mo_trade_id m) (\<lambda>t. t\<lparr>pt_status := Exiting\<rparr>) r"
  shows "\<exists>t'. trade_at L (finish_hedge L m outcome r1) (mo_trade_id m) = Some t' \<and> pt_status t' = Exiting"
proof -
  note u = update_trade_at[OF assms(1,2), of "\<lambda>t. t\<lparr>pt_status := Exiting\<rparr>", folded assms(3)]
  obtain w x where o: "outcome = (w, x)" by fastforce
  show ?thesis
    using u exit_trade_at[of "set_world w r1" m] by (cases x) (simp_all add: finish_hedge_def o)
qed

text \<open>When a trade watched on the exchange starts to exit.\<close>

lemma monitor_real_status:
  assumes t: "tinv (rn_trades r)" "trade_at L r (mo_trade_id m) = Some t"
    and m': "m' = m\<lparr>mo_long_exit_id := map_option so_id (pt_long_exit_order t),
      mo_short_exit_id := map_option so_id (pt_short_exit_order t)\<rparr>"
    and f: "exit_filled (l_env L) m' Long (rn_world r) = (w1, lf)" "exit_filled (l_env L) m' Short w1 = (w2, sf)"
    and r': "monitor_real L m r = Some r'"
  shows "\<exists>t'. trade_at L r' (mo_trade_id m) = Some t' \<and>
    (pt_status t' = Exiting \<longleftrightarrow> pt_status t = Exiting \<or> lf \<or> sf \<or> exits_timed_out (unix_secs (l_env L) w2) t \<or>
      (\<not> mo_stop_loss_triggered m \<and> stop_loss_hit m))"
proof -
  define r2 where "r2 = set_world w2 r"
  have i: "mo_trade_id m' = mo_trade_id m" "mo_stop_loss_triggered m' = mo_stop_loss_triggered m"
    "stop_loss_hit m' = stop_loss_hit m" by (simp_all add: m' stop_loss_hit_def)
  have t2: "tinv (rn_trades r2)" "trade_at L r2 (mo_trade_id m') = Some t" using t i by (simp_all add: r2_def)
  have d: "monitor_real L m r = (if lf \<and> sf then Some (exit_trade L m' ''Exit orders filled (90% capture)'' r2)
      else if \<not> lf \<and> \<not> sf then
        (if exits_timed_out (unix_secs (l_env L) w2) t then Some (force_close L m' r2) else Some (stop_loss L m' r2))
      else if lf then Some (hedge_short_exit L m' r2) else hedge_long_exit L m' r2)"
    using t(2) f t2(2) by (simp add: monitor_real_def Let_def m'[symmetric] r2_def[symmetric] i)
  note u = update_trade_at[OF t2]
  consider (both) "lf" "sf" | (timeout) "\<not> lf" "\<not> sf" "exits_timed_out (unix_secs (l_env L) w2) t"
    | (stop) "\<not> lf" "\<not> sf" "\<not> exits_timed_out (unix_secs (l_env L) w2) t" | (long_only) "lf" "\<not> sf"
    | (short_only) "\<not> lf" "sf" by blast
  then show ?thesis
  proof cases
    case both
    with d r' exit_trade_at[OF t2] i show ?thesis by auto
  next
    case timeout
    with d r' t2 exit_trade_at[of "set_world _ r2" m' t] i show ?thesis by (auto simp: force_close_def)
  next
    case stop
    with d r' have s: "r' = stop_loss L m' r2" by simp
    show ?thesis
    proof (cases "\<not> mo_stop_loss_triggered m \<and> stop_loss_hit m")
      case True
      with s t2 i update_trade_at[of "set_world _ r2" "mo_trade_id m'" t] show ?thesis
        by (auto simp: stop_loss_def Let_def mark_stop_loss_def split: prod.splits)
    next
      case False
      with s t2 i stop show ?thesis by (auto simp: stop_loss_def)
    qed
  next
    case long_only
    with d r' u hedged_at[OF t2 refl] i show ?thesis by (auto simp: hedge_short_exit_def Let_def)
  next
    case short_only
    with d r' have "hedge_long_exit L m' r2 = Some r'" by simp
    then obtain outcome where
      "r' = finish_hedge L m' outcome (update_trade L (mo_trade_id m') (\<lambda>t. t\<lparr>pt_status := Exiting\<rparr>) r2)"
      using u by (auto simp: hedge_long_exit_def Let_def)
    with hedged_at[OF t2 refl] i short_only show ?thesis by auto
  qed
qed

end

lemma turn_returns:
  assumes "clocked (l_env L)" "dashmap (l_to L) minv" "minv (to_id (rn_symbols r))"
    and "rn_opportunity_consumer r \<noteq> None" "\<forall>m k. dm_remove_held (l_trades L) m k \<noteq> None"
  shows "\<exists>r'. scanning_turn L r = Some r'"
proof -
  obtain q where q: "rn_opportunity_consumer (drain_market L r) = Some q" using assms(4) by auto
  obtain q' x where x: "OpportunityConsumer_pop (l_oq L) q = (q', x)" by fastforce
  define r0 where "r0 = (drain_market L r)\<lparr>rn_opportunity_consumer := Some q'\<rparr>"
  have s0: "minv (to_id (rn_symbols r0))" using assms(3) by (simp add: r0_def)
  have "\<exists>r1. execute_next L (drain_market L r) = Some r1 \<and> minv (to_id (rn_symbols r1))"
  proof (cases x)
    case None
    with q x s0 show ?thesis by (simp add: execute_next_def r0_def)
  next
    case (Some opp)
    from execute_opportunity_returns[OF assms(1)] obtain r1 where "execute_opportunity L r0 opp = Some r1" by blast
    with q x Some execute_symbols[OF assms(2) s0] show ?thesis by (simp add: execute_next_def r0_def)
  qed
  then obtain r1 where r1: "execute_next L (drain_market L r) = Some r1" "minv (to_id (rn_symbols r1))" by blast
  then obtain r2 where "monitor_active_positions L (set_world (l_sleep_us L (rn_world r1) 100) r1) = Some (r2, Ok ())"
    using monitor_loop_returns[OF assms(2)] by (fastforce simp: monitor_active_positions_def)
  with r1 check_exit_loop_returns[OF assms(5)] show ?thesis
    by (auto simp: scanning_turn_def check_exits_def Let_def)
qed

text \<open>The concrete inputs.\<close>

lemma sample_maps:
  "dashmap_full (l_trades (sample_libs b)) (\<lambda>m. distinct (map fst m))" "dashmap (l_trackers (sample_libs b)) (\<lambda>_. True)"
  "dashmap (l_to (sample_libs b)) (\<lambda>_. True)" "clocked (l_env (sample_libs b))"
  "l_trades demo_libs = l_trades (sample_libs False)" "l_trackers demo_libs = l_trackers (sample_libs False)"
  using alist_full.dashmap_full_axioms dashmap_alist clocked_paper
  by (simp_all add: sample_libs_def demo_libs_def)

lemma sample_reachable: "reachable (sample_libs b) (sample_start\<lparr>rn_opportunity_consumer := q\<rparr>)"
proof -
  have "StrategyRunner_new (sample_libs b) (paper_exec (paper_start Map.empty)) (lit 1000)
      \<lparr>to_id = [], from_id = [], next_id = 1\<rparr> True True = Ok sample_start"
    by (simp add: StrategyRunner_new_def sample_libs_def sample_start_def sample_runner_def PortfolioManager_new_def
        PortfolioState_new_def alist_full_ops_def alist_ops_def unix_secs_def paper_env_def paper_exec_def paper_start_def)
  from reachable.others[OF reachable.start[OF this], of "rn_symbols sample_start" q None "rn_world sample_start"]
  show ?thesis by (simp add: set_world_def sample_start_def sample_runner_def)
qed

lemma sample_free: "\<forall>m k. dm_remove_held (l_trades (sample_libs False)) m k \<noteq> None"
  by (simp add: sample_libs_def alist_full_ops_def)

lemma sample_turn:
  "\<exists>r'. scanning_turn (sample_libs False) (sample_start\<lparr>rn_opportunity_consumer := sample_queue\<rparr>) = Some r'"
  by (rule turn_returns[OF sample_maps(4,3) _ _ sample_free]) (auto simp: sample_queue_def)

lemma sample_prices:
  assumes "l_trades L = alist_full_ops b" "l_to L = alist_ops"
    and "pt_symbol t = ''BTCUSDT''" "pt_long_exchange t = ''bybit''" "pt_short_exchange t = ''okx''"
  shows "get_current_prices L (sample_runner [(i, t)]) ''BTCUSDT'' = (sample_runner [(i, t)], Ok (lit 100, lit 101))"
proof -
  let ?s = "update (update MarketDataStore_new 1 (lit 99) (lit 100) 0) 2 (lit 101) (lit 102) 0"
  note w = store_wf_new store_wf_update[OF store_wf_new]
  have c: "market_data_store.count MarketDataStore_new = 0" by (simp add: MarketDataStore_new_def)
  have g: "get_ask ?s 1 = Some (lit 100)" "get_bid ?s 2 = Some (lit 101)"
    by (simp_all add: get_ask_def get_bid_def update_sels[OF w(2)] update_sels[OF w(1)] c MAX_SYMBOLS_def)
  then show ?thesis
    using assms by (simp add: get_current_prices_def sample_runner_def alist_full_ops_def get_prices_from_store_def
        get_or_insert_def alist_ops_def Let_def zero_f64_def)
qed

section \<open>Properties\<close>

text \<open>C2. One trade per symbol: in every state that the runner reaches, each trade in its book is stored
  under its own identifier, is active or exiting, and is the only one of its symbol.\<close>

theorem one_trade_per_symbol:
  assumes "dashmap_full (l_trades L) tinv" "dashmap (l_trackers L) ninv" "reachable L r"
  shows "book_ok L r"
  using runner_libs.reachable_ok[OF runner_libsI[OF assms(1,2)] assms(3)] by (simp add: runner_ok_def)

theorem one_trade_per_symbol_witness:
  "\<exists>r. scanning_turn (sample_libs False) (sample_start\<lparr>rn_opportunity_consumer := sample_queue\<rparr>) = Some r \<and>
     book_ok (sample_libs False) r"
proof -
  obtain r where r: "scanning_turn (sample_libs False) (sample_start\<lparr>rn_opportunity_consumer := sample_queue\<rparr>) = Some r"
    using sample_turn by blast
  from one_trade_per_symbol[OF sample_maps(1,2) reachable.turn[OF sample_reachable r]] r show ?thesis by blast
qed

text \<open>C31. Monitoring only marks.  A round of monitoring leaves the portfolio, the quotes and the funding
  trackers alone; it neither adds nor removes a trade, and of a trade it changes at most the status, to
  exiting, and the notes on the exit: reason, spread, stop loss and leg-out.\<close>

theorem monitoring_only_marks:
  assumes "dashmap_full (l_trades L) tinv" "dashmap (l_trackers L) ninv" "tinv (rn_trades r)"
    and "monitor_active_positions L r = Some (r', res)"
  shows "rn_portfolio r' = rn_portfolio r \<and> rn_store r' = rn_store r \<and> rn_trackers r' = rn_trackers r \<and>
    (\<forall>i. rel_option marks (trade_at L r i) (trade_at L r' i))"
proof -
  note l = runner_libsI[OF assms(1,2)]
  have "advances L tinv r r'"
    using assms(4) unfolding monitor_active_positions_def
    by (rule runner_libs.advances_monitor_loop[OF l runner_libs.advances_refl[OF l assms(3)]])
  then show ?thesis by (simp add: advances_def)
qed

theorem monitoring_only_marks_witness:
  "\<exists>r'. monitor_active_positions (sample_libs False) (sample_runner [(''t1'', sample_trade (lit 100))]) = Some (r', Ok ()) \<and>
     rel_option marks (Some (sample_trade (lit 100))) (trade_at (sample_libs False) r' ''t1'')"
proof -
  let ?r = "sample_runner [(''t1'', sample_trade (lit 100))]"
  obtain r' where r': "monitor_active_positions (sample_libs False) ?r = Some (r', Ok ())"
    using monitor_loop_returns[OF sample_maps(3)[of False], where r = ?r] by (auto simp: monitor_active_positions_def)
  have "distinct (map fst (rn_trades ?r))" "trade_at (sample_libs False) ?r ''t1'' = Some (sample_trade (lit 100))"
    by (simp_all add: sample_runner_def sample_libs_def alist_full_ops_def)
  with monitoring_only_marks[OF sample_maps(1,2) _ r'] r' show ?thesis by metis
qed



text \<open>C18. The exit of a trade that is watched on the exchange: after a round it is exiting exactly when it
  was before, one of its two exit orders is filled, both have been open for more than three seconds, or
  its stop loss has not been triggered yet and one of the current prices has reached it.\<close>

theorem real_monitor_status:
  assumes "dashmap_full (l_trades L) tinv" "dashmap (l_trackers L) ninv" "tinv (rn_trades r)"
    and "trade_at L r i = Some t" "is_real_trading L"
    and "pt_long_exit_order t = Some x" "pt_short_exit_order t = Some y"
    and "get_current_prices L r (pt_symbol t) = (r1, Ok (ask, bid))"
    and "get_order_status (l_env L) (rn_world r) (pt_long_exchange t) (so_id x) = (w1, long_status)"
    and "get_order_status (l_env L) w1 (pt_short_exchange t) (so_id y) = (w2, short_status)"
  shows "\<exists>r' t'. monitor_trade L i r = Some (r', Ok ()) \<and> trade_at L r' i = Some t' \<and>
    (pt_status t' = Exiting \<longleftrightarrow> pt_status t = Exiting \<or> long_status = Ok Filled \<or> short_status = Ok Filled \<or>
      exits_timed_out (unix_secs (l_env L) w2) t \<or>
      (\<not> pt_stop_loss_triggered t \<and> (ask \<le> pt_stop_loss_long_price t \<or> pt_stop_loss_short_price t \<le> bid)))"
proof -
  let ?m = "monitored_of i t ask bid"
  let ?m' = "?m\<lparr>mo_long_exit_id := map_option so_id (pt_long_exit_order t),
    mo_short_exit_id := map_option so_id (pt_short_exit_order t)\<rparr>"
  note p = current_prices_frame[OF assms(8)]
  obtain r' where r': "monitor_real L ?m r1 = Some r'" using monitor_real_returns by blast
  have f: "exit_filled (l_env L) ?m' Long (rn_world r1) = (w1, long_status = Ok Filled)"
    "exit_filled (l_env L) ?m' Short w1 = (w2, short_status = Ok Filled)"
    using assms(6,7,9,10) p by (simp_all add: exit_filled_def monitored_of_def)
  have "\<exists>t'. trade_at L r' i = Some t' \<and>
    (pt_status t' = Exiting \<longleftrightarrow> pt_status t = Exiting \<or> long_status = Ok Filled \<or> short_status = Ok Filled \<or>
      exits_timed_out (unix_secs (l_env L) w2) t \<or> (\<not> mo_stop_loss_triggered ?m \<and> stop_loss_hit ?m))"
    using runner_libs.monitor_real_status[OF runner_libsI[OF assms(1,2)] _ _ refl f r'] assms(3,4) p
    by (simp add: monitored_of_def)
  then show ?thesis
    using r' assms(4-8) by (simp add: monitor_trade_def Let_def monitored_of_def stop_loss_hit_def)
qed

theorem real_monitor_status_witness:
  "\<exists>r' t'. monitor_trade demo_libs ''t1'' (sample_runner [(''t1'', demo_trade)]) = Some (r', Ok ()) \<and>
     trade_at demo_libs r' ''t1'' = Some t' \<and> pt_status t' = Exiting"
proof -
  let ?r = "sample_runner [(''t1'', demo_trade)]"
  have t: "pt_symbol demo_trade = ''BTCUSDT''" "pt_long_exchange demo_trade = ''bybit''"
    "pt_short_exchange demo_trade = ''okx''" "pt_long_exit_order demo_trade = Some (sample_sim_order Short)"
    "pt_short_exit_order demo_trade = Some (sample_sim_order Long)" "\<not> pt_stop_loss_triggered demo_trade"
    "pt_stop_loss_short_price demo_trade \<le> lit 101"
    by (simp_all add: demo_trade_def sample_trade_def f_le_refl)
  have p: "get_current_prices demo_libs ?r ''BTCUSDT'' = (?r, Ok (lit 100, lit 101))"
    by (rule sample_prices[OF _ _ t(1-3)]) (auto simp: demo_libs_def sample_libs_def)
  have r: "distinct (map fst (rn_trades ?r))" "trade_at demo_libs ?r ''t1'' = Some demo_trade" "is_real_trading demo_libs"
    by (simp_all add: sample_runner_def demo_libs_def sample_libs_def alist_full_ops_def is_real_trading_def)
  have d: "dashmap_full (l_trades demo_libs) (\<lambda>m. distinct (map fst m))" "dashmap (l_trackers demo_libs) (\<lambda>_. True)"
    using sample_maps(1,2)[of False] by (simp_all add: sample_maps(5,6))
  obtain w1 s1 w2 s2 where
    "get_order_status (l_env demo_libs) (rn_world ?r) (pt_long_exchange demo_trade) (so_id (sample_sim_order Short)) = (w1, s1)"
    "get_order_status (l_env demo_libs) w1 (pt_short_exchange demo_trade) (so_id (sample_sim_order Long)) = (w2, s2)"
    by (meson surj_pair)
  from real_monitor_status[OF d r t(4,5) p[folded t(1)] this] t(6,7) show ?thesis by auto
qed

text \<open>C25. The exit of a trade that is watched by its spread: the sequence of checks amounts to the decision
  \<open>exit_wanted\<close>, in which the profit target comes before the stop losses and these before the funding, and
  in which the check for a funding delta reduced by 80 percent has no part: the current delta is the one at
  entry.  No call of the backend is made; a trade of a real backend that lacks one of its exit orders is
  treated in this way, too.\<close>

theorem paper_monitor_decision:
  assumes "dashmap_full (l_trades L) tinv" "tinv (rn_trades r)"
    and "dashmap (l_to L) minv" "minv (to_id (rn_symbols r))"
    and "trade_at L r i = Some t" "pt_exit_reason t = None" "is_f64 (pt_funding_delta_entry t)"
    and "\<not> is_real_trading L \<or> pt_long_exit_order t = None \<or> pt_short_exit_order t = None"
    and "snd (get_current_prices L r (pt_symbol t)) = Ok (ask, bid)"
    and "spread = calculate_spread_bps ask bid"
    and "pnl = ((pt_entry_spread_bps t - spread) / lit 10000) * pt_position_size_usd t"
  shows "\<exists>r' now. monitor_trade L i r = Some (r', Ok ()) \<and> rn_exec r' = rn_exec r \<and>
    trade_at L r' = (trade_at L r)(i \<mapsto> check_leg_out now ask bid
      (case exit_wanted (pt_entry_spread_bps t) spread pnl (pt_projected_profit_usd t) (pt_funding_delta_entry t) of
         Some reason \<Rightarrow> mark_exit spread reason t
       | None \<Rightarrow> t))"
proof -
  obtain r1 where p: "get_current_prices L r (pt_symbol t) = (r1, Ok (ask, bid))"
    using assms(9) by (metis prod.collapse)
  note a = current_prices_again[OF assms(3,4) p]
  show ?thesis
    using assms(2,5,8,10,11) p a dashmap_full.get_insert[OF assms(1)]
      paper_exit_checks_decision[OF assms(6,7)]
    by (auto simp: monitor_trade_def Let_def monitor_paper_def monitored_of_def update_trade_def)
qed

theorem paper_monitor_decision_witness:
  "\<exists>r' now. monitor_trade (sample_libs False) ''t1'' (sample_runner [(''t1'', sample_trade (lit 100))]) = Some (r', Ok ()) \<and>
     trade_at (sample_libs False) r' = [''t1'' \<mapsto> check_leg_out now (lit 100) (lit 101) (sample_trade (lit 100))]"
proof -
  let ?t = "sample_trade (lit 100)" and ?r = "sample_runner [(''t1'', sample_trade (lit 100))]"
  let ?spread = "calculate_spread_bps (lit 100) (lit 101)"
  let ?pnl = "((pt_entry_spread_bps ?t - ?spread) / lit 10000) * pt_position_size_usd ?t"
  have t: "pt_symbol ?t = ''BTCUSDT''" "pt_long_exchange ?t = ''bybit''" "pt_short_exchange ?t = ''okx''"
    "pt_exit_reason ?t = None" "is_f64 (pt_funding_delta_entry ?t)"
    by (simp_all add: sample_trade_def lit_def del: lit_numeral)
  have p: "get_current_prices (sample_libs False) ?r ''BTCUSDT'' = (?r, Ok (lit 100, lit 101))"
    by (rule sample_prices[OF _ _ t(1-3)]) (auto simp: sample_libs_def)
  have r: "distinct (map fst (rn_trades ?r))" "trade_at (sample_libs False) ?r = [''t1'' \<mapsto> ?t]"
    "\<not> is_real_trading (sample_libs False)"
    by (auto simp: sample_runner_def sample_libs_def alist_full_ops_def is_real_trading_def paper_env_def
        PaperTradingBackend_backend_name_def fun_eq_iff)
  have e: "exit_wanted (pt_entry_spread_bps ?t) ?spread ?pnl (pt_projected_profit_usd ?t) (pt_funding_delta_entry ?t) = None"
    by code_simp
  from paper_monitor_decision[OF sample_maps(1)[of False] r(1) sample_maps(3) _ _ t(4,5) _ _ refl refl,
      where i = "''t1''" and ask = "lit 100" and bid = "lit 101"] t p r e show ?thesis by (auto simp del: lit_numeral)
qed

text \<open>C36. Two mechanisms that never come into play: in every state that the runner reaches there is no
  funding tracker, so that no trade exits for negative funding, and the portfolio has counted no leg-out,
  because the leg-out is noted in the book's copy of a trade and not in the portfolio's.\<close>

theorem dead_mechanisms:
  assumes "dashmap_full (l_trades L) tinv" "dashmap (l_trackers L) ninv" "reachable L r"
  shows "dm_get (l_trackers L) (rn_trackers r) symbol = None \<and>
    check_exit L i r = (case trade_at L r i of
      None \<Rightarrow> Some (r, Ok ())
    | Some t \<Rightarrow> if pt_status t = Exiting then finish_exit L i (pt_symbol t) t r else Some (r, Ok ())) \<and>
    pm_leg_out_count (get_portfolio_metrics (rn_portfolio r) now) = 0"
proof -
  note l = runner_libsI[OF assms(1,2)]
  from runner_libs.reachable_ok[OF l assms(3)]
  have "dm_get (l_trackers L) (rn_trackers r) = (\<lambda>_. None)" "ps_leg_out_count (pfm_state (rn_portfolio r)) = 0"
    by (auto simp: runner_ok_def no_leg_outs_def)
  with runner_libs.check_exit_no_tracker[OF l, of r i] show ?thesis
    by (simp add: get_portfolio_metrics_def Let_def)
qed

theorem dead_mechanisms_witness:
  "check_exit (sample_libs False) ''t1'' (sample_start\<lparr>rn_opportunity_consumer := sample_queue\<rparr>) =
     Some (sample_start\<lparr>rn_opportunity_consumer := sample_queue\<rparr>, Ok ()) \<and>
   pm_leg_out_count (get_portfolio_metrics (rn_portfolio (sample_start\<lparr>rn_opportunity_consumer := sample_queue\<rparr>)) 7) = 0"
  using dead_mechanisms[OF sample_maps(1,2) sample_reachable[of False sample_queue],
      where symbol = "''BTCUSDT''" and i = "''t1''" and now = 7]
  by (simp add: sample_start_def sample_runner_def sample_libs_def alist_full_ops_def)

end
