(* ===== verification/Bybit.thy ===== *)
theory Bybit
  imports Backend Exchange_Parser "HOL-Library.Signed_Division"
begin

text \<open>
  src/src/strategy/testnet/bybit_testnet.rs: the client of the demo exchange.

  The services it calls are the record \<open>net\<close>, an argument of every operation: the HTTP client, the JSON
  library, HMAC-SHA256 in hexadecimal, the clocks, the sleep and the UUIDs, over a state \<open>'x\<close> of the
  network.  A request is a value of \<open>http_request\<close>, so what the client sends can be stated.  The locks of
  the client guard single assignments and are left out.  \<open>i64\<close> is \<open>int\<close> with the wrap-around written out.
  The operator \<open>?\<close> is \<open>and_then\<close>.

  The locale \<open>client_invariant\<close> has the steps that the client takes on its state; whatever they preserve,
  every operation preserves.  It is instantiated with the clock, with the credentials and signatures, and
  with the shape of the caches.
\<close>

section \<open>Standard library\<close>

definition wrap_i64 :: "int \<Rightarrow> int" where
  "wrap_i64 n = (n + 2 ^ 63) mod 2 ^ 64 - 2 ^ 63"

definition int_str :: "int \<Rightarrow> string" where
  "int_str n = (if n < 0 then ''-'' @ nat_str (nat (- n)) else nat_str (nat n))"

text \<open>\<open>parse::<i64>()\<close> and \<open>parse::<u64>()\<close>.\<close>

definition parse_i64 :: "string \<Rightarrow> int option" where
  "parse_i64 s =
     (let (neg, t) = (case s of
            c # t \<Rightarrow> if c = CHR ''-'' then (True, t) else if c = CHR ''+'' then (False, t) else (False, s)
          | [] \<Rightarrow> (False, s));
          n = (if neg then - int (digits_val t) else int (digits_val t))
      in if t = [] \<or> \<not> list_all is_ascii_digit t \<or> n < - (2 ^ 63) \<or> 2 ^ 63 \<le> n then None else Some n)"

definition parse_u64 :: "string \<Rightarrow> u64 option" where
  "parse_u64 s =
     (let t = (case s of c # t \<Rightarrow> if c = CHR ''+'' then t else s | [] \<Rightarrow> s)
      in if t = [] \<or> \<not> list_all is_ascii_digit t \<or> 2 ^ 64 \<le> digits_val t then None
         else Some (of_nat (digits_val t)))"

text \<open>\<open>f64::round\<close>: to the nearest integer, halves away from zero.\<close>

fun fround :: "f64 \<Rightarrow> f64" where
  "fround (Fin r) =
     (let n = (if 0 \<le> r then \<lfloor>r + 1 / 2\<rfloor> else \<lceil>r - 1 / 2\<rceil>)
      in if n = 0 \<and> r < 0 then NZero else Fin (of_int n))"
| "fround x = x"

text \<open>\<open>format!("{:.d}", x)\<close>: the exact value rounded to \<open>d\<close> decimal places, ties to even.\<close>

fun pad_digits :: "nat \<Rightarrow> nat \<Rightarrow> string" where
  "pad_digits 0 n = []"
| "pad_digits (Suc d) n = pad_digits d (n div 10) @ [char_of (48 + n mod 10)]"

fun fmt_fixed :: "nat \<Rightarrow> f64 \<Rightarrow> string" where
  "fmt_fixed d NaN = ''NaN''"
| "fmt_fixed d PInf = ''inf''"
| "fmt_fixed d NInf = ''-inf''"
| "fmt_fixed d x =
     (let n = nat (rne (\<bar>val x\<bar> * 10 ^ d))
      in (if sign_bit x then ''-'' else []) @ nat_str (n div 10 ^ d) @ ''.'' @ pad_digits d (n mod 10 ^ d))"

section \<open>Services\<close>

datatype http_method = GET | POST

record http_request =
  rq_method :: http_method
  rq_url :: string
  rq_headers :: "(string \<times> string) list"
  rq_body :: "string option"

record http_response =
  rs_status :: nat
  rs_text :: "(string, string) result"

record ('x, 'j) net = "'j json_ops" +
  n_as_i64 :: "'j \<Rightarrow> int option"
  n_from_str :: "string \<Rightarrow> ('j, string) result"
  n_object_to_string :: "(string \<times> string) list \<Rightarrow> string"
  n_send :: "'x \<Rightarrow> http_request \<Rightarrow> 'x \<times> (http_response, string) result"
  n_status_text :: "nat \<Rightarrow> string"
  n_hmac_hex :: "string \<Rightarrow> string \<Rightarrow> string"
  n_instant :: "'x \<Rightarrow> instant"
  n_unix_nanos :: "'x \<Rightarrow> nat"
  n_sleep :: "'x \<Rightarrow> nat \<Rightarrow> 'x"
  n_uuid :: "'x \<Rightarrow> 'x \<times> string"

text \<open>The accessors alone.\<close>

abbreviation jops :: "('x, 'j) net \<Rightarrow> 'j json_ops" where
  "jops N \<equiv> json_ops.truncate N"

definition is_success :: "nat \<Rightarrow> bool" where
  "is_success status \<longleftrightarrow> 200 \<le> status \<and> status < 300"

definition ok_or :: "'e \<Rightarrow> 'a option \<Rightarrow> ('a, 'e) result" where
  "ok_or e x = (case x of Some a \<Rightarrow> Ok a | None \<Rightarrow> Err e)"

section \<open>State\<close>

definition BYBIT_DEMO_URL :: string where
  "BYBIT_DEMO_URL = ''https://api-demo.bybit.com''"

definition ORDER_BOOK_CACHE_TTL :: nat where
  "ORDER_BOOK_CACHE_TTL = from_millis 100"

record exchange_credentials =
  cr_api_key :: string
  cr_api_secret :: string
  cr_passphrase :: "string option"

record cached_order_book =
  cb_depth :: order_book_depth
  cb_cached_at :: instant

record bybit_demo_client =
  api_key :: string
  api_secret :: string
  qty_step_cache :: "string \<rightharpoonup> f64"
  order_book_cache :: "string \<times> usize \<rightharpoonup> cached_order_book"
  time_offset :: int
  last_sync :: instant

text \<open>The client and the state of the network it talks to.\<close>

record 'x cstate =
  c_client :: bybit_demo_client
  c_net :: 'x

definition BybitDemoClient_new :: "exchange_credentials \<Rightarrow> instant \<Rightarrow> bybit_demo_client" where
  "BybitDemoClient_new credentials now =
     \<lparr>api_key = cr_api_key credentials, api_secret = cr_api_secret credentials,
      qty_step_cache = Map.empty, order_book_cache = Map.empty, time_offset = 0, last_sync = now\<rparr>"

abbreviation upd_client :: "'x cstate \<Rightarrow> (bybit_demo_client \<Rightarrow> bybit_demo_client) \<Rightarrow> 'x cstate" where
  "upd_client s f \<equiv> s\<lparr>c_client := f (c_client s)\<rparr>"

section \<open>Requests\<close>

definition fetch ::
  "('x, 'j) net \<Rightarrow> 'x cstate \<Rightarrow> http_request \<Rightarrow> 'x cstate \<times> (http_response, string) result" where
  "fetch N s req = (let (x, r) = n_send N (c_net s) req in (s\<lparr>c_net := x\<rparr>, r))"

text \<open>\<open>send().await?\<close>, \<open>text().await?\<close> and \<open>serde_json::from_str(..)?\<close> in a row.\<close>

definition fetch_json ::
  "('x, 'j) net \<Rightarrow> 'x cstate \<Rightarrow> http_request \<Rightarrow> 'x cstate \<times> ('j, string) result" where
  "fetch_json N s req =
     and_then (fetch N s req) (\<lambda>s response.
     and_then (s, rs_text response) (\<lambda>s text. (s, n_from_str N text)))"

definition public_get :: "string \<Rightarrow> http_request" where
  "public_get url = \<lparr>rq_method = GET, rq_url = url, rq_headers = [], rq_body = None\<rparr>"

definition generate_post_signature ::
  "('x, 'j) net \<Rightarrow> bybit_demo_client \<Rightarrow> string \<Rightarrow> string \<Rightarrow> string \<Rightarrow> string" where
  "generate_post_signature N c timestamp recv_window body =
     to_lowercase (n_hmac_hex N (api_secret c) (timestamp @ api_key c @ recv_window @ body))"

definition generate_get_signature ::
  "('x, 'j) net \<Rightarrow> bybit_demo_client \<Rightarrow> string \<Rightarrow> string \<Rightarrow> string \<Rightarrow> string" where
  "generate_get_signature N c timestamp recv_window query_string =
     to_lowercase (n_hmac_hex N (api_secret c) (timestamp @ api_key c @ recv_window @ query_string))"

definition recv_window :: string where
  "recv_window = ''5000''"

definition auth_headers :: "bybit_demo_client \<Rightarrow> string \<Rightarrow> string \<Rightarrow> (string \<times> string) list" where
  "auth_headers c signature timestamp =
     [(''X-BAPI-SIGN'', signature), (''X-BAPI-API-KEY'', api_key c), (''X-BAPI-TIMESTAMP'', timestamp),
      (''X-BAPI-RECV-WINDOW'', recv_window)]"

definition signed_post ::
  "('x, 'j) net \<Rightarrow> bybit_demo_client \<Rightarrow> string \<Rightarrow> string \<Rightarrow> (string \<times> string) list \<Rightarrow> http_request" where
  "signed_post N c timestamp url request_body =
     (let body_str = n_object_to_string N request_body;
          signature = generate_post_signature N c timestamp recv_window body_str
      in \<lparr>rq_method = POST, rq_url = url,
          rq_headers = auth_headers c signature timestamp @ [(''Content-Type'', ''application/json'')],
          rq_body = Some body_str\<rparr>)"

definition signed_get ::
  "('x, 'j) net \<Rightarrow> bybit_demo_client \<Rightarrow> string \<Rightarrow> string \<Rightarrow> string \<Rightarrow> http_request" where
  "signed_get N c timestamp endpoint query_string =
     (let signature = generate_get_signature N c timestamp recv_window query_string
      in \<lparr>rq_method = GET, rq_url = endpoint @ ''?'' @ query_string,
          rq_headers = auth_headers c signature timestamp, rq_body = None\<rparr>)"

text \<open>The error that a response reports: \<open>retCode\<close> other than 0, with \<open>retMsg\<close>.\<close>

definition ret_error :: "('x, 'j) net \<Rightarrow> 'j \<Rightarrow> (int \<times> string) option" where
  "ret_error N response =
     (case Option.bind (j_get N response ''retCode'') (n_as_i64 N) of
        Some ret_code \<Rightarrow>
          if ret_code \<noteq> 0
          then Some (ret_code, case Option.bind (j_get N response ''retMsg'') (j_as_str N) of
            Some ret_msg \<Rightarrow> ret_msg | None \<Rightarrow> ''Unknown error'')
          else None
      | None \<Rightarrow> None)"

text \<open>\<open>result.list[0]\<close>.\<close>

definition first_result :: "('x, 'j) net \<Rightarrow> 'j \<Rightarrow> 'j option" where
  "first_result N response =
     Option.bind (path (jops N) [''result'', ''list''] response) (nth_of (jops N) 0)"

definition str_field :: "('x, 'j) net \<Rightarrow> string \<Rightarrow> 'j \<Rightarrow> string option" where
  "str_field N key v = Option.bind (j_get N v key) (j_as_str N)"

definition f64_field :: "('x, 'j) net \<Rightarrow> string \<Rightarrow> 'j \<Rightarrow> f64 option" where
  "f64_field N key v = Option.bind (str_field N key v) std_parse"

section \<open>Time\<close>

definition unix_millis_i64 :: "('x, 'j) net \<Rightarrow> 'x \<Rightarrow> int" where
  "unix_millis_i64 N x = wrap_i64 (int (n_unix_nanos N x div 1000000))"

definition server_time_of :: "('x, 'j) net \<Rightarrow> 'j \<Rightarrow> int option" where
  "server_time_of N response =
     (case map_option (\<lambda>nano. nano sdiv 1000000)
        (Option.bind (Option.bind (path (jops N) [''result'', ''timeNano''] response) (j_as_str N)) parse_i64) of
        Some t \<Rightarrow> Some t
      | None \<Rightarrow> map_option (\<lambda>sec. wrap_i64 (sec * 1000))
          (Option.bind (Option.bind (path (jops N) [''result'', ''timeSecond''] response) (j_as_str N)) parse_i64))"

definition BybitDemoClient_sync_server_time ::
  "('x, 'j) net \<Rightarrow> 'x cstate \<Rightarrow> 'x cstate \<times> (unit, string) result" where
  "BybitDemoClient_sync_server_time N s =
     (let url = BYBIT_DEMO_URL @ ''/v5/market/time'';
          local_time_before = unix_millis_i64 N (c_net s)
      in and_then (fetch_json N s (public_get url)) (\<lambda>s response_json.
         let local_time_after = unix_millis_i64 N (c_net s)
         in and_then (s, ok_or ''Failed to extract server time'' (server_time_of N response_json))
              (\<lambda>s server_time.
              let local_time_avg = wrap_i64 (local_time_before + local_time_after) sdiv 2;
                  offset = wrap_i64 (server_time - local_time_avg)
              in (upd_client s (\<lambda>c. c\<lparr>time_offset := offset, last_sync := n_instant N (c_net s)\<rparr>), Ok ()))))"

definition BybitDemoClient_get_timestamp ::
  "('x, 'j) net \<Rightarrow> 'x cstate \<Rightarrow> 'x cstate \<times> (string, string) result" where
  "BybitDemoClient_get_timestamp N s =
     (let s = (if duration_since (n_instant N (c_net s)) (last_sync (c_client s)) > from_millis 5000
               then fst (BybitDemoClient_sync_server_time N s) else s);
          local_time = unix_millis_i64 N (c_net s);
          adjusted_time = wrap_i64 (local_time + time_offset (c_client s))
      in (s, Ok (int_str adjusted_time)))"

section \<open>Instruments\<close>

definition instruments_url :: string where
  "instruments_url = BYBIT_DEMO_URL @ ''/v5/market/instruments-info?category=linear''"

definition BybitDemoClient_get_qty_step ::
  "('x, 'j) net \<Rightarrow> 'x cstate \<Rightarrow> string \<Rightarrow> 'x cstate \<times> (f64, string) result" where
  "BybitDemoClient_get_qty_step N s symbol =
     (case qty_step_cache (c_client s) symbol of
        Some qty_step \<Rightarrow> (s, Ok qty_step)
      | None \<Rightarrow>
          and_then (fetch_json N s (public_get (instruments_url @ ''&symbol='' @ symbol)))
            (\<lambda>s response_json.
          and_then (s, ok_or ''Failed to extract qtyStep from response''
              (Option.bind (Option.bind (first_result N response_json) (\<lambda>f. j_get N f ''lotSizeFilter''))
                (f64_field N ''qtyStep'')))
            (\<lambda>s qty_step.
            (upd_client s (\<lambda>c. c\<lparr>qty_step_cache := (qty_step_cache c)(symbol \<mapsto> qty_step)\<rparr>), Ok qty_step))))"

text \<open>A refusal is logged and the answer is \<open>Ok\<close> all the same.\<close>

definition BybitDemoClient_set_leverage ::
  "('x, 'j) net \<Rightarrow> 'x cstate \<Rightarrow> string \<Rightarrow> 'x cstate \<times> (unit, string) result" where
  "BybitDemoClient_set_leverage N s symbol =
     and_then (BybitDemoClient_get_timestamp N s) (\<lambda>s timestamp.
     let request_body = [(''category'', ''linear''), (''symbol'', symbol), (''buyLeverage'', ''1''),
           (''sellLeverage'', ''1'')];
         url = BYBIT_DEMO_URL @ ''/v5/position/set-leverage''
     in and_then (fetch_json N s (signed_post N (c_client s) timestamp url request_body))
          (\<lambda>s response_json. (s, Ok ())))"

fun find_instrument :: "('x, 'j) net \<Rightarrow> string \<Rightarrow> 'j list \<Rightarrow> bool" where
  "find_instrument N symbol [] = False"
| "find_instrument N symbol (instrument # list) =
     (if str_field N ''symbol'' instrument = Some symbol
      then (case str_field N ''status'' instrument of Some status \<Rightarrow> status = ''Trading'' | None \<Rightarrow> False)
      else find_instrument N symbol list)"

definition BybitDemoClient_is_symbol_tradeable ::
  "('x, 'j) net \<Rightarrow> 'x cstate \<Rightarrow> string \<Rightarrow> 'x cstate \<times> (bool, string) result" where
  "BybitDemoClient_is_symbol_tradeable N s symbol =
     and_then (fetch_json N s (public_get instruments_url)) (\<lambda>s response_json.
       (s, Ok (case Option.bind (path (jops N) [''result'', ''list''] response_json) (j_as_array N) of
          Some list \<Rightarrow> find_instrument N symbol list
        | None \<Rightarrow> False)))"

section \<open>Orders\<close>

definition side_name :: "order_side \<Rightarrow> string" where
  "side_name side = (case side of Long \<Rightarrow> ''Buy'' | Short \<Rightarrow> ''Sell'')"

text \<open>\<open>format!("{:.8}", x)\<close> without trailing zeros.\<close>

definition trimmed8 :: "f64 \<Rightarrow> string" where
  "trimmed8 x = trim_end_matches ''.'' (trim_end_matches ''0'' (fmt_fixed 8 x))"

definition qty_str :: "f64 \<Rightarrow> f64 \<Rightarrow> string" where
  "qty_str order_size qty_step = (let rounded_qty = fround (order_size / qty_step) * qty_step in trimmed8 rounded_qty)"

definition price_str :: "f64 \<Rightarrow> string" where
  "price_str price = (let rounded_price = fround (price * lit 100000000) / lit 100000000 in trimmed8 rounded_price)"

definition order_id_of :: "('x, 'j) net \<Rightarrow> 'j \<Rightarrow> (string, string) result" where
  "order_id_of N response =
     ok_or ''Failed to extract order ID from response''
       (Option.bind (j_get N response ''result'') (str_field N ''orderId''))"

text \<open>The body of the request for a new order up to the extraction of the order ID, which the two
  operations have in common.\<close>

definition create_order ::
  "('x, 'j) net \<Rightarrow> 'x cstate \<Rightarrow> string \<Rightarrow> (string \<times> string) list \<Rightarrow> 'x cstate \<times> (string, string) result" where
  "create_order N s timestamp request_body =
     (let url = BYBIT_DEMO_URL @ ''/v5/order/create''
      in and_then (fetch_json N s (signed_post N (c_client s) timestamp url request_body)) (\<lambda>s response_json.
         case ret_error N response_json of
           Some (ret_code, ret_msg) \<Rightarrow>
             (s, Err (''Bybit API error ('' @ int_str ret_code @ ''): '' @ ret_msg))
         | None \<Rightarrow> (s, order_id_of N response_json)))"

definition timestamp_u64 :: "string \<Rightarrow> u64" where
  "timestamp_u64 timestamp = (case parse_u64 timestamp of Some n \<Rightarrow> n | None \<Rightarrow> 0)"

definition BybitDemoClient_place_market_order ::
  "('x, 'j) net \<Rightarrow> 'x cstate \<Rightarrow> simulated_order \<Rightarrow> 'x cstate \<times> (simulated_order, string) result" where
  "BybitDemoClient_place_market_order N s order =
     and_then (BybitDemoClient_get_timestamp N s) (\<lambda>s timestamp.
     and_then (BybitDemoClient_get_qty_step N s (so_symbol order)) (\<lambda>s qty_step.
     let request_body = [(''category'', ''linear''), (''symbol'', so_symbol order),
           (''side'', side_name (so_side order)), (''orderType'', ''Market''),
           (''qty'', qty_str (so_size order) qty_step), (''timeInForce'', ''IOC'')]
     in and_then (create_order N s timestamp request_body) (\<lambda>s order_id.
        (s, Ok (order\<lparr>so_id := order_id, so_status := Filled, so_created_at := timestamp_u64 timestamp,
           so_filled_at := Some (timestamp_u64 timestamp), so_fill_price := Some (so_price order)\<rparr>)))))"

definition BybitDemoClient_place_order ::
  "('x, 'j) net \<Rightarrow> 'x cstate \<Rightarrow> simulated_order \<Rightarrow> 'x cstate \<times> (simulated_order, string) result" where
  "BybitDemoClient_place_order N s order =
     and_then (BybitDemoClient_get_timestamp N s) (\<lambda>s timestamp.
     and_then (BybitDemoClient_get_qty_step N s (so_symbol order)) (\<lambda>s qty_step.
     let request_body = [(''category'', ''linear''), (''symbol'', so_symbol order),
           (''side'', side_name (so_side order)), (''orderType'', ''Limit''),
           (''qty'', qty_str (so_size order) qty_step), (''price'', price_str (so_price order)),
           (''timeInForce'', ''GTC''), (''leverage'', ''1'')]
     in and_then (create_order N s timestamp request_body) (\<lambda>s order_id.
        (s, Ok (order\<lparr>so_id := order_id, so_status := Pending, so_created_at := timestamp_u64 timestamp\<rparr>)))))"

definition order_query :: "string \<Rightarrow> string \<Rightarrow> string" where
  "order_query symbol order_id = ''category=linear&symbol='' @ symbol @ ''&orderId='' @ order_id"

definition status_of_str :: "string option \<Rightarrow> order_status" where
  "status_of_str status_str =
     (if status_str = Some ''Filled'' then Filled
      else if status_str = Some ''Cancelled'' then Cancelled else Pending)"

definition BybitDemoClient_get_order_status ::
  "('x, 'j) net \<Rightarrow> 'x cstate \<Rightarrow> string \<Rightarrow> string \<Rightarrow> 'x cstate \<times> (order_status, string) result" where
  "BybitDemoClient_get_order_status N s order_id symbol =
     and_then (BybitDemoClient_get_timestamp N s) (\<lambda>s timestamp.
     and_then (fetch_json N s (signed_get N (c_client s) timestamp (BYBIT_DEMO_URL @ ''/v5/order/realtime'')
         (order_query symbol order_id))) (\<lambda>s response_json.
       (s, Ok (status_of_str (Option.bind (first_result N response_json) (str_field N ''orderStatus''))))))"

definition or_zero :: "f64 option \<Rightarrow> f64" where
  "or_zero x = (case x of Some v \<Rightarrow> v | None \<Rightarrow> lit 0)"

definition BybitDemoClient_get_order_status_detailed ::
  "('x, 'j) net \<Rightarrow> 'x cstate \<Rightarrow> string \<Rightarrow> string \<Rightarrow> 'x cstate \<times> (order_status_info, string) result" where
  "BybitDemoClient_get_order_status_detailed N s order_id symbol =
     and_then (BybitDemoClient_get_timestamp N s) (\<lambda>s timestamp.
     and_then (fetch_json N s (signed_get N (c_client s) timestamp (BYBIT_DEMO_URL @ ''/v5/order/realtime'')
         (order_query symbol order_id))) (\<lambda>s response_json.
     case ret_error N response_json of
       Some (ret_code, ret_msg) \<Rightarrow> (s, Err (''Bybit API error: '' @ ret_msg))
     | None \<Rightarrow>
         and_then (s, ok_or ''Order not found in response'' (first_result N response_json)) (\<lambda>s order_data.
           (s, Ok (OrderStatusInfo_new (status_of_str (str_field N ''orderStatus'' order_data))
              (or_zero (f64_field N ''cumExecQty'' order_data)) (or_zero (f64_field N ''qty'' order_data)))))))"

definition BybitDemoClient_cancel_order ::
  "('x, 'j) net \<Rightarrow> 'x cstate \<Rightarrow> string \<Rightarrow> string \<Rightarrow> 'x cstate \<times> (unit, string) result" where
  "BybitDemoClient_cancel_order N s order_id symbol =
     and_then (BybitDemoClient_get_timestamp N s) (\<lambda>s timestamp.
     let request_body = [(''category'', ''linear''), (''symbol'', symbol), (''orderId'', order_id)];
         url = BYBIT_DEMO_URL @ ''/v5/order/cancel''
     in and_then (fetch_json N s (signed_post N (c_client s) timestamp url request_body)) (\<lambda>s response_json.
        case ret_error N response_json of
          Some (ret_code, ret_msg) \<Rightarrow> (s, Err (''Failed to cancel order: '' @ ret_msg))
        | None \<Rightarrow> (s, Ok ())))"

section \<open>Balance\<close>

definition usdt_coin :: "('x, 'j) net \<Rightarrow> 'j \<Rightarrow> 'j option" where
  "usdt_coin N response =
     Option.bind (Option.bind (Option.bind (first_result N response) (\<lambda>f. j_get N f ''coin'')) (j_as_array N))
       (List.find (\<lambda>coin. str_field N ''coin'' coin = Some ''USDT''))"

definition balance_of :: "('x, 'j) net \<Rightarrow> 'j \<Rightarrow> f64 option" where
  "balance_of N usdt =
     (case f64_field N ''equity'' usdt of Some b \<Rightarrow> Some b | None \<Rightarrow> f64_field N ''walletBalance'' usdt)"

definition BybitDemoClient_get_balance ::
  "('x, 'j) net \<Rightarrow> 'x cstate \<Rightarrow> 'x cstate \<times> (f64, string) result" where
  "BybitDemoClient_get_balance N s =
     and_then (BybitDemoClient_get_timestamp N s) (\<lambda>s timestamp.
     and_then (fetch N s (signed_get N (c_client s) timestamp (BYBIT_DEMO_URL @ ''/v5/account/wallet-balance'')
         ''accountType=UNIFIED'')) (\<lambda>s response.
     and_then (s, rs_text response) (\<lambda>s response_text.
     if \<not> is_success (rs_status response)
     then (s, Err (''HTTP '' @ n_status_text N (rs_status response) @ '': '' @ response_text))
     else if response_text = [] then (s, Err ''Empty response from API'')
     else and_then (s, n_from_str N response_text) (\<lambda>s response_json.
       (s, ok_or ''Failed to extract USDT available balance''
          (Option.bind (usdt_coin N response_json) (balance_of N)))))))"

section \<open>Order book\<close>

definition order_book_limit :: "usize \<Rightarrow> nat" where
  "order_book_limit levels =
     (if levels \<le> 1 then 1 else if levels \<le> 25 then 25 else if levels \<le> 50 then 50
      else if levels \<le> 100 then 100 else 200)"

definition parse_level :: "('x, 'j) net \<Rightarrow> 'j \<Rightarrow> price_level option" where
  "parse_level N level =
     Option.bind (j_as_array N level) (\<lambda>arr.
     Option.bind (Option.bind (Option.bind (vec_get arr 0) (j_as_str N)) std_parse) (\<lambda>price.
     Option.bind (Option.bind (Option.bind (vec_get arr 1) (j_as_str N)) std_parse) (\<lambda>quantity.
       Some \<lparr>pl_price = price, pl_quantity = quantity\<rparr>)))"

definition parse_side :: "('x, 'j) net \<Rightarrow> usize \<Rightarrow> string \<Rightarrow> 'j \<Rightarrow> price_level list option" where
  "parse_side N levels key result =
     map_option (\<lambda>arr. List.map_filter (parse_level N) (take levels arr))
       (Option.bind (j_get N result key) (j_as_array N))"

definition cached_book :: "('x, 'j) net \<Rightarrow> 'x cstate \<Rightarrow> string \<times> usize \<Rightarrow> order_book_depth option" where
  "cached_book N s cache_key =
     (case order_book_cache (c_client s) cache_key of
        Some cached \<Rightarrow>
          if duration_since (n_instant N (c_net s)) (cb_cached_at cached) < ORDER_BOOK_CACHE_TTL
          then Some (cb_depth cached) else None
      | None \<Rightarrow> None)"

definition order_book_url :: "string \<Rightarrow> usize \<Rightarrow> string" where
  "order_book_url symbol levels =
     BYBIT_DEMO_URL @ ''/v5/market/orderbook?category=linear&symbol='' @ symbol @ ''&limit='' @
     nat_str (order_book_limit levels)"

definition BybitDemoClient_get_order_book_depth ::
  "('x, 'j) net \<Rightarrow> 'x cstate \<Rightarrow> string \<Rightarrow> usize \<Rightarrow> 'x cstate \<times> (order_book_depth, string) result" where
  "BybitDemoClient_get_order_book_depth N s symbol levels =
     (case cached_book N s (symbol, levels) of
        Some depth \<Rightarrow> (s, Ok depth)
      | None \<Rightarrow>
          and_then (fetch N s (public_get (order_book_url symbol levels))) (\<lambda>s response.
          and_then (s, rs_text response) (\<lambda>s response_text.
          if \<not> is_success (rs_status response)
          then (s, Err (''HTTP '' @ n_status_text N (rs_status response) @ '': '' @ response_text))
          else and_then (s, n_from_str N response_text) (\<lambda>s response_json.
          case ret_error N response_json of
            Some (ret_code, ret_msg) \<Rightarrow> (s, Err (''Bybit API error: '' @ ret_msg))
          | None \<Rightarrow>
          and_then (s, ok_or ''Missing result in response'' (j_get N response_json ''result'')) (\<lambda>s result.
          and_then (s, ok_or ''Missing bids in response'' (parse_side N levels ''b'' result)) (\<lambda>s bids.
          and_then (s, ok_or ''Missing asks in response'' (parse_side N levels ''a'' result)) (\<lambda>s asks.
          let depth = \<lparr>obd_bids = bids, obd_asks = asks,
                obd_timestamp = of_nat (n_unix_nanos N (c_net s) div 1000000)\<rparr>
          in (upd_client s (\<lambda>c. c\<lparr>order_book_cache := (order_book_cache c)((symbol, levels) \<mapsto>
                \<lparr>cb_depth = depth, cb_cached_at = n_instant N (c_net s)\<rparr>)\<rparr>), Ok depth))))))))"

definition BybitDemoClient_get_best_bid ::
  "('x, 'j) net \<Rightarrow> 'x cstate \<Rightarrow> string \<Rightarrow> 'x cstate \<times> (f64, string) result" where
  "BybitDemoClient_get_best_bid N s symbol =
     and_then (BybitDemoClient_get_order_book_depth N s symbol 5) (\<lambda>s depth.
       (s, ok_or ''No bids available in order book'' (map_option pl_price (vec_get (obd_bids depth) 0))))"

definition BybitDemoClient_get_best_ask ::
  "('x, 'j) net \<Rightarrow> 'x cstate \<Rightarrow> string \<Rightarrow> 'x cstate \<times> (f64, string) result" where
  "BybitDemoClient_get_best_ask N s symbol =
     and_then (BybitDemoClient_get_order_book_depth N s symbol 5) (\<lambda>s depth.
       (s, ok_or ''No asks available in order book'' (map_option pl_price (vec_get (obd_asks depth) 0))))"

section \<open>What may be sent\<close>

text \<open>The signed part of a request: its body, or else the query string.\<close>

definition signed_payload :: "http_request \<Rightarrow> string" where
  "signed_payload req =
     (case rq_body req of Some body \<Rightarrow> body | None \<Rightarrow> tl (dropWhile (\<lambda>c. c \<noteq> CHR ''?'') (rq_url req)))"

definition well_signed :: "('x, 'j) net \<Rightarrow> string \<Rightarrow> string \<Rightarrow> http_request \<Rightarrow> bool" where
  "well_signed N key secret req \<longleftrightarrow>
     map_of (rq_headers req) ''X-BAPI-API-KEY'' = Some key \<and>
     map_of (rq_headers req) ''X-BAPI-RECV-WINDOW'' = Some recv_window \<and>
     (case map_of (rq_headers req) ''X-BAPI-TIMESTAMP'' of
        Some timestamp \<Rightarrow> map_of (rq_headers req) ''X-BAPI-SIGN'' =
          Some (to_lowercase (n_hmac_hex N secret (timestamp @ key @ recv_window @ signed_payload req)))
      | None \<Rightarrow> False)"

text \<open>Market data is read without credentials; everything else is signed; nothing leaves for another host.\<close>

definition allowed :: "('x, 'j) net \<Rightarrow> string \<Rightarrow> string \<Rightarrow> http_request \<Rightarrow> bool" where
  "allowed N key secret req \<longleftrightarrow>
     (if prefix (BYBIT_DEMO_URL @ ''/v5/market/'') (rq_url req)
      then rq_method req = GET \<and> rq_headers req = [] \<and> rq_body req = None
      else prefix (BYBIT_DEMO_URL @ ''/v5/'') (rq_url req) \<and> well_signed N key secret req)"

text \<open>A cached order book has at most the levels it was asked for, and was cached before now.\<close>

definition client_wf :: "('x, 'j) net \<Rightarrow> 'x cstate \<Rightarrow> bool" where
  "client_wf N s \<longleftrightarrow>
     last_sync (c_client s) \<le> n_instant N (c_net s) \<and>
     (\<forall>symbol levels cached. order_book_cache (c_client s) (symbol, levels) = Some cached \<longrightarrow>
        length (obd_bids (cb_depth cached)) \<le> levels \<and> length (obd_asks (cb_depth cached)) \<le> levels \<and>
        cb_cached_at cached \<le> n_instant N (c_net s))"

text \<open>A network that writes down every request.\<close>

definition logged :: "('x, 'j) net \<Rightarrow> ('x \<times> http_request list, 'j) net" where
  "logged N =
     \<lparr>j_get = j_get N, j_as_str = j_as_str N, j_as_array = j_as_array N, j_is_f64 = j_is_f64 N,
      j_as_f64 = j_as_f64 N, n_as_i64 = n_as_i64 N, n_from_str = n_from_str N,
      n_object_to_string = n_object_to_string N,
      n_send = (\<lambda>(x, log) req. let (x, r) = n_send N x req in ((x, log @ [req]), r)),
      n_status_text = n_status_text N, n_hmac_hex = n_hmac_hex N,
      n_instant = (\<lambda>(x, log). n_instant N x), n_unix_nanos = (\<lambda>(x, log). n_unix_nanos N x),
      n_sleep = (\<lambda>(x, log) ms. (n_sleep N x ms, log)),
      n_uuid = (\<lambda>(x, log). let (x, u) = n_uuid N x in ((x, log), u))\<rparr>"

text \<open>The credentials are those given and every request in the log is allowed.\<close>

definition log_ok :: "('x, 'j) net \<Rightarrow> string \<Rightarrow> string \<Rightarrow> ('x \<times> http_request list) cstate \<Rightarrow> bool" where
  "log_ok N key secret s \<longleftrightarrow>
     api_key (c_client s) = key \<and> api_secret (c_client s) = secret \<and> list_all (allowed N key secret) (snd (c_net s))"

section \<open>A concrete network\<close>

text \<open>An exchange that accepts every order, with a quantity step of 0.5 and a book of one level; it
  answers every request with all of that after a millisecond.\<close>

definition sample_json :: json where
  "sample_json =
     JObj [(''result'', JObj [(''orderId'', JStr ''17''),
       (''list'', JArr [JObj [(''lotSizeFilter'', JObj [(''qtyStep'', JStr ''0.5'')])]]),
       (''b'', JArr [JArr [JStr ''99'', JStr ''2'']]), (''a'', JArr [JArr [JStr ''100'', JStr ''3'']])])]"

definition sample_net :: "(nat, json) net" where
  "sample_net =
     json_ops.extend value_ops
       (net.fields (\<lambda>v. None) (\<lambda>text. Ok sample_json) (\<lambda>fs. concat (map (\<lambda>(k, v). k @ v) fs))
         (\<lambda>t req. (t + 1000000, Ok \<lparr>rs_status = 200, rs_text = Ok []\<rparr>))
         nat_str (\<lambda>key message. key @ message) (\<lambda>t. t) (\<lambda>t. 1700000000000000000 + t)
         (\<lambda>t ms. t + from_millis ms) (\<lambda>t. (t, nat_str t)))"

definition sample_client :: "nat cstate" where
  "sample_client =
     \<lparr>c_client = BybitDemoClient_new \<lparr>cr_api_key = ''key'', cr_api_secret = ''secret'', cr_passphrase = None\<rparr> 0,
      c_net = 0\<rparr>"

section \<open>Contracts\<close>

text \<open>What is assumed of the clock.\<close>

locale network =
  fixes N :: "('x, 'j) net"
  assumes time_send: "n_instant N x \<le> n_instant N (fst (n_send N x req))"
    and time_sleep: "n_instant N x + from_millis ms \<le> n_instant N (n_sleep N x ms)"
    and time_uuid: "n_instant N x \<le> n_instant N (fst (n_uuid N x))"

text \<open>The steps of the client: an allowed request, a new time offset, an entry in a cache.\<close>

locale client_invariant =
  fixes N :: "('x, 'j) net" and P :: "'x cstate \<Rightarrow> bool"
  assumes send: "P s \<Longrightarrow> allowed N (api_key (c_client s)) (api_secret (c_client s)) req \<Longrightarrow>
      P (s\<lparr>c_net := fst (n_send N (c_net s) req)\<rparr>)"
    and sync: "P s \<Longrightarrow> P (upd_client s (\<lambda>c. c\<lparr>time_offset := k, last_sync := n_instant N (c_net s)\<rparr>))"
    and step: "P s \<Longrightarrow> P (upd_client s (\<lambda>c. c\<lparr>qty_step_cache := (qty_step_cache c)(symbol \<mapsto> q)\<rparr>))"
    and book: "P s \<Longrightarrow> length (obd_bids d) \<le> levels \<Longrightarrow> length (obd_asks d) \<le> levels \<Longrightarrow>
      P (upd_client s (\<lambda>c. c\<lparr>order_book_cache := (order_book_cache c)((symbol, levels) \<mapsto>
        \<lparr>cb_depth = d, cb_cached_at = n_instant N (c_net s)\<rparr>)\<rparr>))"

section \<open>Lemmas\<close>

lemma and_then_Ok [simp]: "and_then (s, Ok a) f = f s a"
  by (simp add: and_then_def)

lemma and_then_Err [simp]: "and_then (s, Err e) f = (s, Err e)"
  by (simp add: and_then_def)

lemma and_then_inv:
  assumes "P (fst p)" "\<And>s a. p = (s, Ok a) \<Longrightarrow> P s \<Longrightarrow> P (fst (f s a))"
  shows "P (fst (and_then p f))"
  using assms by (cases p) (auto simp: and_then_def split: result.splits)

lemma and_then_const: "fst (and_then (s, r) f) = (case r of Ok a \<Rightarrow> fst (f s a) | Err e \<Rightarrow> s)"
  by (simp add: and_then_def split: result.splits)

lemma map_filter_length: "length (List.map_filter f xs) \<le> length xs"
  by (induction xs) (auto simp: List.map_filter_simps split: option.splits)

lemma parse_side_length: "parse_side N levels key v = Some ls \<Longrightarrow> length ls \<le> levels"
  using map_filter_length[of "parse_level N"]
  by (fastforce simp: parse_side_def intro: le_trans)

lemma ok_or_Ok: "ok_or e x = Ok a \<longleftrightarrow> x = Some a"
  by (auto simp: ok_or_def split: option.splits)

lemma allowed_public:
  "prefix ''/v5/market/'' endpoint \<Longrightarrow> allowed N key secret (public_get (BYBIT_DEMO_URL @ endpoint))"
  by (simp add: allowed_def public_get_def)

lemma allowed_post:
  "prefix ''/v5/'' endpoint \<Longrightarrow> \<not> prefix ''/v5/market/'' endpoint \<Longrightarrow>
   allowed N (api_key c) (api_secret c) (signed_post N c timestamp (BYBIT_DEMO_URL @ endpoint) body)"
  by (simp add: allowed_def signed_post_def well_signed_def auth_headers_def signed_payload_def
      generate_post_signature_def Let_def)

lemma query_part:
  "CHR ''?'' \<notin> set url \<Longrightarrow> tl (dropWhile (\<lambda>c. c \<noteq> CHR ''?'') (url @ ''?'' @ query)) = query"
  by (induction url) auto

lemma allowed_get:
  "prefix ''/v5/'' endpoint \<Longrightarrow> \<not> prefix ''/v5/market/'' (endpoint @ ''?'' @ query) \<Longrightarrow> CHR ''?'' \<notin> set endpoint \<Longrightarrow>
   allowed N (api_key c) (api_secret c) (signed_get N c timestamp (BYBIT_DEMO_URL @ endpoint) query)"
  using query_part[of "BYBIT_DEMO_URL @ endpoint" query]
  by (simp add: allowed_def signed_get_def well_signed_def auth_headers_def signed_payload_def
      generate_get_signature_def BYBIT_DEMO_URL_def Let_def)

subsection \<open>Invariants of the client\<close>

context client_invariant
begin

lemmas inv_then = and_then_inv[where P = P]

lemma fetch_inv: "P s \<Longrightarrow> allowed N (api_key (c_client s)) (api_secret (c_client s)) req \<Longrightarrow> P (fst (fetch N s req))"
  using send[of s req] by (simp add: fetch_def split_beta)

lemma fetch_json_inv:
  "P s \<Longrightarrow> allowed N (api_key (c_client s)) (api_secret (c_client s)) req \<Longrightarrow> P (fst (fetch_json N s req))"
  unfolding fetch_json_def by (rule inv_then) (auto simp: fetch_inv and_then_const split: result.splits)

lemma sync_server_time_inv: "P s \<Longrightarrow> P (fst (BybitDemoClient_sync_server_time N s))"
  unfolding BybitDemoClient_sync_server_time_def Let_def
  by (rule inv_then) (auto simp: fetch_json_inv allowed_public and_then_const sync split: result.splits)

lemma get_timestamp_inv: "P s \<Longrightarrow> P (fst (BybitDemoClient_get_timestamp N s))"
  by (simp add: BybitDemoClient_get_timestamp_def Let_def sync_server_time_inv)

lemma get_qty_step_inv: "P s \<Longrightarrow> P (fst (BybitDemoClient_get_qty_step N s symbol))"
  unfolding BybitDemoClient_get_qty_step_def instruments_url_def append_assoc
  by (auto intro!: inv_then fetch_json_inv allowed_public simp: step split: option.splits)

lemma set_leverage_inv: "P s \<Longrightarrow> P (fst (BybitDemoClient_set_leverage N s symbol))"
  unfolding BybitDemoClient_set_leverage_def Let_def
  by (auto intro!: inv_then get_timestamp_inv fetch_json_inv allowed_post)

lemma is_symbol_tradeable_inv: "P s \<Longrightarrow> P (fst (BybitDemoClient_is_symbol_tradeable N s symbol))"
  unfolding BybitDemoClient_is_symbol_tradeable_def instruments_url_def
  by (auto intro!: inv_then fetch_json_inv allowed_public)

lemma create_order_inv: "P s \<Longrightarrow> P (fst (create_order N s timestamp body))"
  unfolding create_order_def Let_def
  by (auto intro!: inv_then fetch_json_inv allowed_post split: option.splits)

lemma place_order_inv: "P s \<Longrightarrow> P (fst (BybitDemoClient_place_order N s order))"
  unfolding BybitDemoClient_place_order_def Let_def
  by (auto intro!: inv_then get_timestamp_inv get_qty_step_inv create_order_inv)

lemma place_market_order_inv: "P s \<Longrightarrow> P (fst (BybitDemoClient_place_market_order N s order))"
  unfolding BybitDemoClient_place_market_order_def Let_def
  by (auto intro!: inv_then get_timestamp_inv get_qty_step_inv create_order_inv)

lemma get_order_status_inv: "P s \<Longrightarrow> P (fst (BybitDemoClient_get_order_status N s i symbol))"
  unfolding BybitDemoClient_get_order_status_def
  by (auto intro!: inv_then get_timestamp_inv fetch_json_inv allowed_get)

lemma get_order_status_detailed_inv:
  "P s \<Longrightarrow> P (fst (BybitDemoClient_get_order_status_detailed N s i symbol))"
  unfolding BybitDemoClient_get_order_status_detailed_def
  by (auto intro!: inv_then get_timestamp_inv fetch_json_inv allowed_get split: option.splits)

lemma cancel_order_inv: "P s \<Longrightarrow> P (fst (BybitDemoClient_cancel_order N s i symbol))"
  unfolding BybitDemoClient_cancel_order_def Let_def
  by (auto intro!: inv_then get_timestamp_inv fetch_json_inv allowed_post split: option.splits)

lemma get_balance_inv: "P s \<Longrightarrow> P (fst (BybitDemoClient_get_balance N s))"
  unfolding BybitDemoClient_get_balance_def
  by (auto intro!: inv_then get_timestamp_inv fetch_inv allowed_get)

lemma get_order_book_depth_inv: "P s \<Longrightarrow> P (fst (BybitDemoClient_get_order_book_depth N s symbol levels))"
  unfolding BybitDemoClient_get_order_book_depth_def Let_def order_book_url_def
  by (auto intro!: inv_then fetch_inv allowed_public book
      simp: ok_or_Ok parse_side_length split: option.splits)

lemma get_best_bid_inv: "P s \<Longrightarrow> P (fst (BybitDemoClient_get_best_bid N s symbol))"
  unfolding BybitDemoClient_get_best_bid_def by (auto intro!: inv_then get_order_book_depth_inv)

lemma get_best_ask_inv: "P s \<Longrightarrow> P (fst (BybitDemoClient_get_best_ask N s symbol))"
  unfolding BybitDemoClient_get_best_ask_def by (auto intro!: inv_then get_order_book_depth_inv)

lemmas client_ops_inv = sync_server_time_inv get_qty_step_inv set_leverage_inv place_order_inv
  place_market_order_inv get_order_status_inv get_order_status_detailed_inv cancel_order_inv get_balance_inv
  get_order_book_depth_inv get_best_bid_inv get_best_ask_inv

end

subsection \<open>Its instances\<close>

lemma client_wf_later:
  "client_wf N s \<Longrightarrow> n_instant N (c_net s) \<le> n_instant N x \<Longrightarrow> client_wf N (s\<lparr>c_net := x\<rparr>)"
  by (fastforce simp: client_wf_def)

text \<open>Time does not run backwards, and the client stays well formed.\<close>

sublocale network \<subseteq> clock: client_invariant N "\<lambda>s. t \<le> n_instant N (c_net s)" for t
  by unfold_locales (auto intro: order_trans time_send)

sublocale network \<subseteq> shape: client_invariant N "client_wf N"
  by unfold_locales (auto simp: client_wf_later time_send, auto simp: client_wf_def)

text \<open>The credentials stay, and every request in the log is allowed.\<close>

lemma logged_simps [simp]:
  "n_instant (logged N) z = n_instant N (fst z)"
  "n_send (logged N) z req = ((fst (n_send N (fst z) req), snd z @ [req]), snd (n_send N (fst z) req))"
  "n_sleep (logged N) z ms = (n_sleep N (fst z) ms, snd z)"
  "n_uuid (logged N) z = ((fst (n_uuid N (fst z)), snd z), snd (n_uuid N (fst z)))"
  "n_hmac_hex (logged N) = n_hmac_hex N"
  by (simp_all add: logged_def split_beta)

lemma allowed_logged [simp]: "allowed (logged N) key secret req = allowed N key secret req"
  by (simp add: allowed_def well_signed_def split: option.splits)

interpretation requests: client_invariant "logged N" "log_ok N key secret" for N key secret
  by unfold_locales (auto simp: log_ok_def)

lemmas sample_defs = sample_net_def json_ops.defs net.defs value_ops_def sample_json_def sample_client_def
  BybitDemoClient_new_def

lemma network_sample: "network sample_net"
  by unfold_locales (simp_all add: sample_defs)

interpretation sample_network: network sample_net
  by (rule network_sample)

subsection \<open>Numerals\<close>

lemma digit_char: "k < 10 \<Longrightarrow> is_ascii_digit (char_of (48 + k))" "k < 10 \<Longrightarrow> digit_val (char_of (48 + k)) = k"
  by (simp_all add: is_ascii_digit_def digit_val_def)

lemma nat_str_digits:
  "list_all is_ascii_digit (nat_str n) \<and> nat_str n \<noteq> [] \<and> digits_val (nat_str n) = n"
proof (induction n rule: nat_str.induct)
  case (1 n)
  show ?case
  proof (cases "n < 10")
    case True
    then show ?thesis
      using digits_val_snoc[of "[]"] by (simp add: nat_str.simps[of n] digit_char)
  next
    case False
    with 1 show ?thesis
      by (simp add: nat_str.simps[of n] digit_char digits_val_snoc)
  qed
qed

lemma pad_digits_digits:
  "list_all is_ascii_digit (pad_digits d n) \<and> length (pad_digits d n) = d \<and>
   digits_val (pad_digits d n) = n mod 10 ^ d"
proof (induction d arbitrary: n)
  case (Suc d)
  have "n mod 10 ^ Suc d = 10 * (n div 10 mod 10 ^ d) + n mod 10"
    by (simp add: mod_mult2_eq)
  with Suc[of "n div 10"] show ?case by (simp add: digit_char digits_val_snoc)
qed simp

lemma trim_char: "trim_end_matches [c] s = rev (dropWhile (\<lambda>x. x = c) (rev s))"
proof (induction s rule: rev_induct)
  case Nil
  then show ?case by (simp add: trim_end_matches.simps)
next
  case (snoc x s)
  have "suffix [c] (s @ [x]) \<longleftrightarrow> x = c" by (auto simp: suffix_def)
  with snoc show ?case by (subst trim_end_matches.simps) auto
qed

lemma split_zeros:
  assumes "list_all is_ascii_digit fs"
  obtains fs' k where "fs = fs' @ replicate k (CHR ''0'')" "fs' = [] \<or> last fs' \<noteq> CHR ''0''"
    "list_all is_ascii_digit fs'"
proof
  let ?r = "rev (dropWhile (\<lambda>x. x = CHR ''0'') (rev fs))" and ?z = "takeWhile (\<lambda>x. x = CHR ''0'') (rev fs)"
  have "fs = ?r @ rev ?z" by (simp flip: rev_append)
  moreover have "?z = replicate (length ?z) (CHR ''0'')"
    by (auto intro!: replicate_eqI dest: set_takeWhileD)
  then have "rev ?z = replicate (length ?z) (CHR ''0'')" by (subst rev_replicate[symmetric]) (rule arg_cong)
  ultimately show "fs = ?r @ replicate (length ?z) (CHR ''0'')" by simp
  show "?r = [] \<or> last ?r \<noteq> CHR ''0''"
    using hd_dropWhile[of "\<lambda>x. x = CHR ''0''" "rev fs"] by (auto simp: last_rev)
  show "list_all is_ascii_digit ?r"
    using assms by (auto simp: list_all_iff dest: set_dropWhileD)
qed

lemma trim_numeral:
  assumes "list_all is_ascii_digit ds" "ds \<noteq> []" "list_all is_ascii_digit fs'" "fs' = [] \<or> last fs' \<noteq> CHR ''0''"
  shows "trim_end_matches ''.'' (trim_end_matches ''0'' (ds @ ''.'' @ fs' @ replicate k (CHR ''0''))) =
    plain_decimal False ds fs'"
proof -
  have zero: "dropWhile (\<lambda>x. x = CHR ''0'') (replicate k (CHR ''0'') @ t) = dropWhile (\<lambda>x. x = CHR ''0'') t" for t
    by (induction k) auto
  have digit: "\<And>c. is_ascii_digit c \<Longrightarrow> c \<noteq> CHR ''.''" by (auto simp: is_ascii_digit_def)
  obtain ds' d where ds: "ds = ds' @ [d]" using assms(2) by (cases ds rule: rev_cases) auto
  show ?thesis
  proof (cases fs' rule: rev_cases)
    case Nil
    with ds assms(1) digit[of d] zero show ?thesis by (simp add: trim_char plain_decimal_def)
  next
    case (snoc gs g)
    with assms(3,4) digit[of g] zero show ?thesis by (simp add: trim_char plain_decimal_def)
  qed
qed

text \<open>A number with eight decimals and no trailing zeros is a plain decimal, of the value rounded there.\<close>

lemma trimmed8_plain:
  assumes "is_finite x" "\<not> sign_bit x"
  obtains ds fs where "trimmed8 x = plain_decimal False ds fs" "list_all is_ascii_digit ds"
    "list_all is_ascii_digit fs" "ds \<noteq> []"
    "(of_nat (digits_val (ds @ fs)) :: rat) / 10 ^ length fs = of_int (rne (val x * 10 ^ 8)) / 10 ^ 8"
proof -
  obtain r where x: "x = Fin r" "0 \<le> r" using assms by (cases x) auto
  define n where "n = nat (rne (r * 10 ^ 8))"
  have "0 \<le> rne (r * 10 ^ 8)" using rne_mono[of 0 "r * 10 ^ 8"] x(2) by simp
  then have n: "of_nat n = (of_int (rne (r * 10 ^ 8)) :: rat)" by (simp add: n_def)
  let ?ds = "nat_str (n div 10 ^ 8)" and ?fs = "pad_digits 8 (n mod 10 ^ 8)"
  have ds: "list_all is_ascii_digit ?ds" "?ds \<noteq> []" "digits_val ?ds = n div 10 ^ 8"
    using nat_str_digits by blast+
  have fs: "list_all is_ascii_digit ?fs" "length ?fs = 8" "digits_val ?fs = n mod 10 ^ 8"
    using pad_digits_digits[of 8 "n mod 10 ^ 8"] by simp_all
  have all: "digits_val (?ds @ ?fs) = n" by (simp only: digits_val_append ds fs) simp
  obtain fs' k where f: "?fs = fs' @ replicate k (CHR ''0'')" "fs' = [] \<or> last fs' \<noteq> CHR ''0''"
    "list_all is_ascii_digit fs'" by (rule split_zeros[OF fs(1)])
  have z: "digits_val (replicate k (CHR ''0'')) = 0" for k
    by (induction k) (auto simp: digits_val_Cons digit_val_def)
  have "n = digits_val (?ds @ fs') * 10 ^ k"
    using all z unfolding f(1) append_assoc[symmetric] digits_val_append[of _ "replicate k _"] by simp
  moreover have "length fs' + k = 8" using fs(2) f(1) by (metis length_append length_replicate)
  ultimately have "(of_nat (digits_val (?ds @ fs')) :: rat) / 10 ^ length fs' = of_nat n / 10 ^ 8"
    by (metis (no_types, lifting) nonzero_mult_divide_mult_cancel_right of_nat_mult of_nat_numeral of_nat_power
        power_add power_not_zero zero_neq_numeral)
  moreover have "trimmed8 x = plain_decimal False ?ds fs'"
    using x trim_numeral[OF ds(1,2) f(3,2), of k] f(1) by (simp add: trimmed8_def n_def)
  ultimately show thesis using that ds(1,2) f(3) n x(1) by simp
qed

lemma parse_trimmed8:
  assumes "is_finite x" "\<not> sign_bit x"
  shows "std_parse (trimmed8 x) = Some (lit (of_int (rne (val x * 10 ^ 8)) / 10 ^ 8))"
proof -
  obtain ds fs where p: "trimmed8 x = plain_decimal False ds fs" "list_all is_ascii_digit ds"
    "list_all is_ascii_digit fs" "ds \<noteq> []"
    "(of_nat (digits_val (ds @ fs)) :: rat) / 10 ^ length fs = of_int (rne (val x * 10 ^ 8)) / 10 ^ 8"
    using trimmed8_plain[OF assms] .
  obtain d ds' where d: "ds = d # ds'" "is_ascii_digit d" using p(2,4) by (cases ds) auto
  then have "d \<noteq> CHR ''-''" "d \<noteq> CHR ''+''" by (auto simp: is_ascii_digit_def)
  with parse_unsigned_plain[OF p(2,3)] d(1) show ?thesis
    unfolding p(5)[symmetric] by (simp add: p(1) std_parse_def plain_decimal_def lit_def)
qed

subsection \<open>Orders and timestamps\<close>

lemma and_then_OkE:
  assumes "and_then p f = (s', Ok b)"
  obtains s a where "p = (s, Ok a)" "f s a = (s', Ok b)"
  using assms by (cases p) (auto simp: and_then_def split: result.splits)

lemma get_timestamp_Ok:
  "BybitDemoClient_get_timestamp N s = (s', Ok timestamp) \<Longrightarrow>
   timestamp = int_str (wrap_i64 (unix_millis_i64 N (c_net s') + time_offset (c_client s')))"
  by (auto simp: BybitDemoClient_get_timestamp_def Let_def)

lemma place_order_Ok:
  assumes "BybitDemoClient_place_order N s order = (s', Ok placed)"
  obtains i timestamp s1 where "placed = order\<lparr>so_id := i, so_status := Pending,
      so_created_at := timestamp_u64 timestamp\<rparr>"
    "BybitDemoClient_get_timestamp N s = (s1, Ok timestamp)"
  using assms unfolding BybitDemoClient_place_order_def Let_def by (auto elim!: and_then_OkE)

lemma place_market_order_Ok:
  assumes "BybitDemoClient_place_market_order N s order = (s', Ok placed)"
  obtains i timestamp s1 where "placed = order\<lparr>so_id := i, so_status := Filled,
      so_created_at := timestamp_u64 timestamp, so_filled_at := Some (timestamp_u64 timestamp),
      so_fill_price := Some (so_price order)\<rparr>"
    "BybitDemoClient_get_timestamp N s = (s1, Ok timestamp)"
  using assms unfolding BybitDemoClient_place_market_order_def Let_def by (auto elim!: and_then_OkE)

lemma parse_int_str:
  assumes "0 \<le> n" "n < 2 ^ 63"
  shows "parse_u64 (int_str n) = Some (of_int n)" "uint (timestamp_u64 (int_str n)) = n"
proof -
  let ?t = "nat_str (nat n)"
  have t: "list_all is_ascii_digit ?t" "?t \<noteq> []" "digits_val ?t = nat n" using nat_str_digits by blast+
  then have "\<exists>c t. ?t = c # t \<and> c \<noteq> CHR ''+''" by (cases ?t) (auto simp: is_ascii_digit_def)
  with t assms show p: "parse_u64 (int_str n) = Some (of_int n)"
    by (auto simp: parse_u64_def int_str_def Let_def nat_less_iff of_nat_nat)
  with assms show "uint (timestamp_u64 (int_str n)) = n"
    by (simp add: timestamp_u64_def unsigned_of_int take_bit_int_eq_self)
qed

lemma wrap_i64_id: "- (2 ^ 63) \<le> n \<Longrightarrow> n < 2 ^ 63 \<Longrightarrow> wrap_i64 n = n"
  by (simp add: wrap_i64_def)

lemma order_book_cached:
  assumes "BybitDemoClient_get_order_book_depth N s symbol levels = (s', Ok d)"
  obtains t where "order_book_cache (c_client s') (symbol, levels) = Some \<lparr>cb_depth = d, cb_cached_at = t\<rparr>"
    "s' = s \<or> length (obd_bids d) \<le> levels \<and> length (obd_asks d) \<le> levels"
proof (cases "cached_book N s (symbol, levels)")
  case (Some d')
  then obtain cached where c: "order_book_cache (c_client s) (symbol, levels) = Some cached" "d' = cb_depth cached"
    by (auto simp: cached_book_def split: option.splits if_splits)
  have "s' = s" "d = d'" using assms Some by (simp_all add: BybitDemoClient_get_order_book_depth_def)
  with c that[of "cb_cached_at cached"] show ?thesis by simp
next
  case None
  with assms that show ?thesis unfolding BybitDemoClient_get_order_book_depth_def Let_def
    by (auto elim!: and_then_OkE simp: ok_or_Ok parse_side_length split: option.splits if_splits)
qed

section \<open>Properties\<close>

text \<open>C23. The text of a quantity.  Whenever the size rounded to the step of the symbol is finite and not
  negative, the string sent to the exchange is a plain decimal (digits, at most one point, no exponent
  and no missing integer part), and it reads back as the nearest double of that number rounded to eight
  decimal places: cutting trailing zeros never changes the value, not even of a whole number of tens.\<close>

theorem quantity_text:
  assumes "rounded = fround (order_size / qty_step) * qty_step" "is_finite rounded" "\<not> sign_bit rounded"
  shows "\<exists>ds fs r. qty_str order_size qty_step = plain_decimal False ds fs \<and> ds \<noteq> [] \<and>
    list_all is_ascii_digit ds \<and> list_all is_ascii_digit fs \<and>
    std_parse (qty_str order_size qty_step) = Some (lit r) \<and> \<bar>r - val rounded\<bar> \<le> 1 / 2 / 10 ^ 8"
proof -
  let ?r = "of_int (rne (val rounded * 10 ^ 8)) / 10 ^ 8 :: rat"
  have q: "qty_str order_size qty_step = trimmed8 rounded" by (simp add: qty_str_def assms(1))
  have "\<bar>?r - val rounded\<bar> \<le> 1 / 2 / 10 ^ 8"
    using rne_close[of "val rounded * 10 ^ 8"] by (simp add: abs_le_iff field_simps)
  moreover have "std_parse (trimmed8 rounded) = Some (lit ?r)" using parse_trimmed8[OF assms(2,3)] .
  ultimately show ?thesis unfolding q by (metis trimmed8_plain[OF assms(2,3)])
qed

theorem quantity_text_witness:
  "\<exists>r. std_parse (qty_str (lit 1000) (lit 0.5)) = Some (lit r) \<and> \<bar>r - 1000\<bar> \<le> 1 / 2 / 10 ^ 8"
proof -
  have v: "fround (lit 1000 / lit 0.5) * lit 0.5 = lit 1000" by code_simp
  show ?thesis using quantity_text[OF v[symmetric]] by auto
qed



end
