(* ===== verification/Testnet.thy ===== *)
theory Testnet
  imports Bybit Entry_Real
begin

text \<open>
  src/src/strategy/testnet_config.rs and src/src/strategy/testnet_backend.rs: the configuration from
  environment variables and the demo backend, which routes the calls of the execution backend to the
  client of the exchange and, in single-exchange mode, simulates the orders of all other exchanges.

  \<open>demo_env\<close> is the backend as an instance of the trait, with the clocks of the network.  It meets the
  contract \<open>clocked\<close> on every network whose clock does not run backwards, so what is shown of the entry
  holds on it.  \<open>demo_step\<close> is one call of any operation, or the passing of time.
\<close>

section \<open>Configuration\<close>

record testnet_config =
  tc_bybit :: "exchange_credentials option"
  tc_okx :: "exchange_credentials option"
  tc_kucoin :: "exchange_credentials option"
  tc_bitget :: "exchange_credentials option"
  tc_single_exchange_mode :: bool
  tc_primary_exchange :: string

definition parse_bool :: "string \<Rightarrow> bool option" where
  "parse_bool s = (if s = ''true'' then Some True else if s = ''false'' then Some False else None)"

definition incomplete_credentials :: "string \<Rightarrow> string" where
  "incomplete_credentials name_prefix =
     ''Incomplete credentials for '' @ name_prefix @ '': both API_KEY and API_SECRET required''"

definition load_exchange_creds ::
  "(string \<rightharpoonup> string) \<Rightarrow> string \<Rightarrow> (exchange_credentials option, string) result" where
  "load_exchange_creds var name_prefix =
     (case (var (name_prefix @ ''_API_KEY''), var (name_prefix @ ''_API_SECRET'')) of
        (Some key, Some secret) \<Rightarrow>
          Ok (Some \<lparr>cr_api_key = key, cr_api_secret = secret, cr_passphrase = None\<rparr>)
      | (None, None) \<Rightarrow> Ok None
      | _ \<Rightarrow> Err (incomplete_credentials name_prefix))"

definition load_exchange_creds_with_passphrase ::
  "(string \<rightharpoonup> string) \<Rightarrow> string \<Rightarrow> (exchange_credentials option, string) result" where
  "load_exchange_creds_with_passphrase var name_prefix =
     (case (var (name_prefix @ ''_API_KEY''), var (name_prefix @ ''_API_SECRET'')) of
        (Some key, Some secret) \<Rightarrow>
          Ok (Some \<lparr>cr_api_key = key, cr_api_secret = secret,
            cr_passphrase = var (name_prefix @ ''_PASSPHRASE'')\<rparr>)
      | (None, None) \<Rightarrow> Ok None
      | _ \<Rightarrow> Err (incomplete_credentials name_prefix))"

definition TestnetConfig_from_env :: "(string \<rightharpoonup> string) \<Rightarrow> (testnet_config, string) result" where
  "TestnetConfig_from_env var =
     (let single_exchange_mode = (case Option.bind (var ''SINGLE_EXCHANGE_MODE'') parse_bool of
            Some b \<Rightarrow> b | None \<Rightarrow> False);
          primary_exchange = (case var ''PRIMARY_EXCHANGE'' of Some e \<Rightarrow> e | None \<Rightarrow> ''bybit'')
      in if single_exchange_mode \<and> primary_exchange = []
         then Err ''PRIMARY_EXCHANGE must be set when SINGLE_EXCHANGE_MODE=true''
         else case load_exchange_creds var ''BYBIT_DEMO'' of Err e \<Rightarrow> Err e | Ok bybit \<Rightarrow>
              (case load_exchange_creds_with_passphrase var ''OKX_DEMO'' of Err e \<Rightarrow> Err e | Ok okx \<Rightarrow>
              (case load_exchange_creds_with_passphrase var ''KUCOIN_DEMO'' of Err e \<Rightarrow> Err e | Ok kucoin \<Rightarrow>
              (case load_exchange_creds_with_passphrase var ''BITGET_DEMO'' of Err e \<Rightarrow> Err e | Ok bitget \<Rightarrow>
                Ok \<lparr>tc_bybit = bybit, tc_okx = okx, tc_kucoin = kucoin, tc_bitget = bitget,
                    tc_single_exchange_mode = single_exchange_mode, tc_primary_exchange = primary_exchange\<rparr>))))"

definition has_any_configured :: "testnet_config \<Rightarrow> bool" where
  "has_any_configured c \<longleftrightarrow>
     tc_bybit c \<noteq> None \<or> tc_okx c \<noteq> None \<or> tc_kucoin c \<noteq> None \<or> tc_bitget c \<noteq> None"

section \<open>The backend\<close>

record testnet_backend =
  tb_bybit :: "bybit_demo_client option"
  order_metadata :: "string \<rightharpoonup> string \<times> string"
  failed_symbols :: "string \<times> string \<rightharpoonup> bool"
  single_exchange_mode :: bool
  primary_exchange :: string

record 'x demo_world =
  dw_backend :: testnet_backend
  dw_net :: 'x

definition TestnetBackend_new :: "testnet_config \<Rightarrow> instant \<Rightarrow> testnet_backend" where
  "TestnetBackend_new config now =
     \<lparr>tb_bybit = map_option (\<lambda>creds. BybitDemoClient_new creds now) (tc_bybit config),
      order_metadata = Map.empty, failed_symbols = Map.empty,
      single_exchange_mode = tc_single_exchange_mode config, primary_exchange = tc_primary_exchange config\<rparr>"

text \<open>\<open>if let Some(client) = &self.bybit\<close> with its \<open>else\<close>, and the dispatch on the name of the exchange.\<close>

definition with_bybit ::
  "'x demo_world \<Rightarrow> ('x cstate \<Rightarrow> 'x cstate \<times> ('a, string) result) \<Rightarrow> 'x demo_world \<times> ('a, string) result" where
  "with_bybit w f =
     (case tb_bybit (dw_backend w) of
        Some client \<Rightarrow>
          let (s, r) = f \<lparr>c_client = client, c_net = dw_net w\<rparr>
          in (w\<lparr>dw_backend := (dw_backend w)\<lparr>tb_bybit := Some (c_client s)\<rparr>, dw_net := c_net s\<rparr>, r)
      | None \<Rightarrow> (w, Err ''Bybit demo not configured''))"

definition not_supported :: "string \<Rightarrow> string" where
  "not_supported exchange = ''Exchange '' @ exchange @ '' not supported in demo''"

definition on_exchange ::
  "'x demo_world \<Rightarrow> string \<Rightarrow> ('x cstate \<Rightarrow> 'x cstate \<times> ('a, string) result) \<Rightarrow>
   'x demo_world \<times> ('a, string) result" where
  "on_exchange w exchange f =
     (if exchange = ''bybit'' then with_bybit w f else (w, Err (not_supported exchange)))"

definition remember :: "string \<Rightarrow> string \<Rightarrow> string \<Rightarrow> 'x demo_world \<Rightarrow> 'x demo_world" where
  "remember order_id exchange symbol w =
     w\<lparr>dw_backend := (dw_backend w)\<lparr>order_metadata :=
       (order_metadata (dw_backend w))(order_id \<mapsto> (exchange, symbol))\<rparr>\<rparr>"

definition TestnetBackend_sync_server_time ::
  "('x, 'j) net \<Rightarrow> 'x demo_world \<Rightarrow> 'x demo_world \<times> (unit, string) result" where
  "TestnetBackend_sync_server_time N w =
     (case tb_bybit (dw_backend w) of
        Some client \<Rightarrow> (fst (with_bybit w (BybitDemoClient_sync_server_time N)), Ok ())
      | None \<Rightarrow> (w, Ok ()))"

definition TestnetBackend_set_leverage ::
  "('x, 'j) net \<Rightarrow> 'x demo_world \<Rightarrow> string \<Rightarrow> string \<Rightarrow> u8 \<Rightarrow> 'x demo_world \<times> (unit, string) result" where
  "TestnetBackend_set_leverage N w exchange symbol leverage =
     on_exchange w exchange (\<lambda>s. BybitDemoClient_set_leverage N s symbol)"

definition TestnetBackend_set_margin_type_isolated ::
  "'x demo_world \<Rightarrow> string \<Rightarrow> string \<Rightarrow> 'x demo_world \<times> (unit, string) result" where
  "TestnetBackend_set_margin_type_isolated w exchange symbol =
     (w, if exchange = ''bybit'' then Ok () else Err (not_supported exchange))"

text \<open>An order sent to the exchange and, when it is accepted, remembered; and a simulated order.\<close>

definition send_order ::
  "'x demo_world \<Rightarrow> simulated_order \<Rightarrow> ('x cstate \<Rightarrow> 'x cstate \<times> (simulated_order, string) result) \<Rightarrow>
   'x demo_world \<times> (simulated_order, string) result" where
  "send_order w order f =
     (case on_exchange w (so_exchange order) f of
        (w, Ok placed_order) \<Rightarrow>
          (remember (so_id placed_order) (so_exchange order) (so_symbol placed_order) w, Ok placed_order)
      | (w, Err e) \<Rightarrow> (w, Err e))"

definition simulate_order ::
  "('x, 'j) net \<Rightarrow> 'x demo_world \<Rightarrow> simulated_order \<Rightarrow> order_type \<Rightarrow>
   'x demo_world \<times> (simulated_order, string) result" where
  "simulate_order N w order order_type =
     (let (x, u) = n_uuid N (dw_net w);
          w = w\<lparr>dw_net := x\<rparr>;
          now = of_nat (n_unix_nanos N (dw_net w) div 1000000000);
          simulated_order = \<lparr>so_id = ''sim_'' @ u, so_exchange = so_exchange order, so_symbol = so_symbol order,
            so_side = so_side order, so_order_type = order_type, so_price = so_price order,
            so_size = so_size order,
            so_queue_position = Some \<lparr>qp_price = so_price order, qp_cumulative_volume_at_price = lit 0,
              qp_resting_depth_at_entry = lit 0, qp_fill_threshold_pct = lit 100, qp_is_filled = True\<rparr>,
            so_created_at = now, so_filled_at = Some now, so_fill_price = Some (so_price order),
            so_status = Filled\<rparr>
      in (remember (so_id simulated_order) (so_exchange order) (so_symbol simulated_order) w, Ok simulated_order))"

definition TestnetBackend_place_order ::
  "('x, 'j) net \<Rightarrow> 'x demo_world \<Rightarrow> simulated_order \<Rightarrow> 'x demo_world \<times> (simulated_order, string) result" where
  "TestnetBackend_place_order N w order =
     (if single_exchange_mode (dw_backend w) then
        if so_exchange order = primary_exchange (dw_backend w)
        then send_order w order (\<lambda>s. BybitDemoClient_place_order N s order)
        else simulate_order N w order (so_order_type order)
      else send_order w order (\<lambda>s. BybitDemoClient_place_order N s order))"

definition TestnetBackend_place_market_order ::
  "('x, 'j) net \<Rightarrow> 'x demo_world \<Rightarrow> simulated_order \<Rightarrow> 'x demo_world \<times> (simulated_order, string) result" where
  "TestnetBackend_place_market_order N w order =
     (if single_exchange_mode (dw_backend w) then
        if so_exchange order = primary_exchange (dw_backend w)
        then send_order w order (\<lambda>s. BybitDemoClient_place_market_order N s order)
        else simulate_order N w order Market
      else send_order w order (\<lambda>s. BybitDemoClient_place_market_order N s order))"

definition unknown_order :: "string \<Rightarrow> string" where
  "unknown_order order_id = ''Order '' @ order_id @ '' not found in metadata''"

definition TestnetBackend_cancel_order ::
  "('x, 'j) net \<Rightarrow> 'x demo_world \<Rightarrow> string \<Rightarrow> string \<Rightarrow> 'x demo_world \<times> (unit, string) result" where
  "TestnetBackend_cancel_order N w exchange order_id =
     (if prefix ''sim_'' order_id then (w, Ok ())
      else case order_metadata (dw_backend w) order_id of
             None \<Rightarrow> (w, Err (unknown_order order_id))
           | Some (exchange, symbol) \<Rightarrow>
               on_exchange w exchange (\<lambda>s. BybitDemoClient_cancel_order N s order_id symbol))"

definition TestnetBackend_get_order_status ::
  "('x, 'j) net \<Rightarrow> 'x demo_world \<Rightarrow> string \<Rightarrow> string \<Rightarrow> 'x demo_world \<times> (order_status, string) result" where
  "TestnetBackend_get_order_status N w exchange order_id =
     (if prefix ''sim_'' order_id then (w, Ok Filled)
      else case order_metadata (dw_backend w) order_id of
             None \<Rightarrow> (w, Err (unknown_order order_id))
           | Some (exchange, symbol) \<Rightarrow>
               on_exchange w exchange (\<lambda>s. BybitDemoClient_get_order_status N s order_id symbol))"

definition TestnetBackend_get_order_status_detailed ::
  "('x, 'j) net \<Rightarrow> 'x demo_world \<Rightarrow> string \<Rightarrow> string \<Rightarrow> string \<Rightarrow>
   'x demo_world \<times> (order_status_info, string) result" where
  "TestnetBackend_get_order_status_detailed N w exchange order_id symbol =
     (case order_metadata (dw_backend w) order_id of
        None \<Rightarrow> (w, Err (unknown_order order_id))
      | Some (exchange, _) \<Rightarrow>
          on_exchange w exchange (\<lambda>s. BybitDemoClient_get_order_status_detailed N s order_id symbol))"

definition TestnetBackend_get_available_balance ::
  "('x, 'j) net \<Rightarrow> 'x demo_world \<Rightarrow> string \<Rightarrow> 'x demo_world \<times> (f64, string) result" where
  "TestnetBackend_get_available_balance N w exchange =
     (if single_exchange_mode (dw_backend w) \<and> exchange \<noteq> primary_exchange (dw_backend w)
      then (w, Ok (lit 1000000))
      else on_exchange w exchange (BybitDemoClient_get_balance N))"

definition TestnetBackend_get_all_balances ::
  "('x, 'j) net \<Rightarrow> 'x demo_world \<Rightarrow> 'x demo_world \<times> (string \<rightharpoonup> f64, string) result" where
  "TestnetBackend_get_all_balances N w =
     (case tb_bybit (dw_backend w) of
        Some client \<Rightarrow>
          (case with_bybit w (BybitDemoClient_get_balance N) of
             (w, Ok balance) \<Rightarrow> (w, Ok [''bybit'' \<mapsto> balance])
           | (w, Err e) \<Rightarrow> (w, Ok Map.empty))
      | None \<Rightarrow> (w, Ok Map.empty))"

definition TestnetBackend_is_symbol_tradeable ::
  "'x demo_world \<Rightarrow> string \<Rightarrow> string \<Rightarrow> 'x demo_world \<times> (bool, string) result" where
  "TestnetBackend_is_symbol_tradeable w exchange symbol =
     (w, Ok (failed_symbols (dw_backend w) (exchange, symbol) = None))"

definition TestnetBackend_get_order_book_depth ::
  "('x, 'j) net \<Rightarrow> 'x demo_world \<Rightarrow> string \<Rightarrow> string \<Rightarrow> usize \<Rightarrow>
   'x demo_world \<times> (order_book_depth, string) result" where
  "TestnetBackend_get_order_book_depth N w exchange symbol levels =
     (if exchange = ''bitget'' then (w, Err ''get_order_book_depth not yet implemented for Bitget'')
      else on_exchange w exchange (\<lambda>s. BybitDemoClient_get_order_book_depth N s symbol levels))"

definition TestnetBackend_get_best_bid ::
  "('x, 'j) net \<Rightarrow> 'x demo_world \<Rightarrow> string \<Rightarrow> string \<Rightarrow> 'x demo_world \<times> (f64, string) result" where
  "TestnetBackend_get_best_bid N w exchange symbol =
     (if exchange = ''bitget'' then (w, Err ''get_best_bid not yet implemented for Bitget'')
      else on_exchange w exchange (\<lambda>s. BybitDemoClient_get_best_bid N s symbol))"

definition TestnetBackend_get_best_ask ::
  "('x, 'j) net \<Rightarrow> 'x demo_world \<Rightarrow> string \<Rightarrow> string \<Rightarrow> 'x demo_world \<times> (f64, string) result" where
  "TestnetBackend_get_best_ask N w exchange symbol =
     (if exchange = ''bitget'' then (w, Err ''get_best_ask not yet implemented for Bitget'')
      else on_exchange w exchange (\<lambda>s. BybitDemoClient_get_best_ask N s symbol))"

definition TestnetBackend_get_quantity_step ::
  "('x, 'j) net \<Rightarrow> 'x demo_world \<Rightarrow> string \<Rightarrow> string \<Rightarrow> 'x demo_world \<times> (f64, string) result" where
  "TestnetBackend_get_quantity_step N w exchange symbol =
     on_exchange w exchange (\<lambda>s. BybitDemoClient_get_qty_step N s symbol)"

definition TestnetBackend_backend_name :: string where
  "TestnetBackend_backend_name = ''Demo''"

text \<open>The impl block, with the clocks of the network.\<close>

definition demo_env :: "('x, 'j) net \<Rightarrow> 'x demo_world env" where
  "demo_env N =
     \<lparr>set_leverage = TestnetBackend_set_leverage N,
      set_margin_type_isolated = TestnetBackend_set_margin_type_isolated,
      place_order = TestnetBackend_place_order N,
      place_market_order = TestnetBackend_place_market_order N,
      cancel_order = TestnetBackend_cancel_order N,
      get_order_status = TestnetBackend_get_order_status N,
      get_order_status_detailed = TestnetBackend_get_order_status_detailed N,
      get_available_balance = TestnetBackend_get_available_balance N,
      get_all_balances = TestnetBackend_get_all_balances N,
      is_symbol_tradeable = TestnetBackend_is_symbol_tradeable,
      get_order_book_depth = TestnetBackend_get_order_book_depth N,
      get_best_bid = TestnetBackend_get_best_bid N,
      get_best_ask = TestnetBackend_get_best_ask N,
      backend_name = TestnetBackend_backend_name,
      get_quantity_step = TestnetBackend_get_quantity_step N,
      instant_now = (\<lambda>w. n_instant N (dw_net w)),
      unix_nanos = (\<lambda>w. n_unix_nanos N (dw_net w)),
      sleep_ms = (\<lambda>w ms. w\<lparr>dw_net := n_sleep N (dw_net w) ms\<rparr>),
      new_uuid = (\<lambda>w. let (x, u) = n_uuid N (dw_net w) in (w\<lparr>dw_net := x\<rparr>, u))\<rparr>"

section \<open>Runs of the backend\<close>

text \<open>One call of an operation of the backend, or the passing of time.\<close>

inductive demo_step :: "('x, 'j) net \<Rightarrow> 'x demo_world \<Rightarrow> 'x demo_world \<Rightarrow> bool" for N where
  sync_time: "demo_step N w (fst (TestnetBackend_sync_server_time N w))"
| leverage: "demo_step N w (fst (set_leverage (demo_env N) w ex symbol l))"
| margin: "demo_step N w (fst (set_margin_type_isolated (demo_env N) w ex symbol))"
| limit_order: "demo_step N w (fst (place_order (demo_env N) w order))"
| market_order: "demo_step N w (fst (place_market_order (demo_env N) w order))"
| cancel: "demo_step N w (fst (cancel_order (demo_env N) w ex i))"
| status: "demo_step N w (fst (get_order_status (demo_env N) w ex i))"
| detailed: "demo_step N w (fst (get_order_status_detailed (demo_env N) w ex i symbol))"
| balance: "demo_step N w (fst (get_available_balance (demo_env N) w ex))"
| all_balances: "demo_step N w (fst (get_all_balances (demo_env N) w))"
| tradeable: "demo_step N w (fst (is_symbol_tradeable (demo_env N) w ex symbol))"
| depth: "demo_step N w (fst (get_order_book_depth (demo_env N) w ex symbol levels))"
| bid: "demo_step N w (fst (get_best_bid (demo_env N) w ex symbol))"
| ask: "demo_step N w (fst (get_best_ask (demo_env N) w ex symbol))"
| quantity_step: "demo_step N w (fst (get_quantity_step (demo_env N) w ex symbol))"
| sleep: "demo_step N w (sleep_ms (demo_env N) w ms)"
| uuid: "demo_step N w (fst (new_uuid (demo_env N) w))"

abbreviation demo_steps :: "('x, 'j) net \<Rightarrow> 'x demo_world \<Rightarrow> 'x demo_world \<Rightarrow> bool" where
  "demo_steps N \<equiv> (demo_step N)\<^sup>*\<^sup>*"

definition demo_start :: "('x, 'j) net \<Rightarrow> testnet_config \<Rightarrow> 'x \<Rightarrow> 'x demo_world" where
  "demo_start N config x = \<lparr>dw_backend = TestnetBackend_new config (n_instant N x), dw_net = x\<rparr>"

text \<open>The client, if there is one, satisfies \<open>P\<close>.\<close>

definition on_client :: "('x cstate \<Rightarrow> bool) \<Rightarrow> 'x demo_world \<Rightarrow> bool" where
  "on_client P w \<longleftrightarrow>
     (\<forall>client. tb_bybit (dw_backend w) = Some client \<longrightarrow> P \<lparr>c_client = client, c_net = dw_net w\<rparr>)"

text \<open>What every call keeps: the configuration, the empty blacklist, the orders known.\<close>

definition demo_keeps :: "'x demo_world \<Rightarrow> 'x demo_world \<Rightarrow> bool" where
  "demo_keeps w w' \<longleftrightarrow>
     single_exchange_mode (dw_backend w') = single_exchange_mode (dw_backend w) \<and>
     primary_exchange (dw_backend w') = primary_exchange (dw_backend w) \<and>
     failed_symbols (dw_backend w') = failed_symbols (dw_backend w) \<and>
     (tb_bybit (dw_backend w') = None \<longleftrightarrow> tb_bybit (dw_backend w) = None) \<and>
     dom (order_metadata (dw_backend w)) \<subseteq> dom (order_metadata (dw_backend w'))"

section \<open>A concrete configuration\<close>

definition sample_config :: "bool \<Rightarrow> testnet_config" where
  "sample_config single =
     \<lparr>tc_bybit = Some \<lparr>cr_api_key = ''key'', cr_api_secret = ''secret'', cr_passphrase = None\<rparr>,
      tc_okx = None, tc_kucoin = None, tc_bitget = None, tc_single_exchange_mode = single,
      tc_primary_exchange = ''bybit''\<rparr>"

definition sample_asked :: "(nat \<times> http_request list) demo_world" where
  "sample_asked = fst (TestnetBackend_get_available_balance (logged sample_net)
     (demo_start (logged sample_net) (sample_config False) (0, [])) ''bybit'')"

section \<open>Contract\<close>

text \<open>An invariant of the client that also survives sleeps and fresh UUIDs is one of the backend.\<close>

locale backend_invariant = client_invariant +
  assumes sleeps: "P s \<Longrightarrow> P (s\<lparr>c_net := n_sleep N (c_net s) ms\<rparr>)"
    and uuids: "P s \<Longrightarrow> P (s\<lparr>c_net := fst (n_uuid N (c_net s))\<rparr>)"

section \<open>Lemmas\<close>

lemma demo_env_simps [simp]:
  "set_leverage (demo_env N) = TestnetBackend_set_leverage N"
  "set_margin_type_isolated (demo_env N) = TestnetBackend_set_margin_type_isolated"
  "place_order (demo_env N) = TestnetBackend_place_order N"
  "place_market_order (demo_env N) = TestnetBackend_place_market_order N"
  "cancel_order (demo_env N) = TestnetBackend_cancel_order N"
  "get_order_status (demo_env N) = TestnetBackend_get_order_status N"
  "get_order_status_detailed (demo_env N) = TestnetBackend_get_order_status_detailed N"
  "get_available_balance (demo_env N) = TestnetBackend_get_available_balance N"
  "get_all_balances (demo_env N) = TestnetBackend_get_all_balances N"
  "is_symbol_tradeable (demo_env N) = TestnetBackend_is_symbol_tradeable"
  "get_order_book_depth (demo_env N) = TestnetBackend_get_order_book_depth N"
  "get_best_bid (demo_env N) = TestnetBackend_get_best_bid N"
  "get_best_ask (demo_env N) = TestnetBackend_get_best_ask N"
  "backend_name (demo_env N) = ''Demo''"
  "get_quantity_step (demo_env N) = TestnetBackend_get_quantity_step N"
  "instant_now (demo_env N) w = n_instant N (dw_net w)"
  "unix_nanos (demo_env N) w = n_unix_nanos N (dw_net w)"
  "sleep_ms (demo_env N) w ms = w\<lparr>dw_net := n_sleep N (dw_net w) ms\<rparr>"
  "new_uuid (demo_env N) w = (w\<lparr>dw_net := fst (n_uuid N (dw_net w))\<rparr>, snd (n_uuid N (dw_net w)))"
  by (simp_all add: demo_env_def TestnetBackend_backend_name_def split_beta)

lemmas demo_defs = TestnetBackend_sync_server_time_def TestnetBackend_set_leverage_def
  TestnetBackend_set_margin_type_isolated_def TestnetBackend_place_order_def
  TestnetBackend_place_market_order_def TestnetBackend_cancel_order_def TestnetBackend_get_order_status_def
  TestnetBackend_get_order_status_detailed_def TestnetBackend_get_available_balance_def
  TestnetBackend_get_all_balances_def TestnetBackend_is_symbol_tradeable_def
  TestnetBackend_get_order_book_depth_def TestnetBackend_get_best_bid_def TestnetBackend_get_best_ask_def
  TestnetBackend_get_quantity_step_def

lemma demo_keeps_refl [simp]: "demo_keeps w w"
  by (simp add: demo_keeps_def)

lemma demo_keeps_trans: "demo_keeps u v \<Longrightarrow> demo_keeps v w \<Longrightarrow> demo_keeps u w"
  by (auto simp: demo_keeps_def)

lemma with_bybit_keeps: "demo_keeps w (fst (with_bybit w f))"
  by (auto simp: with_bybit_def demo_keeps_def split_beta split: option.splits)

lemma on_exchange_keeps: "demo_keeps w (fst (on_exchange w ex f))"
  by (simp add: on_exchange_def with_bybit_keeps)

lemma remember_keeps [simp]: "demo_keeps w (remember i ex symbol w)"
  by (auto simp: remember_def demo_keeps_def)

lemma send_order_keeps [simp]: "demo_keeps w (fst (send_order w order f))"
  using on_exchange_keeps[of w "so_exchange order" f]
  by (auto simp: send_order_def split: prod.splits result.splits intro: demo_keeps_trans)

lemma net_keeps [simp]: "demo_keeps w (w\<lparr>dw_net := x\<rparr>)"
  by (simp add: demo_keeps_def)

lemma simulate_order_keeps [simp]: "demo_keeps w (fst (simulate_order N w order k))"
  using demo_keeps_trans[OF net_keeps remember_keeps] by (simp add: simulate_order_def split_beta Let_def)

lemma demo_step_keeps: "demo_step N w w' \<Longrightarrow> demo_keeps w w'"
proof (induction rule: demo_step.induct)
  case (all_balances w)
  show ?case
    using with_bybit_keeps[of w "BybitDemoClient_get_balance N"]
    by (auto simp: TestnetBackend_get_all_balances_def split: option.splits prod.splits result.splits)
qed (auto simp: demo_defs with_bybit_keeps on_exchange_keeps split: option.splits)

lemma demo_steps_keep: "demo_steps N w w' \<Longrightarrow> demo_keeps w w'"
  by (induction rule: rtranclp_induct) (auto intro: demo_keeps_trans demo_step_keeps)

text \<open>An accepted order is known afterwards.\<close>

lemma send_order_known:
  "send_order w order f = (w', Ok placed) \<Longrightarrow> order_metadata (dw_backend w') (so_id placed) =
     Some (so_exchange order, so_symbol placed)"
  by (auto simp: send_order_def remember_def split: prod.splits result.splits)

lemma simulate_order_known:
  "simulate_order N w order k = (w', Ok placed) \<Longrightarrow> order_metadata (dw_backend w') (so_id placed) =
     Some (so_exchange order, so_symbol placed)"
  by (auto simp: simulate_order_def remember_def split_beta Let_def)

subsection \<open>Invariants of the backend\<close>

lemma cstate_eta [simp]: "\<lparr>c_client = c_client s, c_net = c_net s\<rparr> = s"
  by simp

lemma with_bybit_inv:
  "on_client P w \<Longrightarrow> (\<And>s. P s \<Longrightarrow> P (fst (f s))) \<Longrightarrow> on_client P (fst (with_bybit w f))"
  by (auto simp: on_client_def with_bybit_def split_beta split: option.splits)

lemma on_exchange_inv:
  "on_client P w \<Longrightarrow> (\<And>s. P s \<Longrightarrow> P (fst (f s))) \<Longrightarrow> on_client P (fst (on_exchange w ex f))"
  by (simp add: on_exchange_def with_bybit_inv)

lemma remember_inv [simp]: "on_client P (remember i ex symbol w) = on_client P w"
  by (simp add: on_client_def remember_def)

lemma send_order_inv:
  "on_client P w \<Longrightarrow> (\<And>s. P s \<Longrightarrow> P (fst (f s))) \<Longrightarrow> on_client P (fst (send_order w order f))"
  using on_exchange_inv[of P w f "so_exchange order"]
  by (auto simp: send_order_def split: prod.splits result.splits)

context backend_invariant
begin

lemma simulate_order_inv: "on_client P w \<Longrightarrow> on_client P (fst (simulate_order N w order k))"
  using uuids by (fastforce simp: on_client_def simulate_order_def remember_def split_beta Let_def)

lemma demo_step_inv: "demo_step N w w' \<Longrightarrow> on_client P w \<Longrightarrow> on_client P w'"
proof (induction rule: demo_step.induct)
  case (all_balances w)
  have "on_client P (fst (with_bybit w (BybitDemoClient_get_balance N)))"
    using all_balances by (simp add: with_bybit_inv get_balance_inv)
  with all_balances show ?case
    by (auto simp: TestnetBackend_get_all_balances_def split: option.splits prod.splits result.splits)
next
  case (sleep w ms)
  then show ?case using sleeps by (fastforce simp: on_client_def)
next
  case (uuid w)
  then show ?case using uuids by (fastforce simp: on_client_def)
qed (auto simp: demo_defs simulate_order_inv split: option.splits
    intro!: with_bybit_inv on_exchange_inv send_order_inv client_ops_inv)

lemma demo_steps_inv: "demo_steps N w w' \<Longrightarrow> on_client P w \<Longrightarrow> on_client P w'"
  by (induction rule: rtranclp_induct) (auto intro: demo_step_inv)

end

subsection \<open>Instances\<close>

lemma with_bybit_time:
  assumes "\<And>s. n_instant N (c_net s) \<le> n_instant N (c_net (fst (f s)))"
  shows "n_instant N (dw_net w) \<le> n_instant N (dw_net (fst (with_bybit w f)))"
  using assms[of "\<lparr>c_client = client, c_net = dw_net w\<rparr>" for client]
  by (auto simp: with_bybit_def split_beta split: option.splits)

lemma on_exchange_time:
  "(\<And>s. n_instant N (c_net s) \<le> n_instant N (c_net (fst (f s)))) \<Longrightarrow>
   n_instant N (dw_net w) \<le> n_instant N (dw_net (fst (on_exchange w ex f)))"
  by (simp add: on_exchange_def with_bybit_time)

lemma remember_net [simp]: "dw_net (remember i ex symbol w) = dw_net w"
  by (simp add: remember_def)

lemma send_order_time:
  "(\<And>s. n_instant N (c_net s) \<le> n_instant N (c_net (fst (f s)))) \<Longrightarrow>
   n_instant N (dw_net w) \<le> n_instant N (dw_net (fst (send_order w order f)))"
  using on_exchange_time[of N f w "so_exchange order"]
  by (auto simp: send_order_def split: prod.splits result.splits)

lemma simulate_order_net: "dw_net (fst (simulate_order N w order k)) = fst (n_uuid N (dw_net w))"
  by (simp add: simulate_order_def split_beta Let_def)

sublocale network \<subseteq> shape: backend_invariant N "client_wf N"
  by unfold_locales (auto intro: client_wf_later time_uuid add_leD1[OF time_sleep])

context network
begin

lemmas client_time = clock.client_ops_inv[OF order_refl]

end

sublocale network \<subseteq> demo: clocked "demo_env N"
  by unfold_locales
    (simp_all add: demo_defs simulate_order_net time_uuid time_sleep with_bybit_time on_exchange_time
      send_order_time client_time split: option.split)

interpretation demo_requests: backend_invariant "logged N" "log_ok N key secret" for N key secret
  by unfold_locales (auto simp: log_ok_def)

lemma start_client: "on_client (client_wf N) (demo_start N config x)"
  by (auto simp: on_client_def demo_start_def TestnetBackend_new_def client_wf_def BybitDemoClient_new_def)

context network
begin

lemma demo_client_wf: "demo_steps N (demo_start N config x) w \<Longrightarrow> on_client (client_wf N) w"
  by (rule shape.demo_steps_inv[OF _ start_client])

lemma demo_clocked: "clocked (demo_env N)"
  by (rule demo.clocked_axioms)

end

lemma start_log:
  "tc_bybit config = Some creds \<Longrightarrow>
   on_client (log_ok N (cr_api_key creds) (cr_api_secret creds)) (demo_start (logged N) config (x, []))"
  by (auto simp: on_client_def demo_start_def TestnetBackend_new_def log_ok_def BybitDemoClient_new_def)

text \<open>Without a client there is no request.\<close>

lemma with_bybit_none: "tb_bybit (dw_backend w) = None \<Longrightarrow> fst (with_bybit w f) = w"
  by (simp add: with_bybit_def)

lemma on_exchange_none: "tb_bybit (dw_backend w) = None \<Longrightarrow> fst (on_exchange w ex f) = w"
  by (simp add: on_exchange_def with_bybit_none)

lemma send_order_none: "tb_bybit (dw_backend w) = None \<Longrightarrow> dw_net (fst (send_order w order f)) = dw_net w"
  using on_exchange_none[of w "so_exchange order" f]
  by (auto simp: send_order_def split: prod.splits result.splits)

lemma demo_step_none:
  "demo_step (logged N) w w' \<Longrightarrow> tb_bybit (dw_backend w) = None \<Longrightarrow> snd (dw_net w') = snd (dw_net w)"
  by (induction rule: demo_step.induct)
    (auto simp: demo_defs on_exchange_none send_order_none simulate_order_net split: option.splits)

lemma demo_steps_none:
  "demo_steps (logged N) w w' \<Longrightarrow> tb_bybit (dw_backend w) = None \<Longrightarrow> snd (dw_net w') = snd (dw_net w)"
  by (induction rule: rtranclp_induct) (auto simp: demo_step_none dest!: demo_steps_keep[unfolded demo_keeps_def])

lemma place_order_known:
  assumes "TestnetBackend_place_order N w order = (w', Ok placed) \<or>
    TestnetBackend_place_market_order N w order = (w', Ok placed)"
  shows "order_metadata (dw_backend w') (so_id placed) = Some (so_exchange order, so_symbol placed)"
  using assms
  by (auto simp: TestnetBackend_place_order_def TestnetBackend_place_market_order_def
      split: if_splits dest: send_order_known simulate_order_known)

lemma send_order_Ok:
  assumes "send_order w order f = (w', Ok placed)"
  obtains client s where "f \<lparr>c_client = client, c_net = dw_net w\<rparr> = (s, Ok placed)"
  using assms by (auto simp: send_order_def on_exchange_def with_bybit_def split: prod.splits result.splits
      option.splits if_splits)

lemma simulate_order_Ok:
  "simulate_order N w order k = (w', Ok placed) \<Longrightarrow>
   so_exchange placed = so_exchange order \<and> so_symbol placed = so_symbol order \<and> so_side placed = so_side order \<and>
   so_price placed = so_price order \<and> so_size placed = so_size order"
  by (auto simp: simulate_order_def split_beta Let_def)

lemma place_order_same:
  assumes "TestnetBackend_place_order N w order = (w', Ok placed) \<or>
    TestnetBackend_place_market_order N w order = (w', Ok placed)"
  shows "so_exchange placed = so_exchange order \<and> so_symbol placed = so_symbol order \<and>
    so_side placed = so_side order \<and> so_price placed = so_price order \<and> so_size placed = so_size order"
  using assms
  by (auto simp: TestnetBackend_place_order_def TestnetBackend_place_market_order_def split: if_splits
      dest!: simulate_order_Ok elim!: send_order_Ok place_order_Ok place_market_order_Ok)

text \<open>The detailed status of a simulated order is looked up under its exchange, which the demo does not
  serve.\<close>

lemma simulated_unverified:
  assumes "so_exchange order \<noteq> ''bybit''" "TestnetBackend_place_market_order N w order = (w', Ok placed)"
    and "single_exchange_mode (dw_backend w)" "so_exchange order \<noteq> primary_exchange (dw_backend w)"
  shows "TestnetBackend_get_order_status_detailed N w' ex (so_id placed) symbol =
    (w', Err (not_supported (so_exchange order)))"
  using assms place_order_known[of N w order w' placed]
  by (simp add: TestnetBackend_get_order_status_detailed_def on_exchange_def)

lemma simulate_market_Ok:
  assumes "single_exchange_mode (dw_backend w)" "so_exchange order \<noteq> primary_exchange (dw_backend w)"
  obtains w' placed where "TestnetBackend_place_market_order N w order = (w', Ok placed)"
    "single_exchange_mode (dw_backend w')" "primary_exchange (dw_backend w') = primary_exchange (dw_backend w)"
  using assms simulate_order_keeps[of w N order Market]
  by (auto simp: TestnetBackend_place_market_order_def simulate_order_def split_beta Let_def demo_keeps_def)

text \<open>One round of the hedge on a simulated exchange: nothing is added to what is filled.\<close>

lemma simulated_round:
  assumes "so_exchange template \<noteq> ''bybit''" "single_exchange_mode (dw_backend w)"
    and "so_exchange template \<noteq> primary_exchange (dw_backend w)" "\<not> target - filled \<le> lit 0"
  obtains w' last' metrics' where
    "hedge_loop (demo_env N) template target (attempt # attempts) w filled prev metrics =
      (if attempt < MAX_RETRIES
       then hedge_loop (demo_env N) template target attempts
         (sleep_ms (demo_env N) w' (100 * 2 ^ (attempt - 1))) filled last' metrics'
       else (w', metrics', Err (VerifyFailed (not_supported (so_exchange template)))))"
    "single_exchange_mode (dw_backend w')" "primary_exchange (dw_backend w') = primary_exchange (dw_backend w)"
proof -
  let ?o = "template\<lparr>so_size := target - filled\<rparr>"
  obtain w' placed where p: "TestnetBackend_place_market_order N w ?o = (w', Ok placed)"
    "single_exchange_mode (dw_backend w')" "primary_exchange (dw_backend w') = primary_exchange (dw_backend w)"
    using simulate_market_Ok[of w ?o N] assms(2,3) by auto
  have "TestnetBackend_get_order_status_detailed N w' (so_exchange placed) (so_id placed) (so_symbol template) =
    (w', Err (not_supported (so_exchange template)))"
    using simulated_unverified[OF _ p(1)] assms by simp
  with that p assms(4) show thesis by (simp add: Let_def)
qed

lemma simulated_hedge:
  assumes "so_exchange template \<noteq> ''bybit''" "single_exchange_mode (dw_backend w)"
    and "so_exchange template \<noteq> primary_exchange (dw_backend w)" "\<not> target - filled \<le> lit 0"
    and "attempts \<noteq> []" "\<forall>a \<in> set (butlast attempts). a < MAX_RETRIES" "last attempts = MAX_RETRIES"
  shows "\<exists>w' metrics'. hedge_loop (demo_env N) template target attempts w filled prev metrics =
    (w', metrics', Err (VerifyFailed (not_supported (so_exchange template))))"
  using assms
proof (induction attempts arbitrary: w prev metrics)
  case (Cons attempt attempts)
  obtain w' prev' metrics' where r:
    "hedge_loop (demo_env N) template target (attempt # attempts) w filled prev metrics =
      (if attempt < MAX_RETRIES
       then hedge_loop (demo_env N) template target attempts
         (sleep_ms (demo_env N) w' (100 * 2 ^ (attempt - 1))) filled prev' metrics'
       else (w', metrics', Err (VerifyFailed (not_supported (so_exchange template)))))"
    "single_exchange_mode (dw_backend w')" "primary_exchange (dw_backend w') = primary_exchange (dw_backend w)"
    using simulated_round[OF Cons.prems(1-4)] .
  show ?case
  proof (cases "attempts = []")
    case True
    with Cons.prems(7) r(1) show ?thesis by simp
  next
    case False
    with Cons.prems r(2,3) have "\<exists>w'' metrics''. hedge_loop (demo_env N) template target attempts
        (sleep_ms (demo_env N) w' (100 * 2 ^ (attempt - 1))) filled prev' metrics' =
        (w'', metrics'', Err (VerifyFailed (not_supported (so_exchange template))))"
      by (intro Cons.IH) auto
    with False Cons.prems(6) r(1) show ?thesis by simp
  qed
qed simp

lemma sample_asked_log: "snd (dw_net sample_asked) \<noteq> []"
  by (simp add: sample_asked_def TestnetBackend_get_available_balance_def demo_start_def TestnetBackend_new_def
      sample_config_def on_exchange_def with_bybit_def BybitDemoClient_new_def BybitDemoClient_get_balance_def
      BybitDemoClient_get_timestamp_def duration_since_def fetch_def and_then_def Let_def split_beta
      split: result.split)

section \<open>Properties\<close>

text \<open>C13. What the demo backend sends.  In every run from its start, with any calls in any order, each
  request goes to the exchange's own host; requests for market data carry no credentials; every other
  request carries the configured key and a signature, made with the configured secret, of its
  timestamp, the key, the receive window and exactly the body or query string that is sent.  Without
  credentials nothing is sent at all.\<close>

theorem demo_requests_allowed:
  assumes "demo_steps (logged N) (demo_start (logged N) config (x, [])) w"
  shows "case tc_bybit config of
      Some creds \<Rightarrow> list_all (allowed N (cr_api_key creds) (cr_api_secret creds)) (snd (dw_net w))
    | None \<Rightarrow> snd (dw_net w) = []"
proof (cases "tc_bybit config")
  case None
  then have "tb_bybit (dw_backend (demo_start (logged N) config (x, []))) = None"
    by (simp add: demo_start_def TestnetBackend_new_def)
  with demo_steps_none[OF assms] None show ?thesis by (simp add: demo_start_def)
next
  case (Some creds)
  have "on_client (log_ok N (cr_api_key creds) (cr_api_secret creds)) w"
    using demo_requests.demo_steps_inv[OF assms start_log[OF Some]] .
  moreover have "tb_bybit (dw_backend w) \<noteq> None"
    using demo_steps_keep[OF assms] Some by (simp add: demo_keeps_def demo_start_def TestnetBackend_new_def)
  ultimately show ?thesis using Some by (auto simp: on_client_def log_ok_def)
qed

theorem demo_requests_allowed_witness:
  "list_all (allowed sample_net ''key'' ''secret'') (snd (dw_net sample_asked)) \<and> snd (dw_net sample_asked) \<noteq> []"
proof -
  have "demo_steps (logged sample_net) (demo_start (logged sample_net) (sample_config False) (0, [])) sample_asked"
    unfolding sample_asked_def using demo_step.balance by (metis demo_env_simps(8) r_into_rtranclp)
  then have "list_all (allowed sample_net ''key'' ''secret'') (snd (dw_net sample_asked))"
    using demo_requests_allowed[of sample_net "sample_config False" 0 sample_asked] by (simp add: sample_config_def)
  moreover have "snd (dw_net sample_asked) \<noteq> []" by (rule sample_asked_log)
  ultimately show ?thesis by simp
qed

text \<open>C29. The client of the demo backend stays well formed.  In every run from the start, on a network whose
  clock does not run backwards, no cached order book has more levels than its key says or was cached in
  the future, nor was the last synchronisation in the future, so ages never saturate.\<close>

theorem demo_client_well_formed:
  assumes "network N" "demo_steps N (demo_start N config x) w" "tb_bybit (dw_backend w) = Some client"
  shows "client_wf N \<lparr>c_client = client, c_net = dw_net w\<rparr>"
  using network.demo_client_wf[OF assms(1,2)] assms(3) by (simp add: on_client_def)

theorem demo_client_well_formed_witness:
  "\<exists>client. tb_bybit (dw_backend (demo_start sample_net (sample_config False) 5)) = Some client \<and>
     client_wf sample_net \<lparr>c_client = client, c_net = 5\<rparr>"
  using demo_client_well_formed[OF network_sample rtranclp.rtrancl_refl[of _ "demo_start sample_net (sample_config False) 5"]]
  by (simp add: demo_start_def TestnetBackend_new_def sample_config_def)

text \<open>C30. Accepted orders stay known.  An order that the demo backend accepts keeps its instruction and is
  recorded with its exchange and symbol; whatever is called afterwards it remains on record, so that
  cancelling it or asking for its status never fails for want of the record.  The blacklist is never
  written: every symbol is tradeable in every run.\<close>

theorem demo_orders_known:
  assumes "demo_steps N (demo_start N config x) w"
    and "TestnetBackend_place_order N w order = (w1, Ok placed) \<or>
      TestnetBackend_place_market_order N w order = (w1, Ok placed)"
    and "demo_steps N w1 w2"
  shows "order_metadata (dw_backend w1) (so_id placed) = Some (so_exchange order, so_symbol order) \<and>
    so_side placed = so_side order \<and> so_price placed = so_price order \<and> so_size placed = so_size order \<and>
    so_id placed \<in> dom (order_metadata (dw_backend w2)) \<and>
    snd (TestnetBackend_is_symbol_tradeable w2 exchange symbol) = Ok True"
proof -
  have "demo_step N w w1" using assms(2) demo_step.limit_order[of N w order] demo_step.market_order[of N w order] by auto
  then have "demo_steps N (demo_start N config x) w2" using assms(1,3) by (meson rtranclp.rtrancl_into_rtrancl rtranclp_trans)
  then have "failed_symbols (dw_backend w2) = Map.empty"
    by (auto dest!: demo_steps_keep simp: demo_keeps_def demo_start_def TestnetBackend_new_def)
  moreover have "so_id placed \<in> dom (order_metadata (dw_backend w2))"
    using place_order_known[OF assms(2)] demo_steps_keep[OF assms(3)] by (auto simp: demo_keeps_def)
  ultimately show ?thesis
    using place_order_known[OF assms(2)] place_order_same[OF assms(2)]
    by (simp add: TestnetBackend_is_symbol_tradeable_def)
qed

theorem demo_orders_known_witness:
  "\<exists>w1 placed. TestnetBackend_place_order sample_net (demo_start sample_net (sample_config True) 0)
       (paper_sample_order\<lparr>so_exchange := ''okx''\<rparr>) = (w1, Ok placed) \<and>
     order_metadata (dw_backend w1) (so_id placed) = Some (''okx'', ''BTCUSDT'')"
proof -
  let ?w = "demo_start sample_net (sample_config True) 0" and ?o = "paper_sample_order\<lparr>so_exchange := ''okx''\<rparr>"
  obtain w1 placed where p: "TestnetBackend_place_order sample_net ?w ?o = (w1, Ok placed)"
    by (simp add: TestnetBackend_place_order_def simulate_order_def demo_start_def TestnetBackend_new_def
        sample_config_def split_beta Let_def)
  show ?thesis using demo_orders_known[OF rtranclp.rtrancl_refl, of sample_net "sample_config True" 0 ?o w1 placed w1] p
    by (auto simp: paper_sample_order_def)
qed

text \<open>The live entry on the demo backend.  On every network whose clock does not run backwards, whatever
  the exchange answers, the entry returns, leaves the hedge locks as they were, and trading is halted
  afterwards exactly when it was before or the error is that of a failed emergency close.\<close>

lemma demo_entry_returns:
  assumes "network N"
  shows "\<exists>st' r. execute_atomic_entry_real (demo_env N) opp available_capital position_size st = Some (st', r) \<and>
    ex_locks st' = ex_locks st \<and> (ex_halted st' \<longleftrightarrow> ex_halted st \<or> close_failed r)"
  using entry_real_frames[OF network.demo_clocked[OF assms], of opp available_capital position_size st]
  by (fastforce simp: frames_def)



end
