(* ===== verification/Program.thy ===== *)
theory Program
  imports Monitor Opportunity_Detector "HOL-Library.Sublist"
begin

text \<open>
  src/src/main.rs: the way of a message from the connectors into the market pipeline and the Redis queue
  (\<open>parse_to_market_update\<close>, \<open>redis_bridge\<close>), the thread that writes that queue to Redis
  (\<open>redis_writer_thread\<close>), the extraction of open interest, and the wiring of bridge, detector and strategy
  runner in \<open>main\<close>.

  \<open>serde_json::from_str\<close> and the outcome of a Redis pipeline are arguments; Redis queue and market queue
  are ArrayQueues under their contract.  A system state has the shared objects once; a step of one of the
  threads runs on them and puts them back.  \<open>main_reach\<close> are the states of the program under every
  interleaving of whole steps.
\<close>

section \<open>Messages\<close>

text \<open>\<open>str::split\<close>.\<close>

fun split_on :: "char \<Rightarrow> string \<Rightarrow> string list" where
  "split_on c [] = [[]]"
| "split_on c (x # xs) =
     (if x = c then [] # split_on c xs
      else case split_on c xs of y # ys \<Rightarrow> (x # y) # ys | [] \<Rightarrow> [[x]])"

text \<open>Exchange, normalised symbol, bid and ask of a message, up to the validation of the prices.\<close>

definition message_quote ::
  "bool \<Rightarrow> 'j json_ops \<Rightarrow> (string \<Rightarrow> 'j option) \<Rightarrow> string \<Rightarrow> string \<Rightarrow>
   (string \<times> string \<times> f64 \<times> f64) option" where
  "message_quote avx J from_str key value =
     (let parts = split_on (CHR '':'') key in
      if length parts < 3 then None
      else
        let exchange = hd parts; symbol_raw = last parts; symbol = normalize_symbol symbol_raw
        in Option.bind (from_str value) (\<lambda>json.
           let parser = get_parser avx J exchange in
           Option.bind (parse_bid parser json) (\<lambda>bid_str.
           Option.bind (parse_ask parser json) (\<lambda>ask_str.
           Option.bind (parse_price_simd avx bid_str) (\<lambda>bid.
           Option.bind (parse_price_simd avx ask_str) (\<lambda>ask.
           if bid \<le> lit 0 \<or> ask \<le> lit 0 \<or> bid \<ge> ask then None
           else Some (exchange, symbol, bid, ask)))))))"

definition parse_to_market_update ::
  "bool \<Rightarrow> 'j json_ops \<Rightarrow> (string \<Rightarrow> 'j option) \<Rightarrow> ('m, key, u32) dashmap_ops \<Rightarrow> ('n, u32, key) dashmap_ops \<Rightarrow>
   u64 \<Rightarrow> string \<Rightarrow> string \<Rightarrow> ('m, 'n) symbol_map \<Rightarrow> ('m, 'n) symbol_map \<times> market_update option" where
  "parse_to_market_update avx J from_str T F timestamp_us key value symbols =
     (case message_quote avx J from_str key value of
        None \<Rightarrow> (symbols, None)
      | Some (exchange, symbol, bid, ask) \<Rightarrow>
          let (symbols, symbol_id) = get_or_insert T F symbols exchange symbol
          in (symbols, Some (MarketUpdate_new symbol_id bid ask timestamp_us)))"

section \<open>The bridge\<close>

type_synonym message = "string \<times> string"

definition REDIS_QUEUE_CAPACITY :: nat where
  "REDIS_QUEUE_CAPACITY = 32768"

definition push_redis :: "('rq, message) array_queue_ops \<Rightarrow> 'rq \<Rightarrow> message \<Rightarrow> 'rq" where
  "push_redis RQ queue item =
     (case aq_push RQ queue item of
        (queue, Err rejected_item) \<Rightarrow> fst (aq_push RQ (fst (aq_pop RQ queue)) rejected_item)
      | (queue, Ok _) \<Rightarrow> queue)"

record ('rq, 'mq, 'm, 'n) bridge =
  br_queue :: 'rq
  br_pipeline :: "'mq market_pipeline"
  br_symbols :: "('m, 'n) symbol_map"

text \<open>One turn of the loop of \<open>redis_bridge\<close>.\<close>

definition redis_bridge ::
  "('w, 'm, 'n, 'tm, 'nm, 'mq, 'oq, 'j) libs \<Rightarrow> (string \<Rightarrow> 'j option) \<Rightarrow> ('rq, message) array_queue_ops \<Rightarrow> u64 \<Rightarrow>
   message \<Rightarrow> ('rq, 'mq, 'm, 'n) bridge \<Rightarrow> ('rq, 'mq, 'm, 'n) bridge" where
  "redis_bridge L from_str RQ now item b =
     (let (symbols, parsed) = parse_to_market_update (l_avx L) (l_json L) from_str (l_to L) (l_from L) now
            (fst item) (snd item) (br_symbols b);
          b = b\<lparr>br_symbols := symbols\<rparr>;
          b = (case parsed of
                 Some u \<Rightarrow> b\<lparr>br_pipeline := MarketProducer_push (l_mq L) (br_pipeline b) u\<rparr>
               | None \<Rightarrow> b)
      in b\<lparr>br_queue := push_redis RQ (br_queue b) item\<rparr>)"

section \<open>The Redis writer\<close>

definition REDIS_FLUSH_MAX_ITEMS :: nat where
  "REDIS_FLUSH_MAX_ITEMS = 512"

datatype redis_cmd = SET string string | PUBLISH string string

definition pipe_of :: "message list \<Rightarrow> redis_cmd list" where
  "pipe_of buffer = concat (map (\<lambda>(k, v). [SET k v, PUBLISH k v]) buffer)"

text \<open>\<open>redis\<close> sends a pipeline and says whether it succeeded.\<close>

definition flush_redis_buffer ::
  "('c \<Rightarrow> redis_cmd list \<Rightarrow> 'c \<times> bool) \<Rightarrow> 'c \<Rightarrow> message list \<Rightarrow> 'c \<times> message list \<times> bool" where
  "flush_redis_buffer redis conn buffer =
     (case redis conn (pipe_of buffer) of
        (conn, True) \<Rightarrow> (conn, [], True)
      | (conn, False) \<Rightarrow> (conn, buffer, False))"

definition flush_if_any ::
  "('c \<Rightarrow> redis_cmd list \<Rightarrow> 'c \<times> bool) \<Rightarrow> 'c \<Rightarrow> message list \<Rightarrow> 'c \<times> message list" where
  "flush_if_any redis conn buffer =
     (if buffer = [] then (conn, buffer)
      else let (conn, buffer, ok) = flush_redis_buffer redis conn buffer in (conn, buffer))"

text \<open>A tick: fill the buffer from the queue, then flush it.\<close>

definition writer_tick ::
  "('c \<Rightarrow> redis_cmd list \<Rightarrow> 'c \<times> bool) \<Rightarrow> ('rq, message) array_queue_ops \<Rightarrow> 'c \<Rightarrow> 'rq \<Rightarrow> message list \<Rightarrow>
   'c \<times> 'rq \<times> message list" where
  "writer_tick redis RQ conn queue buffer =
     (let (queue, popped) = batch_loop (aq_pop RQ) (REDIS_FLUSH_MAX_ITEMS - length buffer) queue;
          (conn, buffer) = flush_if_any redis conn (buffer @ popped)
      in (conn, queue, buffer))"

text \<open>The branch for a shutdown: drain the queue, flush full batches and what remains.  The loop ends when
  the queue is empty.\<close>

partial_function (option) writer_drain ::
  "('c \<Rightarrow> redis_cmd list \<Rightarrow> 'c \<times> bool) \<Rightarrow> ('rq, message) array_queue_ops \<Rightarrow> 'c \<Rightarrow> 'rq \<Rightarrow> message list \<Rightarrow>
   ('c \<times> 'rq \<times> message list) option" where
  "writer_drain redis RQ conn queue buffer =
     (case aq_pop RQ queue of
        (queue, None) \<Rightarrow>
          let (conn, buffer) = flush_if_any redis conn buffer in Some (conn, queue, buffer)
      | (queue, Some item) \<Rightarrow>
          let buffer = buffer @ [item];
              (conn, buffer) = (if REDIS_FLUSH_MAX_ITEMS \<le> length buffer
                then let (conn, buffer, ok) = flush_redis_buffer redis conn buffer in (conn, buffer)
                else (conn, buffer))
          in writer_drain redis RQ conn queue buffer)"

section \<open>Open interest\<close>

definition first_of :: "'j json_ops \<Rightarrow> string list \<Rightarrow> 'j \<Rightarrow> 'j option" where
  "first_of J ks json = Option.bind (path J ks json) (nth_of J 0)"

definition extract_oi_value :: "'j json_ops \<Rightarrow> (string \<Rightarrow> ('j, string) result) \<Rightarrow> string \<Rightarrow> string \<Rightarrow> (f64, string) result" where
  "extract_oi_value J from_str oi_data exchange =
     (case from_str oi_data of
        Err e \<Rightarrow> Err e
      | Ok json \<Rightarrow>
          let number = (\<lambda>v. Option.bind (Option.bind v (j_as_str J)) std_parse);
              oi = (if exchange = ''binance'' then number (path J [''openInterest''] json)
                else if exchange = ''okx'' then
                  number (Option.bind (first_of J [''data''] json) (\<lambda>f. j_get J f ''oi''))
                else if exchange = ''bybit'' then
                  number (Option.bind (first_of J [''result'', ''list''] json) (\<lambda>f. j_get J f ''openInterest''))
                else if exchange = ''kucoin'' then number (path J [''data'', ''openInterest''] json)
                else if exchange = ''bitget'' then
                  number (Option.bind (first_of J [''data''] json) (\<lambda>f. j_get J f ''oi''))
                else if exchange = ''hyperliquid'' then number (path J [''openInterest''] json)
                else if exchange = ''paradex'' then number (path J [''market'', ''open_interest''] json)
                else None)
          in (case oi of Some v \<Rightarrow> Ok v | None \<Rightarrow> Err ''Failed to extract OI value''))"

datatype oi_request = GetUrl string | PostJson string "(string \<times> string) list"

text \<open>\<open>fetch\<close> sends a request and reads the text of the answer.\<close>

definition fetch_oi_data ::
  "('w \<Rightarrow> oi_request \<Rightarrow> 'w \<times> (string, string) result) \<Rightarrow> 'w \<Rightarrow> string \<Rightarrow> string \<Rightarrow>
   'w \<times> (string, string) result" where
  "fetch_oi_data fetch w exchange symbol =
     (if exchange = ''binance'' then
        fetch w (GetUrl (''https://fapi.binance.com/fapi/v1/openInterest?symbol='' @ symbol))
      else if exchange = ''okx'' then
        let inst_id = trim_end_matches ''USDT'' symbol @ ''-USDT-SWAP''
        in fetch w (GetUrl (''https://www.okx.com/api/v5/public/open-interest?instId='' @ inst_id))
      else if exchange = ''bybit'' then
        fetch w (GetUrl (''https://api.bybit.com/v5/market/open-interest?category=linear&symbol='' @ symbol))
      else if exchange = ''kucoin'' then
        let symbol_kc = trim_end_matches ''USDT'' symbol @ ''M''
        in fetch w (GetUrl (''https://api-futures.kucoin.com/api/v1/contracts/'' @ symbol_kc @ ''/open-interest''))
      else if exchange = ''bitget'' then
        fetch w (GetUrl
          (''https://api.bitget.com/api/v2/mix/market/open-interest?productType=usdt-futures&symbol='' @ symbol))
      else if exchange = ''hyperliquid'' then
        let coin = trim_end_matches ''USDT'' symbol
        in fetch w (PostJson ''https://api.hyperliquid.xyz/info'' [(''type'', ''openInterest''), (''coin'', coin)])
      else if exchange = ''paradex'' then
        fetch w (GetUrl (''https://api.prod.paradex.trade/v1/markets/'' @ symbol))
      else (w, Err ''Unknown exchange''))"

section \<open>The wiring\<close>

record ('w, 'm, 'n, 'tm, 'nm, 'mq, 'oq, 'rq) system =
  sy_symbols :: "('m, 'n) symbol_map"
  sy_market :: "'mq market_pipeline"
  sy_opportunities :: "'oq opportunity_queue"
  sy_redis_queue :: 'rq
  sy_buffer :: "message list"
  sy_detector :: "('mq, 'm, 'n, 'oq) detector"
  sy_runner :: "('w, 'm, 'n, 'tm, 'nm, 'mq, 'oq) runner"

text \<open>The set-up in \<open>main\<close>: the queues, the symbol map, the detector on the market pipeline, the runner
  with 20000 dollars and the consumer of opportunities.  \<open>None\<close> is a start that fails.\<close>

definition main_start ::
  "('w, 'm, 'n, 'tm, 'nm, 'mq, 'oq, 'j) libs \<Rightarrow> ('rq, message) array_queue_ops \<Rightarrow> 'w exec \<Rightarrow> bool \<Rightarrow> bool \<Rightarrow>
   ('w, 'm, 'n, 'tm, 'nm, 'mq, 'oq, 'rq) system option" where
  "main_start L RQ ex del_ok persist_ok =
     Option.bind (aq_new RQ REDIS_QUEUE_CAPACITY) (\<lambda>redis_queue.
     let symbol_map = SymbolMap_new (l_to L) (l_from L) in
     Option.bind (MarketPipeline_new (l_mq L)) (\<lambda>market_pipeline.
     Option.bind (OpportunityQueue_new (l_oq L)) (\<lambda>opportunity_queue.
     let detector = OpportunityDetector_new market_pipeline symbol_map opportunity_queue in
     case StrategyRunner_new L ex (lit 20000) symbol_map del_ok persist_ok of
       Err e \<Rightarrow> None
     | Ok strategy_runner \<Rightarrow>
         Some \<lparr>sy_symbols = symbol_map, sy_market = market_pipeline, sy_opportunities = opportunity_queue,
           sy_redis_queue = redis_queue, sy_buffer = [], sy_detector = detector,
           sy_runner = set_opportunity_consumer strategy_runner opportunity_queue\<rparr>)))"

definition bridge_step ::
  "('w, 'm, 'n, 'tm, 'nm, 'mq, 'oq, 'j) libs \<Rightarrow> (string \<Rightarrow> 'j option) \<Rightarrow> ('rq, message) array_queue_ops \<Rightarrow> u64 \<Rightarrow>
   message \<Rightarrow> ('w, 'm, 'n, 'tm, 'nm, 'mq, 'oq, 'rq) system \<Rightarrow> ('w, 'm, 'n, 'tm, 'nm, 'mq, 'oq, 'rq) system" where
  "bridge_step L from_str RQ now item s =
     (let b = redis_bridge L from_str RQ now item
            \<lparr>br_queue = sy_redis_queue s, br_pipeline = sy_market s, br_symbols = sy_symbols s\<rparr>
      in s\<lparr>sy_redis_queue := br_queue b, sy_market := br_pipeline b, sy_symbols := br_symbols b\<rparr>)"

definition detect_step ::
  "('w, 'm, 'n, 'tm, 'nm, 'mq, 'oq, 'j) libs \<Rightarrow> u64 \<Rightarrow> ('w, 'm, 'n, 'tm, 'nm, 'mq, 'oq, 'rq) system \<Rightarrow>
   ('w, 'm, 'n, 'tm, 'nm, 'mq, 'oq, 'rq) system" where
  "detect_step L now s =
     (let d = detector_step (l_mq L) (l_oq L) (l_to L) (l_from L) now
            ((sy_detector s)\<lparr>det_market := sy_market s, det_symbols := sy_symbols s,
              det_opps := sy_opportunities s\<rparr>)
      in s\<lparr>sy_detector := d, sy_market := det_market d, sy_symbols := det_symbols d,
           sy_opportunities := det_opps d\<rparr>)"

definition runner_step ::
  "('w, 'm, 'n, 'tm, 'nm, 'mq, 'oq, 'j) libs \<Rightarrow> ('w, 'm, 'n, 'tm, 'nm, 'mq, 'oq, 'rq) system \<Rightarrow>
   ('w, 'm, 'n, 'tm, 'nm, 'mq, 'oq, 'rq) system option" where
  "runner_step L s =
     map_option (\<lambda>r. s\<lparr>sy_runner := r, sy_symbols := rn_symbols r,
         sy_opportunities := (case rn_opportunity_consumer r of Some q \<Rightarrow> q | None \<Rightarrow> sy_opportunities s)\<rparr>)
       (scanning_turn L ((sy_runner s)\<lparr>rn_opportunity_consumer := Some (sy_opportunities s),
          rn_symbols := sy_symbols s\<rparr>))"

text \<open>\<open>ok\<close> says whether Redis answers.\<close>

definition writer_step ::
  "('rq, message) array_queue_ops \<Rightarrow> bool \<Rightarrow> ('w, 'm, 'n, 'tm, 'nm, 'mq, 'oq, 'rq) system \<Rightarrow>
   ('w, 'm, 'n, 'tm, 'nm, 'mq, 'oq, 'rq) system" where
  "writer_step RQ ok s =
     (let (u, queue, buffer) = writer_tick (\<lambda>c cmds. (c, ok)) RQ () (sy_redis_queue s) (sy_buffer s)
      in s\<lparr>sy_redis_queue := queue, sy_buffer := buffer\<rparr>)"

inductive main_reach ::
  "('w, 'm, 'n, 'tm, 'nm, 'mq, 'oq, 'j) libs \<Rightarrow> (string \<Rightarrow> 'j option) \<Rightarrow> ('rq, message) array_queue_ops \<Rightarrow>
   ('w, 'm, 'n, 'tm, 'nm, 'mq, 'oq, 'rq) system \<Rightarrow> bool"
  for L from_str RQ where
  start: "main_start L RQ ex del_ok persist_ok = Some s \<Longrightarrow> main_reach L from_str RQ s"
| bridge: "main_reach L from_str RQ s \<Longrightarrow> main_reach L from_str RQ (bridge_step L from_str RQ now item s)"
| detect: "main_reach L from_str RQ s \<Longrightarrow> main_reach L from_str RQ (detect_step L now s)"
| runner: "main_reach L from_str RQ s \<Longrightarrow> runner_step L s = Some s' \<Longrightarrow> main_reach L from_str RQ s'"
| writer: "main_reach L from_str RQ s \<Longrightarrow> main_reach L from_str RQ (writer_step RQ ok s)"
| world: "main_reach L from_str RQ s \<Longrightarrow> main_reach L from_str RQ (s\<lparr>sy_runner := set_world w (sy_runner s)\<rparr>)"

text \<open>A runner that has never seen a price, and has no trade.\<close>

definition idle ::
  "('w, 'm, 'n, 'tm, 'nm, 'mq, 'oq, 'j) libs \<Rightarrow> ('tm \<Rightarrow> bool) \<Rightarrow> ('w, 'm, 'n, 'tm, 'nm, 'mq, 'oq) runner \<Rightarrow> bool" where
  "idle L tinv r \<longleftrightarrow> rn_market_consumer r = None \<and> rn_store r = MarketDataStore_new \<and> tinv (rn_trades r) \<and>
     (\<forall>i. trade_at L r i = None) \<and> ps_active_trades (pfm_state (rn_portfolio r)) = []"

text \<open>What holds of the quotes and opportunities in the queues: a bid is a positive number below its ask, the
  detector stores no NaN, and the opportunities have positive prices and pass the filters.\<close>

definition sane_update :: "market_update \<Rightarrow> bool" where
  "sane_update u \<longleftrightarrow> 0 < mu_bid u \<and> mu_bid u < mu_ask u"

definition sane_store :: "market_data_store \<Rightarrow> bool" where
  "sane_store st \<longleftrightarrow> store_wf st \<and> (\<forall>b \<in> set (bids st). is_finite b) \<and> (\<forall>a \<in> set (asks st). a \<noteq> NaN)"

definition sound_opportunity :: "arbitrage_opportunity \<Rightarrow> bool" where
  "sound_opportunity opp \<longleftrightarrow> passes_filters opp \<and> 0 < ao_long_price opp \<and> 0 < ao_short_price opp \<and>
     is_finite (ao_short_price opp)"

definition detector_ok ::
  "('oq \<Rightarrow> arbitrage_opportunity list) \<Rightarrow> ('oq \<Rightarrow> bool) \<Rightarrow> ('mq, 'm, 'n, 'oq) detector \<Rightarrow> bool" where
  "detector_ok oitems ook d \<longleftrightarrow> standard d \<and> sane_store (det_store d) \<and> ook (oq_queue (det_opps d)) \<and>
     (\<forall>opp \<in> set (oitems (oq_queue (det_opps d))). sound_opportunity opp)"

definition flow_ok ::
  "('mq \<Rightarrow> market_update list) \<Rightarrow> ('mq \<Rightarrow> bool) \<Rightarrow> ('oq \<Rightarrow> arbitrage_opportunity list) \<Rightarrow> ('oq \<Rightarrow> bool) \<Rightarrow>
   ('w, 'm, 'n, 'tm, 'nm, 'mq, 'oq, 'rq) system \<Rightarrow> bool" where
  "flow_ok mitems mok oitems ook s \<longleftrightarrow> mok (mp_queue (sy_market s)) \<and>
     (\<forall>u \<in> set (mitems (mp_queue (sy_market s))). sane_update u) \<and>
     detector_ok oitems ook ((sy_detector s)\<lparr>det_opps := sy_opportunities s\<rparr>)"

text \<open>A Redis that keeps the pipelines it has executed; \<open>works n\<close> says whether the n-th succeeds.\<close>

definition redis_log :: "(nat \<Rightarrow> bool) \<Rightarrow> nat \<times> redis_cmd list \<Rightarrow> redis_cmd list \<Rightarrow> (nat \<times> redis_cmd list) \<times> bool" where
  "redis_log works c cmds =
     ((fst c + 1, if works (fst c) then snd c @ cmds else snd c), works (fst c))"

text \<open>The life of the Redis queue: messages arrive from the bridge, the writer ticks.\<close>

datatype writer_event = Arrive message | Tick

fun arrivals :: "writer_event list \<Rightarrow> message list" where
  "arrivals [] = []"
| "arrivals (Arrive m # es) = m # arrivals es"
| "arrivals (Tick # es) = arrivals es"

fun writer_run ::
  "('c \<Rightarrow> redis_cmd list \<Rightarrow> 'c \<times> bool) \<Rightarrow> ('rq, message) array_queue_ops \<Rightarrow> writer_event list \<Rightarrow>
   'c \<times> 'rq \<times> message list \<Rightarrow> 'c \<times> 'rq \<times> message list" where
  "writer_run redis RQ [] x = x"
| "writer_run redis RQ (Arrive m # es) (conn, queue, buffer) =
     writer_run redis RQ es (conn, push_redis RQ queue m, buffer)"
| "writer_run redis RQ (Tick # es) (conn, queue, buffer) =
     writer_run redis RQ es (writer_tick redis RQ conn queue buffer)"

text \<open>Concrete inputs: a quote of Bybit, a reader that knows it, a symbol map without entries, and the program
  just started on the sample libraries.\<close>

definition sample_message :: message where
  "sample_message = (''bybit:linear:tickers:BTCUSDT'', ''quote'')"

definition sample_reader :: "string \<Rightarrow> json option" where
  "sample_reader text =
     (if text = ''quote''
      then Some (JObj [(''data'', JObj [(''bid1Price'', JStr ''99.5''), (''ask1Price'', JStr ''100'')])])
      else None)"

definition sample_symbols :: "((key \<times> u32) list, (u32 \<times> key) list) symbol_map" where
  "sample_symbols = \<lparr>to_id = [], from_id = [], next_id = 1\<rparr>"

definition sample_main where
  "sample_main = main_start (sample_libs False) (list_queue :: (nat \<times> message list, message) array_queue_ops)
     (paper_exec (paper_start Map.empty)) True True"

definition sample_events :: "writer_event list" where
  "sample_events = [Arrive sample_message, Tick, Arrive (''okx:oi:BTCUSDT'', ''open interest'')]"

locale redis_queue = array_queue Q items ok
  for Q :: "('q, message) array_queue_ops" and items ok

interpretation list_redis: redis_queue list_queue snd lq_ok ..

section \<open>Lemmas\<close>

subsection \<open>Prices of messages are numbers\<close>

lemma lower_nan:
  assumes "to_lowercase t = ''nan''" "c \<in> set t"
  shows "c \<noteq> CHR ''.'' \<and> c \<noteq> CHR ''e'' \<and> c \<noteq> CHR ''E''"
proof -
  have "lower_char c \<in> set ''nan''" using assms by (metis image_eqI list.set_map to_lowercase_def)
  moreover have "char_of (101 :: nat) = CHR ''e''" by code_simp
  ultimately show ?thesis by (auto simp: lower_char_def)
qed

lemma std_parse_nan:
  assumes "std_parse s = Some NaN"
  shows "length s \<le> 4 \<and> (\<forall>c \<in> set s. c \<noteq> CHR ''.'' \<and> c \<noteq> CHR ''e'' \<and> c \<noteq> CHR ''E'')"
proof -
  obtain t where t: "s = t \<or> (\<exists>c. s = c # t \<and> (c = CHR ''-'' \<or> c = CHR ''+''))" "to_lowercase t = ''nan''"
    using assms by (auto simp: std_parse_def Let_def split: list.splits if_splits option.splits)
  have l: "length t = 3" using arg_cong[OF t(2), of length] by (simp add: to_lowercase_def)
  have n: "\<forall>c \<in> set t. c \<noteq> CHR ''.'' \<and> c \<noteq> CHR ''e'' \<and> c \<noteq> CHR ''E''" using lower_nan[OF t(2)] by blast
  from t(1) consider "s = t" | c where "s = c # t" "c = CHR ''-'' \<or> c = CHR ''+''" by blast
  then show ?thesis
  proof cases
    case 1
    with l n show ?thesis by simp
  next
    case 2
    then have "c \<noteq> CHR ''.'' \<and> c \<noteq> CHR ''e'' \<and> c \<noteq> CHR ''E''" by fastforce
    with 2(1) l n show ?thesis by simp
  qed
qed

lemma scan_Fallback:
  "scan_price bytes r d f = Fallback \<Longrightarrow> \<exists>c \<in> set bytes. c = CHR ''.'' \<or> c = CHR ''e'' \<or> c = CHR ''E''"
  by (induction bytes r d f rule: scan_price.induct) (auto split: if_splits)

lemma digit_finite: "is_ascii_digit c \<Longrightarrow> is_finite (nat_as_f64 (digit_val c))"
proof -
  assume "is_ascii_digit c"
  then have "digit_val c < 10" by (auto simp: is_ascii_digit_def digit_val_def)
  then have "digit_val c < 2 ^ 53" by simp
  from nat_as_f64_exact[OF this] show ?thesis by simp
qed

lemma scan_Done:
  "scan_price bytes r d f = Done r' d' \<Longrightarrow> r \<noteq> NaN \<Longrightarrow> r' \<noteq> NaN \<and> d' \<le> d + length bytes"
proof (induction bytes r d f rule: scan_price.induct)
  case (2 byte bytes r d f)
  have "is_ascii_digit byte \<Longrightarrow> r * lit 10 + nat_as_f64 (digit_val byte) \<noteq> NaN"
    using 2(4) by (intro add_not_nan mul_not_nan digit_finite) (simp_all add: zero_f64_def)
  with 2 show ?case by (auto split: if_splits)
qed simp

text \<open>A product of numbers between 1 and a power of two stays between such bounds, so \<open>powi\<close> is finite.\<close>

lemma mul_bound:
  assumes "1 \<le> x" "x \<le> 2 ^ i" "1 \<le> y" "y \<le> 2 ^ j" "i + j < 1024"
  obtains z where "Fin x * Fin y = Fin z" "1 \<le> z" "z \<le> 2 ^ (i + j)"
proof -
  have one: "rnd 1 = 1" using rnd_int_exact[of 1] by simp
  have pow: "rnd (2 ^ (i + j)) = 2 ^ (i + j)"
    by (rule rnd_exact[of _ 1 "int (i + j)"]) (simp_all del: of_nat_add add: power_int_of_nat)
  have "1 * 1 \<le> x * y" using assms(1,3) by (intro mult_mono) auto
  then have lo: "1 \<le> rnd (x * y)" using rnd_mono[of 1 "x * y"] one by simp
  have "x * y \<le> 2 ^ i * 2 ^ j" using assms(1-4) by (intro mult_mono) auto
  then have hi: "rnd (x * y) \<le> 2 ^ (i + j)" using rnd_mono[of "x * y" "2 ^ (i + j)"] pow by (simp add: power_add)
  also have "(2 :: rat) ^ (i + j) < 2 powi 1024"
    using assms(5) powi2_less_iff[of "int (i + j)" 1024] by (simp only: power_int_of_nat)
  finally have "ilog2 \<bar>rnd (x * y)\<bar> < 1024" using lo by (intro ilog2_less) auto
  then have "Fin x * Fin y = Fin (rnd (x * y))" using lo assms(1,3) by (simp add: times_f64_def mk_simps Let_def)
  with lo hi show thesis using that by blast
qed

lemma powi_loop_bound:
  "0 < b \<Longrightarrow> 1 \<le> x \<Longrightarrow> x \<le> 2 ^ i \<Longrightarrow> 1 \<le> y \<Longrightarrow> y \<le> 2 ^ j \<Longrightarrow> j + i * b < 1024 \<Longrightarrow>
   \<exists>z. powi_loop b (Fin x) (Fin y) = Fin z \<and> 1 \<le> z"
proof (induction b arbitrary: x y i j rule: less_induct)
  case (less b)
  let ?j = "if odd b then j + i else j"
  have b: "b = 2 * (b div 2) + (if odd b then 1 else 0)" by presburger
  have "i * b = i * (2 * (b div 2) + (if odd b then 1 else 0))" using b by simp
  then have e: "?j + (i + i) * (b div 2) = j + i * b" by (simp only: algebra_simps) simp
  then have ji: "odd b \<Longrightarrow> j + i < 1024" using less.prems(6) by (simp split: if_splits)
  obtain y' where y': "(if odd b then Fin y * Fin x else Fin y) = Fin y'" "1 \<le> y'" "y' \<le> 2 ^ ?j"
  proof (cases "odd b")
    case True
    with mul_bound[OF less.prems(4,5,2,3) ji] that show thesis by auto
  next
    case False
    with that less.prems(4,5) show thesis by simp
  qed
  show ?case
  proof (cases "b div 2 = 0")
    case True
    with y' show ?thesis by (simp add: powi_loop.simps)
  next
    case False
    then have "i + i \<le> (i + i) * (b div 2)" by simp
    then have "i + i < 1024" using e less.prems(6) by linarith
    then obtain x' where x': "Fin x * Fin x = Fin x'" "1 \<le> x'" "x' \<le> 2 ^ (i + i)"
      using mul_bound[OF less.prems(2,3,2,3)] by blast
    have "\<exists>z. powi_loop (b div 2) (Fin x') (Fin y') = Fin z \<and> 1 \<le> z"
      using False less.prems(1,6) e by (intro less.IH[where i = "i + i" and j = "?j", OF _ _ x'(2,3) y'(2,3)]) simp_all
    then show ?thesis using False by (subst powi_loop.simps) (simp only: y'(1) x'(1) Let_def if_False)
  qed
qed

lemma powi_10_finite:
  assumes "0 < d" "d \<le> 32" shows "0 < f64_powi (lit 10) d \<and> is_finite (f64_powi (lit 10) d)"
proof -
  have "(10 :: rat) \<le> 2 ^ 4" by simp
  then have "\<exists>z. f64_powi (lit 10) d = Fin z \<and> 1 \<le> z"
    using powi_loop_bound[of d 10 4 1 0] assms by (simp add: f64_powi_def one_f64_def)
  then show ?thesis by (auto simp: zero_f64_def)
qed

lemma uminus_nan: "- x = NaN \<longleftrightarrow> x = (NaN :: f64)"
  by (cases x) auto

lemma finish_not_nan: "r \<noteq> NaN \<Longrightarrow> d \<le> 32 \<Longrightarrow> finish_price r d neg \<noteq> NaN"
  using powi_10_finite[of d] div_not_nan[of r "f64_powi (lit 10) d"]
  by (auto simp: finish_price_def Let_def uminus_nan)

lemma price_not_nan: "parse_price_simd avx s = Some p \<Longrightarrow> p \<noteq> NaN"
proof
  assume p: "parse_price_simd avx s = Some p" and nan: "p = NaN"
  then have f: "parse_price_fast s = Some NaN" and ne: "s \<noteq> []"
    by (auto simp: parse_price_simd_def avx_fast split: if_splits)
  show False
  proof (cases "length s > 32")
    case True
    with f ne std_parse_nan[of s] show False by (simp add: parse_price_fast_def)
  next
    case False
    obtain neg bytes where b: "split_sign s = (neg, bytes)" by fastforce
    then have l: "length bytes \<le> length s" by (auto simp: split_sign_def split: list.splits if_splits)
    show False
    proof (cases "scan_price bytes (lit 0) 0 False")
      case (Done r d)
      then have "r \<noteq> NaN" "d \<le> 32" using scan_Done[OF Done] l False by auto
      then show False using finish_not_nan f ne False b Done by (simp add: parse_price_fast_def)
    next
      case Fallback
      then have "std_parse s = Some NaN" using f ne False b by (simp add: parse_price_fast_def)
      moreover obtain c where "c \<in> set bytes" "c = CHR ''.'' \<or> c = CHR ''e'' \<or> c = CHR ''E''"
        using scan_Fallback[OF Fallback] by blast
      moreover have "set bytes \<subseteq> set s" using b by (auto simp: split_sign_def split: list.splits if_splits)
      ultimately show False using std_parse_nan[of s] by blast
    next
      case Invalid
      then show False using f ne False b by (simp add: parse_price_fast_def)
    qed
  qed
qed

subsection \<open>Messages\<close>

lemma split_on_not_empty: "split_on c xs \<noteq> []"
  by (induction xs) (auto split: list.splits)

lemma message_quote_sane:
  assumes "message_quote avx J from_str k v = Some (exchange, symbol, bid, ask)"
  shows "0 < bid \<and> bid < ask"
proof -
  from assms obtain b a where p: "parse_price_simd avx b = Some bid" "parse_price_simd avx a = Some ask"
    and c: "\<not> bid \<le> lit 0" "\<not> ask \<le> bid"
    by (auto simp: message_quote_def Let_def Option.bind_eq_Some_conv split: if_splits)
  note n = price_not_nan[OF p(1)] price_not_nan[OF p(2)]
  show ?thesis using c n f_not_le[of bid "lit 0"] f_not_le[of ask bid] by simp
qed

lemma parse_sane:
  assumes "parse_to_market_update avx J from_str T F now k v m = (m', Some u)" shows "sane_update u"
  using assms message_quote_sane[of avx J from_str k v]
  by (auto simp: parse_to_market_update_def sane_update_def MarketUpdate_new_def split: option.splits prod.splits)

subsection \<open>The Redis writer\<close>

lemma pipe_of_append [simp]: "pipe_of (xs @ ys) = pipe_of xs @ pipe_of ys" "pipe_of [] = []"
  by (simp_all add: pipe_of_def)

lemma flush_log:
  assumes "flush_redis_buffer (redis_log works) conn buffer = (conn', buffer', okb)"
  shows "\<exists>ws. buffer = ws @ buffer' \<and> snd conn' = snd conn @ pipe_of ws"
    and "(\<forall>n. works n) \<Longrightarrow> buffer' = []"
  using assms by (auto simp: flush_redis_buffer_def redis_log_def split: prod.splits bool.splits if_splits)

lemma flush_any_log:
  assumes "flush_if_any (redis_log works) conn buffer = (conn', buffer')"
  shows "\<exists>ws. buffer = ws @ buffer' \<and> snd conn' = snd conn @ pipe_of ws"
    and "(\<forall>n. works n) \<Longrightarrow> buffer' = []"
  using assms flush_log[of works conn buffer]
  by (auto simp: flush_if_any_def split: prod.splits if_splits)

context array_queue
begin

lemma pop_batch:
  assumes "ok q" "batch_loop (aq_pop Q) n q = (q', xs)"
  shows "xs = take n (items q) \<and> items q' = drop n (items q) \<and> ok q' \<and> aq_capacity Q q' = aq_capacity Q q"
  using assms
proof (induction n arbitrary: q q' xs)
  case (Suc n)
  from Suc.prems(1) show ?case
  proof (cases rule: pop_cases)
    case empty
    with Suc.prems show ?thesis by simp
  next
    case (some y q1)
    obtain q2 ys where b: "batch_loop (aq_pop Q) n q1 = (q2, ys)" by fastforce
    from Suc.IH[OF some(3) b] Suc.prems(2) some b show ?thesis by auto
  qed
qed simp

end

context redis_queue
begin

lemma push_redis_items:
  assumes "ok q"
  shows "ok (push_redis Q q x) \<and> aq_capacity Q (push_redis Q q x) = aq_capacity Q q \<and>
    items (push_redis Q q x) = lastn (aq_capacity Q q) (items q @ [x])"
  by (rule push_cases[OF assms, of x]) (auto simp: push_redis_def)

lemma tick_log:
  assumes "ok q" "writer_tick (redis_log works) Q conn q buffer = (conn', q', buffer')"
  shows "ok q' \<and> aq_capacity Q q' = aq_capacity Q q \<and> length (items q') \<le> length (items q) \<and>
    (\<exists>ws. buffer @ items q = ws @ buffer' @ items q' \<and> snd conn' = snd conn @ pipe_of ws)"
proof -
  let ?n = "REDIS_FLUSH_MAX_ITEMS - length buffer"
  obtain xs where b: "batch_loop (aq_pop Q) ?n q = (q', xs)"
    and f: "flush_if_any (redis_log works) conn (buffer @ xs) = (conn', buffer')"
    using assms(2) by (auto simp: writer_tick_def split: prod.splits)
  have "buffer @ items q = (buffer @ xs) @ items q'" using pop_batch[OF assms(1) b] by simp
  moreover obtain ws where "buffer @ xs = ws @ buffer'" "snd conn' = snd conn @ pipe_of ws"
    using flush_any_log(1)[OF f] by blast
  ultimately have "\<exists>ws. buffer @ items q = ws @ buffer' @ items q' \<and> snd conn' = snd conn @ pipe_of ws"
    by (metis append_assoc)
  with pop_batch[OF assms(1) b] show ?thesis by simp
qed

text \<open>Nothing is reordered or repeated, and only the overflow of the queue loses a message.\<close>

lemma run_log:
  assumes "ok q" "writer_run (redis_log works) Q es (conn, q, buffer) = (conn', q', buffer')"
  shows "ok q' \<and> (\<exists>ws. snd conn' = snd conn @ pipe_of ws \<and>
    subseq (ws @ buffer' @ items q') (buffer @ items q @ arrivals es) \<and>
    (length (items q @ arrivals es) \<le> aq_capacity Q q \<longrightarrow> ws @ buffer' @ items q' = buffer @ items q @ arrivals es))"
  using assms
proof (induction es arbitrary: conn q buffer rule: arrivals.induct)
  case 1
  then show ?case by (auto intro!: exI[of _ "[]"])
next
  case (2 m es)
  note p = push_redis_items[OF 2(2), of m]
  from 2(1)[of "push_redis Q q m" conn buffer] 2(3) p obtain ws where
    ws: "ok q'" "snd conn' = snd conn @ pipe_of ws"
      "subseq (ws @ buffer' @ items q') (buffer @ lastn (aq_capacity Q q) (items q @ [m]) @ arrivals es)"
      "length (lastn (aq_capacity Q q) (items q @ [m]) @ arrivals es) \<le> aq_capacity Q q \<longrightarrow>
       ws @ buffer' @ items q' = buffer @ lastn (aq_capacity Q q) (items q @ [m]) @ arrivals es" by auto
  have "subseq (lastn (aq_capacity Q q) (items q @ [m])) (items q @ [m])"
    unfolding lastn_def by (intro suffix_imp_subseq suffix_drop)
  then have "subseq (buffer @ lastn (aq_capacity Q q) (items q @ [m]) @ arrivals es) (buffer @ items q @ [m] @ arrivals es)"
    by (metis append_assoc list_emb_append_mono subseq_order.order_refl)
  moreover have "length (items q @ [m]) \<le> aq_capacity Q q \<Longrightarrow> lastn (aq_capacity Q q) (items q @ [m]) = items q @ [m]"
    by (rule lastn_all)
  ultimately show ?case using ws by (intro conjI exI[of _ ws]) (auto intro: subseq_order.order_trans)
next
  case (3 es)
  obtain conn1 q1 buffer1 where t: "writer_tick (redis_log works) Q conn q buffer = (conn1, q1, buffer1)"
    by (metis prod_cases3)
  from tick_log[OF 3(2) t] obtain ws1 where
    w1: "ok q1" "aq_capacity Q q1 = aq_capacity Q q" "length (items q1) \<le> length (items q)" "buffer @ items q = ws1 @ buffer1 @ items q1"
      "snd conn1 = snd conn @ pipe_of ws1" by blast
  from 3(1)[OF w1(1), of conn1 buffer1] 3(3) t obtain ws where
    w: "ok q'" "snd conn' = snd conn1 @ pipe_of ws"
      "subseq (ws @ buffer' @ items q') (buffer1 @ items q1 @ arrivals es)"
      "length (items q1 @ arrivals es) \<le> aq_capacity Q q1 \<longrightarrow>
       ws @ buffer' @ items q' = buffer1 @ items q1 @ arrivals es" by auto
  have "subseq ((ws1 @ ws) @ buffer' @ items q') (buffer @ items q @ arrivals es)"
    using w(3) w1(4) by (metis append_assoc list_emb_append_mono subseq_order.order_refl)
  moreover have "(ws1 @ ws) @ buffer' @ items q' = buffer @ items q @ arrivals es"
    if "length (items q @ arrivals es) \<le> aq_capacity Q q"
  proof -
    have "ws @ buffer' @ items q' = buffer1 @ items q1 @ arrivals es" using w(4) w1(2,3) that by simp
    moreover have "buffer @ items q @ arrivals es = ws1 @ buffer1 @ items q1 @ arrivals es"
      using arg_cong[OF w1(4), of "\<lambda>z. z @ arrivals es"] by simp
    ultimately show ?thesis by simp
  qed
  ultimately show ?case using w(1,2) w1(5) by (intro conjI exI[of _ "ws1 @ ws"]) simp_all
qed

text \<open>The shutdown empties the queue.\<close>

lemma drain_log:
  assumes "ok q"
  shows "\<exists>conn' q' buffer' ws. writer_drain (redis_log works) Q conn q buffer = Some (conn', q', buffer') \<and>
    items q' = [] \<and> snd conn' = snd conn @ pipe_of ws \<and> buffer @ items q = ws @ buffer' \<and>
    ((\<forall>n. works n) \<longrightarrow> buffer' = [])"
  using assms
proof (induction "items q" arbitrary: q conn buffer)
  case Nil
  obtain conn' buffer' where f: "flush_if_any (redis_log works) conn buffer = (conn', buffer')" by fastforce
  have "writer_drain (redis_log works) Q conn q buffer = Some (conn', q, buffer')"
    using pop_empty[OF Nil(2)] Nil(1) f by (subst writer_drain.simps) simp
  then show ?case using flush_any_log[OF f] Nil(1) by auto
next
  case (Cons x xs)
  from pop_some[OF Cons(3) Cons(2)[symmetric]] obtain q1 where
    q1: "aq_pop Q q = (q1, Some x)" "ok q1" "items q1 = xs" by blast
  obtain conn1 buffer1 where
    s: "(if REDIS_FLUSH_MAX_ITEMS \<le> length (buffer @ [x])
         then let (conn, buffer, ok) = flush_redis_buffer (redis_log works) conn (buffer @ [x]) in (conn, buffer)
         else (conn, buffer @ [x])) = (conn1, buffer1)" by fastforce
  obtain ws1 where w1: "buffer @ [x] = ws1 @ buffer1" "snd conn1 = snd conn @ pipe_of ws1"
  proof (cases "REDIS_FLUSH_MAX_ITEMS \<le> length (buffer @ [x])")
    case True
    with s that flush_log(1)[of works conn "buffer @ [x]"] show thesis by (auto split: prod.splits)
  next
    case False
    with s that[of "[]"] show thesis by simp
  qed
  have d: "writer_drain (redis_log works) Q conn q buffer = writer_drain (redis_log works) Q conn1 q1 buffer1"
    by (subst writer_drain.simps) (simp only: q1(1) s[unfolded Let_def] prod.case option.case Let_def)
  from Cons(1)[OF q1(3)[symmetric] q1(2), of conn1 buffer1] obtain conn' q' buffer' ws where
    w: "writer_drain (redis_log works) Q conn1 q1 buffer1 = Some (conn', q', buffer')" "items q' = []"
      "snd conn' = snd conn1 @ pipe_of ws" "buffer1 @ items q1 = ws @ buffer'" "(\<forall>n. works n) \<longrightarrow> buffer' = []"
    by blast
  have "buffer @ items q = (ws1 @ ws) @ buffer'"
    using w1(1) w(4) q1(3) Cons(2) by (metis append.assoc append_Cons append_Nil)
  with w w1(2) d show ?case by (intro exI[of _ conn'] exI[of _ q'] exI[of _ buffer'] exI[of _ "ws1 @ ws"]) simp
qed

end

subsection \<open>The runner without quotes\<close>

locale program_libs =
  trades: dashmap_full "l_trades L" tinv + mq: market_queue "l_mq L" mitems mok + oq: opportunity_pipe "l_oq L" oitems ook
  for L :: "('w, 'm, 'n, 'tm, 'nm, 'mq, 'oq, 'j) libs" and tinv :: "'tm \<Rightarrow> bool"
    and mitems :: "'mq \<Rightarrow> market_update list" and mok :: "'mq \<Rightarrow> bool"
    and oitems :: "'oq \<Rightarrow> arbitrage_opportunity list" and ook :: "'oq \<Rightarrow> bool"
begin

lemma idle_entries: "idle L tinv r \<Longrightarrow> dm_entries (l_trades L) (rn_trades r) = []"
  using trades.entries[of "rn_trades r"] by (cases "dm_entries (l_trades L) (rn_trades r)") (force simp: idle_def)+

lemma idle_prices:
  assumes "rn_store r = MarketDataStore_new"
  shows "\<exists>m. get_prices_from_store L r pair a b = (r\<lparr>rn_symbols := m\<rparr>, Err NoAsk)"
  using assms by (auto simp: get_prices_from_store_def Let_def get_ask_def MarketDataStore_new_def split: prod.splits)

lemma execute_idle:
  assumes "idle L tinv r"
  shows "\<exists>r'. execute_opportunity L r opp = Some r' \<and> idle L tinv r' \<and>
    rn_opportunity_consumer r' = rn_opportunity_consumer r"
proof -
  obtain w u where u: "new_uuid (l_env L) (rn_world r) = (w, u)" by fastforce
  define p where "p = ''placeholder_'' @ u"
  define r0 where "r0 = put_trade L p (placeholder_of p opp) (set_world w r)"
  have s: "rn_store r0 = MarketDataStore_new" using assms by (simp add: r0_def idle_def)
  from idle_prices[OF s] obtain m where
    "get_prices_from_store L r0 (ao_symbol opp) (ao_long_exchange opp) (ao_short_exchange opp) =
      (r0\<lparr>rn_symbols := m\<rparr>, Err NoAsk)" by blast
  then have v: "validate_opportunity L r0 opp = (r0\<lparr>rn_symbols := m\<rparr>, None)"
    by (simp add: validate_opportunity_def get_current_prices_for_opportunity_def)
  have "\<not> has_active_or_exiting_trade L r (ao_symbol opp)"
    using idle_entries[OF assms] by (simp add: has_active_or_exiting_trade_def)
  then have "execute_opportunity L r opp = Some (remove_trade L p (r0\<lparr>rn_symbols := m\<rparr>))"
    unfolding execute_opportunity_def Let_def u prod.case p_def[symmetric] r0_def[symmetric] v by simp
  then show ?thesis using assms
    by (simp add: idle_def r0_def remove_trade_def put_trade_def set_world_def trades.get_insert trades.get_remove
        trades.inv_insert trades.inv_remove)
qed

lemma turn_idle:
  assumes "idle L tinv r" "rn_opportunity_consumer r = Some q"
  shows "\<exists>r'. scanning_turn L r = Some r' \<and> idle L tinv r' \<and>
    rn_opportunity_consumer r' = Some (fst (OpportunityConsumer_pop (l_oq L) q))"
proof -
  have d: "drain_market L r = r" using assms(1) by (simp add: drain_market_def idle_def)
  obtain q' x where x: "OpportunityConsumer_pop (l_oq L) q = (q', x)" by fastforce
  have i: "idle L tinv (r\<lparr>rn_opportunity_consumer := Some q'\<rparr>)" using assms(1) by (simp add: idle_def)
  obtain r1 where r1: "execute_next L r = Some r1" "idle L tinv r1" "rn_opportunity_consumer r1 = Some q'"
    using execute_idle[OF i] i assms(2) x by (cases x) (auto simp: execute_next_def)
  let ?r2 = "set_world (l_sleep_us L (rn_world r1) 100) r1"
  have i2: "idle L tinv ?r2" using r1(2) by (simp add: idle_def set_world_def)
  note e = idle_entries[OF i2]
  have "scanning_turn L r = Some ?r2"
    by (simp add: scanning_turn_def d r1(1) monitor_active_positions_def check_exits_def e[simplified] Let_def)
  with i2 r1(3) x show ?thesis by (simp add: set_world_def)
qed

end

subsection \<open>From quotes to opportunities\<close>

lemma ball_lastn: "(\<forall>x \<in> set xs. P x) \<Longrightarrow> P y \<Longrightarrow> \<forall>x \<in> set (lastn n (xs @ [y])). P x"
  unfolding lastn_def by (auto dest!: in_set_dropD)

lemma sane_getD:
  assumes "sane_store st"
  shows "get_bid st i = Some b \<Longrightarrow> is_finite b" "get_ask st i = Some a \<Longrightarrow> a \<noteq> NaN"
  using assms by (auto simp: sane_store_def store_wf_def get_bid_def get_ask_def Let_def split: if_splits)

lemma sane_store_update:
  assumes "sane_store st" "sane_update u" shows "sane_store (update_from_market_update st u)"
proof -
  have u: "is_finite (mu_bid u)" "mu_ask u \<noteq> NaN"
    using assms(2) by (cases "mu_bid u"; cases "mu_ask u"; simp add: sane_update_def zero_f64_def)+
  let ?st = "update_from_market_update st u"
  have "store_wf ?st" using assms(1) by (simp add: sane_store_def update_from_market_update_def store_wf_update)
  moreover have "set (bids ?st) \<subseteq> insert (mu_bid u) (set (bids st))" "set (asks ?st) \<subseteq> insert (mu_ask u) (set (asks st))"
    using set_update_subset_insert[of "bids st" "unat (mu_symbol_id u)" "mu_bid u"]
      set_update_subset_insert[of "asks st" "unat (mu_symbol_id u)" "mu_ask u"]
    by (auto simp: update_from_market_update_def update_def Let_def)
  moreover have "\<forall>b \<in> insert (mu_bid u) (set (bids st)). is_finite b" "\<forall>a \<in> insert (mu_ask u) (set (asks st)). a \<noteq> NaN"
    using assms(1) u by (simp_all add: sane_store_def)
  ultimately show ?thesis unfolding sane_store_def by (meson subsetD)
qed

lemma detector_ok_frame [simp]:
  "detector_ok oitems ook (d\<lparr>det_symbols := m\<rparr>) = detector_ok oitems ook d"
  "detector_ok oitems ook (d\<lparr>det_market := p\<rparr>) = detector_ok oitems ook d"
  by (simp_all add: detector_ok_def)

lemma get_prices_ok:
  assumes "get_prices T F d e y = (d', p)" "detector_ok oitems ook d"
  shows "detector_ok oitems ook d' \<and> det_market d' = det_market d \<and>
    (\<forall>b a. p = Some (b, a) \<longrightarrow> is_finite b \<and> \<not> b \<le> lit 0 \<and> a \<noteq> NaN \<and> \<not> a \<le> lit 0)"
proof -
  have "sane_store (det_store d)" using assms(2) by (simp add: detector_ok_def)
  from sane_getD[OF this] assms show ?thesis
    by (auto simp: get_prices_def Let_def split: prod.splits option.splits if_splits)
qed

lemma exchanges_ok:
  "detector_ok oitems ook (fst s) \<Longrightarrow> detector_ok oitems ook (fst (foldl (filter_exchange T F y) s es)) \<and>
   det_market (fst (foldl (filter_exchange T F y) s es)) = det_market (fst s)"
proof (induction es arbitrary: s)
  case (Cons e es)
  have "detector_ok oitems ook (fst (filter_exchange T F y s e)) \<and>
      det_market (fst (filter_exchange T F y s e)) = det_market (fst s)"
    using Cons.prems by (cases s) (auto simp: filter_exchange_def split_beta Let_def split: option.splits)
  with Cons.IH[of "filter_exchange T F y s e"] show ?case by simp
qed simp

context program_libs
begin

lemma check_opportunity_ok:
  assumes "detector_ok oitems ook d" "is_finite b" "\<not> b \<le> lit 0" "a \<noteq> NaN" "\<not> a \<le> lit 0"
  shows "detector_ok oitems ook (check_opportunity (l_oq L) now d y l s a b)"
proof -
  have st: "min_spread_bps d = lit 10" "min_confidence d = 70" using assms(1) by (simp_all add: detector_ok_def)
  have pos: "0 < a" "0 < b"
    using assms(2-5) f_not_le[of a "lit 0"] f_not_le[of b "lit 0"] by (cases b; simp add: zero_f64_def)+
  show ?thesis
  proof (cases rule: check_opportunity_cases[OF st, of "l_oq L" now y l s a b])
    case 1
    then show ?thesis using assms(1) by (simp add: detector_ok_def check_opportunity_frame)
  next
    case (2 opp)
    then have "sound_opportunity opp" using pos assms(2) by (simp add: sound_opportunity_def)
    moreover have o: "ook (oq_queue (det_opps d))" "\<forall>opp \<in> set (oitems (oq_queue (det_opps d))). sound_opportunity opp"
      using assms(1) by (simp_all add: detector_ok_def)
    ultimately have "\<forall>x \<in> set (lastn (aq_capacity (l_oq L) (oq_queue (det_opps d)))
        (oitems (oq_queue (det_opps d)) @ [opp])). sound_opportunity x" by (intro ball_lastn)
    then show ?thesis using assms(1) 2(1) oq.pipe.put_law[OF o(1), of opp]
      by (simp add: detector_ok_def check_opportunity_frame)
  qed
qed

lemma check_pair_ok:
  assumes "detector_ok oitems ook d"
  shows "detector_ok oitems ook (check_pair (l_oq L) T F now y d e1 e2) \<and>
    det_market (check_pair (l_oq L) T F now y d e1 e2) = det_market d"
proof -
  obtain d1 p1 where g1: "get_prices T F d e1 y = (d1, p1)" by fastforce
  obtain d2 p2 where g2: "get_prices T F d1 e2 y = (d2, p2)" by fastforce
  note k1 = get_prices_ok[OF g1 assms]
  note k2 = get_prices_ok[OF g2 conjunct1[OF k1]]
  show ?thesis
    using k1 k2 g1 g2 by (auto simp: check_pair_def check_opportunity_frame intro!: check_opportunity_ok split: option.splits)
qed

lemma fold_pairs_ok:
  "detector_ok oitems ook d \<Longrightarrow>
   detector_ok oitems ook (foldl (\<lambda>d (i, j). check_pair (l_oq L) T F now y d (es ! i) (es ! j)) d ps) \<and>
   det_market (foldl (\<lambda>d (i, j). check_pair (l_oq L) T F now y d (es ! i) (es ! j)) d ps) = det_market d"
  by (induction ps arbitrary: d) (auto simp: check_pair_ok split_beta)

lemma detect_symbol_ok:
  assumes "detector_ok oitems ook d"
  shows "detector_ok oitems ook (detect_opportunities_for_symbol (l_oq L) T F now d y e) \<and>
    det_market (detect_opportunities_for_symbol (l_oq L) T F now d y e) = det_market d"
proof -
  obtain d1 es where g: "get_exchanges_for_symbol T F d y = (d1, es)" by fastforce
  have "detector_ok oitems ook d1 \<and> det_market d1 = det_market d"
    using exchanges_ok[of oitems ook "(d, [])" T F y known_exchanges] assms g by (simp add: get_exchanges_for_symbol_def)
  then show ?thesis using g fold_pairs_ok[of d1] by (simp add: detect_opportunities_for_symbol_def)
qed

lemma flow_ok_detect: "flow_ok mitems mok oitems ook s \<Longrightarrow> flow_ok mitems mok oitems ook (detect_step L now s)"
proof -
  assume ok: "flow_ok mitems mok oitems ook s"
  let ?d = "(sy_detector s)\<lparr>det_market := sy_market s, det_symbols := sy_symbols s, det_opps := sy_opportunities s\<rparr>"
  define d' where "d' = detector_step (l_mq L) (l_oq L) (l_to L) (l_from L) now ?d"
  have d: "detector_ok oitems ook ?d" using ok by (simp add: flow_ok_def detector_ok_def)
  have m: "mok (mp_queue (sy_market s))" and u: "\<forall>u \<in> set (mitems (mp_queue (sy_market s))). sane_update u"
    using ok by (simp_all add: flow_ok_def)
  obtain p x where x: "MarketConsumer_pop (l_mq L) (sy_market s) = (p, x)" by fastforce
  have p: "mok (mp_queue p)" "\<forall>u \<in> set (mitems (mp_queue p)). sane_update u" "\<And>u. x = Some u \<Longrightarrow> sane_update u"
    using mq.pipe.get_law[OF m] x u by (auto split: list.splits dest: list.set_sel(2)[rotated])
  have e: "detector_ok oitems ook d' \<and> det_market d' = p"
  proof (cases x)
    case None
    then show ?thesis using x d by (simp add: d'_def detector_step_def detector_ok_def)
  next
    case (Some u)
    let ?d1 = "(?d\<lparr>det_market := p\<rparr>)\<lparr>det_store := update_from_market_update (det_store ?d) u\<rparr>"
    have "detector_ok oitems ook ?d1"
      using d sane_store_update p(3)[OF Some] by (simp add: detector_ok_def)
    from detect_symbol_ok[OF this] this show ?thesis
      using x Some by (auto simp: d'_def detector_step_def Let_def split: option.splits prod.splits)
  qed
  have "detect_step L now s = s\<lparr>sy_detector := d', sy_market := det_market d', sy_symbols := det_symbols d',
      sy_opportunities := det_opps d'\<rparr>" by (simp add: detect_step_def d'_def Let_def)
  then show ?thesis using e p by (simp add: flow_ok_def)
qed

lemma flow_ok_bridge:
  assumes "flow_ok mitems mok oitems ook s"
  shows "flow_ok mitems mok oitems ook (bridge_step L from_str RQ now item s)"
proof -
  obtain m x where x: "parse_to_market_update (l_avx L) (l_json L) from_str (l_to L) (l_from L) now (fst item) (snd item)
      (sy_symbols s) = (m, x)" by fastforce
  have m: "mok (mp_queue (sy_market s))" and u: "\<forall>u \<in> set (mitems (mp_queue (sy_market s))). sane_update u"
    using assms by (simp_all add: flow_ok_def)
  show ?thesis
  proof (cases x)
    case None
    then show ?thesis using assms x by (simp add: bridge_step_def redis_bridge_def flow_ok_def)
  next
    case (Some y)
    note b = ball_lastn[OF u parse_sane[OF x[unfolded Some]]]
    show ?thesis using assms x Some b mq.pipe.put_law[OF m, of y]
      by (simp add: bridge_step_def redis_bridge_def flow_ok_def)
  qed
qed

lemma runner_step_idle:
  assumes "idle L tinv (sy_runner s)" "flow_ok mitems mok oitems ook s"
  obtains s' where "runner_step L s = Some s'" "idle L tinv (sy_runner s')" "flow_ok mitems mok oitems ook s'"
    "oitems (oq_queue (sy_opportunities s')) = tl (oitems (oq_queue (sy_opportunities s)))"
proof -
  let ?q = "sy_opportunities s"
  let ?r = "(sy_runner s)\<lparr>rn_opportunity_consumer := Some ?q, rn_symbols := sy_symbols s\<rparr>"
  have "idle L tinv ?r" using assms(1) by (simp add: idle_def)
  from turn_idle[OF this, of ?q] obtain r where
    r: "scanning_turn L ?r = Some r" "idle L tinv r" "rn_opportunity_consumer r = Some (fst (OpportunityConsumer_pop (l_oq L) ?q))"
    by auto
  have o: "ook (oq_queue ?q)" "\<forall>opp \<in> set (oitems (oq_queue ?q)). sound_opportunity opp"
    using assms(2) by (simp_all add: flow_ok_def detector_ok_def)
  note g = oq.pipe.get_law[OF o(1)]
  have "\<forall>opp \<in> set (tl (oitems (oq_queue ?q))). sound_opportunity opp"
    using o(2) by (cases "oitems (oq_queue ?q)") simp_all
  then show thesis using that r g assms(2) by (simp add: runner_step_def flow_ok_def detector_ok_def)
qed

lemma start_ok:
  assumes "main_start L RQ ex d p = Some s"
  shows "flow_ok mitems mok oitems ook s \<and> idle L tinv (sy_runner s)"
proof -
  obtain r where r: "StrategyRunner_new L ex (lit 20000) (SymbolMap_new (l_to L) (l_from L)) d p = Ok r"
    using assms by (cases "StrategyRunner_new L ex (lit 20000) (SymbolMap_new (l_to L) (l_from L)) d p")
      (auto simp: main_start_def Let_def Option.bind_eq_Some_conv)
  with assms obtain mp oq where n: "MarketPipeline_new (l_mq L) = Some mp"
    "OpportunityQueue_with_capacity (l_oq L) 1024 = Some oq"
    and s: "sy_market s = mp" "sy_opportunities s = oq" "sy_runner s = set_opportunity_consumer r oq"
      "sy_detector s = OpportunityDetector_new mp (SymbolMap_new (l_to L) (l_from L)) oq"
    by (auto simp: main_start_def OpportunityQueue_new_def Let_def Option.bind_eq_Some_conv)
  have "sane_store MarketDataStore_new"
    using store_wf_new by (simp add: sane_store_def MarketDataStore_new_def zero_f64_def)
  then have f: "flow_ok mitems mok oitems ook s"
    using MarketPipeline_new_fresh[OF mq.array_queue_axioms n(1)] OpportunityQueue_new_fresh[OF oq.array_queue_axioms n(2)] s
    by (simp add: flow_ok_def detector_ok_def OpportunityDetector_new_def)
  have "idle L tinv (sy_runner s)"
    using r s(3) by (auto simp: idle_def set_opportunity_consumer_def StrategyRunner_new_def PortfolioManager_new_def
        PortfolioState_new_def trades.inv_new trades.get_new Let_def split: result.splits if_splits)
  with f show ?thesis by simp
qed

lemma main_invariant:
  "main_reach L from_str RQ s \<Longrightarrow> flow_ok mitems mok oitems ook s \<and> idle L tinv (sy_runner s)"
proof (induction rule: main_reach.induct)
  case (start ex d p s)
  then show ?case by (rule start_ok)
next
  case (bridge s now item)
  then have "flow_ok mitems mok oitems ook (bridge_step L from_str RQ now item s)" by (intro flow_ok_bridge) simp
  moreover have "sy_runner (bridge_step L from_str RQ now item s) = sy_runner s" by (simp add: bridge_step_def Let_def)
  ultimately show ?case using bridge by simp
next
  case (detect s now)
  then have "flow_ok mitems mok oitems ook (detect_step L now s)" by (intro flow_ok_detect) simp
  moreover have "sy_runner (detect_step L now s) = sy_runner s" by (simp add: detect_step_def Let_def)
  ultimately show ?case using detect by simp
next
  case (runner s s')
  then show ?case using runner_step_idle[of s] by (metis option.inject)
next
  case (writer s ok)
  then show ?case by (simp add: writer_step_def flow_ok_def split: prod.splits)
next
  case (world s w)
  then show ?case by (simp add: flow_ok_def idle_def set_world_def)
qed

end

lemma program_libsI:
  "dashmap_full (l_trades L) tinv \<Longrightarrow> array_queue (l_mq L) mitems mok \<Longrightarrow> array_queue (l_oq L) oitems ook \<Longrightarrow>
   program_libs L tinv mitems mok oitems ook"
  by (simp add: program_libs_def market_queue_def opportunity_pipe_def)

interpretation sample_program: program_libs "sample_libs blocks" "\<lambda>m. distinct (map fst m)" snd lq_ok snd lq_ok
  by (intro program_libsI sample_maps) (simp_all add: sample_libs_def list_queue.array_queue_axioms)

text \<open>A price beyond the range of \<open>f64\<close> is read as infinity, which passes the validation as an ask; against it the
  spread is NaN, every comparison of the filters is false, and the opportunity is published.\<close>

lemma mk_overflow:
  assumes "2 powi 1024 \<le> r" shows "mk s r = PInf"
proof -
  have "rnd (2 powi 1024) = 2 powi 1024" by (rule rnd_exact[of _ 1 1024]) simp_all
  then have le: "2 powi 1024 \<le> rnd r" using rnd_mono[OF assms] by simp
  then have pos: "0 < rnd r" by (rule order_less_le_trans[rotated]) (simp only: zero_less_power_int zero_less_numeral)
  have "1024 \<le> ilog2 \<bar>rnd r\<bar>" using le pos by (intro ilog2_ge) (simp_all only: abs_of_pos)
  with pos show ?thesis by (simp add: mk_simps)
qed

lemma huge_price_infinite: "parse_price_simd avx ''1e999'' = Some PInf"
proof -
  have d: "is_ascii_digit CHR ''1''" "is_ascii_digit CHR ''9''" "\<not> is_ascii_digit CHR ''e''" "digit_val CHR ''1'' = 1"
    "digit_val CHR ''9'' = 9" by code_simp+
  have "parse_exponent ''e999'' = Some 999" by (simp add: parse_exponent_def d digits_val_def)
  moreover have "parse_unsigned ''1e999'' = map_option (\<lambda>e. 1 * 10 powi (e - 0)) (parse_exponent ''e999'')"
    by (simp add: parse_unsigned_def d digits_val_def)
  ultimately have u: "parse_unsigned ''1e999'' = Some (10 powi 999)" by (simp only: option.map mult_1 diff_zero)
  have "(2 :: rat) ^ 1024 \<le> 2 ^ (3 * 999)" by (rule power_increasing) simp_all
  also have "\<dots> = 8 ^ 999" by (subst power_mult) simp
  also have "\<dots> \<le> 10 ^ 999" by (rule power_mono) simp_all
  finally have "(2 :: rat) powi 1024 \<le> 10 powi 999" by (simp only: power_int_numeral)
  with u have "std_parse ''1e999'' = Some PInf" by (simp add: std_parse_def mk_overflow del: power_int_numeral)
  moreover have "parse_price_fast ''1e999'' = std_parse ''1e999''" by (simp add: parse_price_fast_def split_sign_def d)
  ultimately show ?thesis by (simp add: parse_price_simd_def avx_fast)
qed

lemma infinite_ask_published:
  assumes "min_spread_bps d = lit 10" "min_funding_delta d = lit 0.0001" "min_confidence d = 70" "is_finite b"
  shows "\<exists>opp. det_opps (check_opportunity OQ now d y l s PInf b) = OpportunityProducer_push OQ (det_opps d) opp \<and>
    ao_spread_bps opp = NaN"
proof -
  have s: "((b - PInf) / PInf) * lit 10000 = NaN"
    using assms(4) by (cases b) (simp_all add: minus_f64_def divide_f64_def times_f64_def Let_def)
  have c: "calculate_confidence NaN (lit 0.0002) = 70" "\<not> \<bar>lit 0.0002\<bar> < lit 0.0001" by code_simp+
  have p: "NaN - x - lit 3 - lit 10 = NaN" for x by (simp add: minus_f64_def)
  show ?thesis
    unfolding check_opportunity_def Let_def s p get_funding_delta_def
    using assms c by (simp add: opportunity_of_def) (intro exI conjI, rule refl, simp)
qed

lemma sample_started: "\<exists>s. sample_main = Some s"
  by (simp add: sample_main_def main_start_def Let_def MarketPipeline_new_def OpportunityQueue_new_def
      OpportunityQueue_with_capacity_def StrategyRunner_new_def PortfolioManager_new_def sample_libs_def list_queue_def
      REDIS_QUEUE_CAPACITY_def MARKET_QUEUE_CAPACITY_def)

lemma sample_bridged:
  "sample_main = Some s \<Longrightarrow> main_reach (sample_libs False) sample_reader list_queue
     (bridge_step (sample_libs False) sample_reader list_queue now sample_message s)"
  by (rule main_reach.bridge[OF main_reach.start]) (simp add: sample_main_def)

lemma sample_queues:
  "array_queue (l_mq (sample_libs b)) snd lq_ok" "array_queue (l_oq (sample_libs b)) snd lq_ok"
  by (simp_all add: sample_libs_def array_queue_list)

lemma sample_parse:
  "parse_to_market_update False value_ops sample_reader alist_ops alist_ops 7 (fst sample_message) (snd sample_message)
     sample_symbols =
   (\<lparr>to_id = [((''bybit'', ''BTCUSDT''), 1)], from_id = [(1, (''bybit'', ''BTCUSDT''))], next_id = 2\<rparr>,
    Some (MarketUpdate_new 1 (lit 99.5) (lit 100) 7))"
  by code_simp

section \<open>Properties\<close>

text \<open>C11. A message becomes a market update only with a quote: the update has a positive bid below its ask,
  neither of them NaN, and the time of the reading, and its ID stands for the exchange and the normalised symbol
  of the key from then on, while every ID handed out before keeps its meaning.  A message without a usable quote
  leaves the symbol map as it was.\<close>

theorem bridge_message:
  assumes "dashmap T tinv" "dashmap F finv" "sm_inv T F tinv finv m" "sm_room m"
    and "parse_to_market_update avx J from_str T F now key value m = (m', parsed)"
  shows "sm_inv T F tinv finv m' \<and> (\<forall>j k. SymbolMap_get F m j = Some k \<longrightarrow> SymbolMap_get F m' j = Some k) \<and>
    (case parsed of
       None \<Rightarrow> m' = m
     | Some u \<Rightarrow> 0 < mu_bid u \<and> mu_bid u < mu_ask u \<and> mu_timestamp_us u = now \<and>
         SymbolMap_get F m' (mu_symbol_id u) =
           Some (hd (split_on (CHR '':'') key), normalize_symbol (last (split_on (CHR '':'') key))))"
proof (cases "message_quote avx J from_str key value")
  case None
  with assms show ?thesis by (simp add: parse_to_market_update_def)
next
  case (Some q)
  obtain e y bid ask where q: "q = (e, y, bid, ask)" by (cases q)
  note quote = Some[unfolded q]
  have k: "e = hd (split_on (CHR '':'') key)" "y = normalize_symbol (last (split_on (CHR '':'') key))"
    using quote by (auto simp: message_quote_def Let_def Option.bind_eq_Some_conv split: if_splits)
  obtain i where g: "get_or_insert T F m e y = (m', i)" and p: "parsed = Some (MarketUpdate_new i bid ask now)"
    using assms(5) quote by (auto simp: parse_to_market_update_def split: prod.splits)
  show ?thesis using get_or_insert_roundtrip[OF assms(1-4) g] message_quote_sane[OF quote] p k
    by (simp add: MarketUpdate_new_def)
qed

theorem bridge_message_witness:
  "\<exists>m' u. parse_to_market_update False value_ops sample_reader alist_ops alist_ops 7 (fst sample_message)
       (snd sample_message) sample_symbols = (m', Some u) \<and>
     0 < mu_bid u \<and> mu_bid u < mu_ask u \<and> SymbolMap_get alist_ops m' (mu_symbol_id u) = Some (''bybit'', ''BTCUSDT'')"
proof -
  have inv: "sm_inv alist_ops alist_ops (\<lambda>_. True) (\<lambda>_. True) sample_symbols"
    using alist_pair.sm_inv_empty by (simp add: sample_symbols_def alist_ops_def)
  have room: "sm_room sample_symbols" by (simp add: sm_room_def sample_symbols_def)
  have k: "hd (split_on (CHR '':'') (fst sample_message)) = ''bybit''"
    "normalize_symbol (last (split_on (CHR '':'') (fst sample_message))) = ''BTCUSDT''" by code_simp+
  from bridge_message[OF dashmap_alist dashmap_alist inv room sample_parse] sample_parse
  show ?thesis unfolding k by auto
qed



text \<open>C3. Opportunities in the queue are sound.  In every state that the program reaches, under every interleaving
  of bridge, detector, runner and writer and with any messages, each queued opportunity has positive prices and
  passes the filters of the detector, and unless its long price is infinite its spread is at least 49 basis points
  and its profit after fees, slippage and funding is positive.\<close>

theorem queued_opportunities_sound:
  assumes "dashmap_full (l_trades L) tinv" "array_queue (l_mq L) mitems mok" "array_queue (l_oq L) oitems ook"
    and "main_reach L from_str RQ s"
  shows "\<forall>opp \<in> set (oitems (oq_queue (sy_opportunities s))).
    0 < ao_long_price opp \<and> 0 < ao_short_price opp \<and> passes_filters opp \<and>
    (ao_long_price opp = PInf \<or> lit 49 \<le> ao_spread_bps opp \<and> 0 < ao_projected_profit_after_slippage opp)"
proof
  fix opp assume opp: "opp \<in> set (oitems (oq_queue (sy_opportunities s)))"
  have "flow_ok mitems mok oitems ook s"
    using program_libs.main_invariant[OF program_libsI[OF assms(1-3)] assms(4)] by simp
  then have o: "sound_opportunity opp" using opp by (simp add: flow_ok_def detector_ok_def)
  moreover have "ao_long_price opp = PInf \<or> is_finite (ao_long_price opp)"
    using o by (cases "ao_long_price opp") (auto simp: sound_opportunity_def zero_f64_def)
  ultimately show "0 < ao_long_price opp \<and> 0 < ao_short_price opp \<and> passes_filters opp \<and>
      (ao_long_price opp = PInf \<or> lit 49 \<le> ao_spread_bps opp \<and> 0 < ao_projected_profit_after_slippage opp)"
    using published_spread_at_least_49[of opp] by (auto simp: sound_opportunity_def)
qed

theorem queued_opportunities_sound_witness:
  "\<exists>s. sample_main = Some s \<and> (\<forall>opp \<in> set (snd (oq_queue (sy_opportunities (detect_step (sample_libs False) 8
       (bridge_step (sample_libs False) sample_reader list_queue 7 sample_message s))))). passes_filters opp)"
proof -
  obtain s where s: "sample_main = Some s" using sample_started by blast
  note r = main_reach.detect[OF sample_bridged[OF s], of 8]
  from queued_opportunities_sound[OF sample_maps(1) sample_queues r] s show ?thesis by blast
qed

text \<open>C9. The program as it is wired never trades.  \<open>main\<close> gives the runner no consumer of market updates, so in
  every state that the program reaches the runner's store has no quote, its book and the portfolio have no trade,
  and the next turn of its loop ends and takes one opportunity from the queue without executing it.\<close>

theorem main_never_trades:
  assumes "dashmap_full (l_trades L) tinv" "array_queue (l_mq L) mitems mok" "array_queue (l_oq L) oitems ook"
    and "main_reach L from_str RQ s"
  shows "(\<forall>i. trade_at L (sy_runner s) i = None) \<and> ps_active_trades (pfm_state (rn_portfolio (sy_runner s))) = [] \<and>
    (\<forall>i. get_ask (rn_store (sy_runner s)) i = None) \<and>
    (\<exists>s'. runner_step L s = Some s' \<and>
       oitems (oq_queue (sy_opportunities s')) = tl (oitems (oq_queue (sy_opportunities s))) \<and>
       (\<forall>i. trade_at L (sy_runner s') i = None))"
proof -
  note l = program_libsI[OF assms(1-3)]
  note inv = program_libs.main_invariant[OF l assms(4)]
  obtain s' where "runner_step L s = Some s'" "idle L tinv (sy_runner s')"
    "oitems (oq_queue (sy_opportunities s')) = tl (oitems (oq_queue (sy_opportunities s)))"
    using program_libs.runner_step_idle[OF l conjunct2[OF inv] conjunct1[OF inv]] by metis
  with inv show ?thesis by (simp add: idle_def get_ask_def MarketDataStore_new_def)
qed

theorem main_never_trades_witness:
  "\<exists>s s'. sample_main = Some s \<and> runner_step (sample_libs False) (bridge_step (sample_libs False) sample_reader
       list_queue 7 sample_message s) = Some s' \<and> (\<forall>i. trade_at (sample_libs False) (sy_runner s') i = None)"
proof -
  obtain s where s: "sample_main = Some s" using sample_started by blast
  from main_never_trades[OF sample_maps(1) sample_queues sample_bridged[OF s]] s show ?thesis by blast
qed

end
