(* ===== verification/Connectors.thy ===== *)
theory Connectors
  imports Program Bybit "HOL-Library.AList" "HOL-Library.List_Lexorder" "HOL-Library.Char_ord"
begin

text \<open>
  The connectors, src/src/bybit.rs, okx.rs, kucoin.rs, bitget.rs, hyperliquid.rs, paradex.rs and binance.rs,
  with what they share in utils.rs: which instruments are followed, how they are spread over connections and
  subscribed, what becomes of each frame that arrives, and when a connection is opened again.

  The services are the record \<open>feed\<close>, an argument of every operation: JSON values, the WebSocket, the channel
  to the bridge, the producer of market updates, clock and sleep, over a state \<open>'w\<close> of the world.  What the
  HTTP requests for the instruments answer is an argument, already decoded as serde decodes it.  A connection
  is driven by the list of its events; a turn of its loop continues, leaves the loop, or fails.  Bytes are
  strings; the log output, with its flag for the first message, is left out, as is the pinning of threads.
\<close>

section \<open>Services\<close>

datatype ws_frame = Text string | Binary string | Ping string | Pong string | Close | OtherFrame

datatype ws_event = PingTick | Frame ws_frame | ReadError string | StreamEnd

datatype ws_out = SendText string | SendPing | SendPong string

record ('w, 'j) feed =
  fd_json :: "'j json_ops"
  as_object :: "'j \<Rightarrow> (string \<times> 'j) list option"
  obj_insert :: "'j \<Rightarrow> string \<Rightarrow> 'j \<Rightarrow> 'j"
  json_obj :: "(string \<times> 'j) list \<Rightarrow> 'j"
  json_str :: "string \<Rightarrow> 'j"
  json_arr :: "'j list \<Rightarrow> 'j"
  json_bool :: "bool \<Rightarrow> 'j"
  json_num :: "nat \<Rightarrow> 'j"
  value_to_string :: "'j \<Rightarrow> string"
  serde_to_string :: "'j \<Rightarrow> (string, string) result"
  from_slice :: "string \<Rightarrow> 'j option"
  ws_connect :: "'w \<Rightarrow> string \<Rightarrow> 'w \<times> (unit, string) result"
  ws_send :: "'w \<Rightarrow> ws_out \<Rightarrow> 'w \<times> (unit, string) result"
  tx_send :: "'w \<Rightarrow> message \<Rightarrow> 'w \<times> bool"
  tx_try_send :: "'w \<Rightarrow> message \<Rightarrow> 'w \<times> bool"
  producer_push :: "'w \<Rightarrow> market_update \<Rightarrow> 'w"
  fd_unix_nanos :: "'w \<Rightarrow> nat"
  fd_instant :: "'w \<Rightarrow> nat"
  fd_sleep_ms :: "'w \<Rightarrow> u64 \<Rightarrow> 'w"

definition as_micros_u64 :: "nat \<Rightarrow> u64" where
  "as_micros_u64 nanos = of_nat (nanos div 1000)"

text \<open>\<open>str::trim_start_matches\<close> of a non-empty pattern, \<open>slice::join\<close>, and \<open>sort\<close> with \<open>dedup\<close>.\<close>

function trim_start_matches :: "string \<Rightarrow> string \<Rightarrow> string" where
  "trim_start_matches pat s =
     (if pat \<noteq> [] \<and> prefix pat s then trim_start_matches pat (drop (length pat) s) else s)"
  by pat_completeness auto
termination by (relation "measure (length \<circ> snd)") (auto simp: prefix_def)

declare trim_start_matches.simps [simp del]

fun str_join :: "string \<Rightarrow> string list \<Rightarrow> string" where
  "str_join sep [] = []"
| "str_join sep [x] = x"
| "str_join sep (x # y # xs) = x @ sep @ str_join sep (y # xs)"

definition sort_dedup :: "string list \<Rightarrow> string list" where
  "sort_dedup xs = remdups_adj (sort xs)"

section \<open>utils.rs\<close>

function chunk_loop :: "'a list \<Rightarrow> nat \<Rightarrow> nat \<Rightarrow> 'a list list" where
  "chunk_loop items chunk_size idx =
     (if idx < length items \<and> 0 < chunk_size then
        let end = min (idx + chunk_size) (length items)
        in take (end - idx) (drop idx items) # chunk_loop items chunk_size end
      else [])"
  by pat_completeness auto
termination by (relation "measure (\<lambda>(items, n, idx). length items - idx)") auto

declare chunk_loop.simps [simp del]

definition chunk_vec :: "'a list \<Rightarrow> nat \<Rightarrow> 'a list list" where
  "chunk_vec items chunk_size = (if chunk_size = 0 then [] else chunk_loop items chunk_size 0)"

text \<open>\<open>slice::chunks\<close>.\<close>

function chunks :: "nat \<Rightarrow> 'a list \<Rightarrow> 'a list list" where
  "chunks n xs = (if xs = [] \<or> n = 0 then [] else take n xs # chunks n (drop n xs))"
  by pat_completeness auto
termination by (relation "measure (length \<circ> snd)") auto

declare chunks.simps [simp del]

definition reset_backoff :: "u64 \<Rightarrow> u64" where
  "reset_backoff backoff_ms = 0"

definition apply_backoff :: "('w, 'j) feed \<Rightarrow> 'w \<Rightarrow> u64 \<Rightarrow> 'w \<times> u64" where
  "apply_backoff D w backoff_ms =
     (if backoff_ms > 0 then (fd_sleep_ms D w backoff_ms, min (backoff_ms * 2) 10000) else (w, 250))"

fun subscribe_chunks ::
  "('w, 'j) feed \<Rightarrow> u64 \<Rightarrow> ('w \<Rightarrow> 'a list \<Rightarrow> 'w \<times> (unit, string) result) \<Rightarrow> 'w \<Rightarrow> 'a list list \<Rightarrow>
   'w \<times> (unit, string) result" where
  "subscribe_chunks D delay_ms f w [] = (w, Ok ())"
| "subscribe_chunks D delay_ms f w (chunk # cs) =
     (case f w chunk of
        (w, Err e) \<Rightarrow> (w, Err e)
      | (w, Ok _) \<Rightarrow>
          subscribe_chunks D delay_ms f (if delay_ms > 0 then fd_sleep_ms D w delay_ms else w) cs)"

definition subscribe_in_batches ::
  "('w, 'j) feed \<Rightarrow> 'w \<Rightarrow> 'a list \<Rightarrow> nat \<Rightarrow> u64 \<Rightarrow> ('w \<Rightarrow> 'a list \<Rightarrow> 'w \<times> (unit, string) result) \<Rightarrow>
   'w \<times> (unit, string) result" where
  "subscribe_in_batches D w items batch_size delay_ms f =
     (if batch_size = 0 then (w, Ok ()) else subscribe_chunks D delay_ms f w (chunks batch_size items))"

section \<open>Connections\<close>

text \<open>A turn of the loop of a connection, and the loop; \<open>Open\<close> is a connection whose events are used up.\<close>

datatype 's turn = Continue 's | Break 's | Fail 's string

datatype session_end = Open | Ended | Failed string

fun read_loop :: "('s \<Rightarrow> ws_event \<Rightarrow> 's turn) \<Rightarrow> 's \<Rightarrow> ws_event list \<Rightarrow> 's \<times> session_end" where
  "read_loop turn s [] = (s, Open)"
| "read_loop turn s (e # es) =
     (case turn s e of
        Continue s \<Rightarrow> read_loop turn s es
      | Break s \<Rightarrow> (s, Ended)
      | Fail s err \<Rightarrow> (s, Failed err))"

fun frame_bytes :: "ws_frame \<Rightarrow> string option" where
  "frame_bytes (Text text) = Some text"
| "frame_bytes (Binary bytes) = Some bytes"
| "frame_bytes _ = None"

text \<open>\<open>tokio::select!\<close> over the ping timer and the next frame: a failed ping and the end of the stream leave
  the loop, an error of the stream fails it, and a frame without data is skipped.\<close>

definition select_turn ::
  "('w, 'j) feed \<Rightarrow> ('w \<Rightarrow> ws_out) \<Rightarrow> ('st \<Rightarrow> 'w \<Rightarrow> string \<Rightarrow> ('st \<times> 'w) turn) \<Rightarrow> 'st \<times> 'w \<Rightarrow> ws_event \<Rightarrow>
   ('st \<times> 'w) turn" where
  "select_turn D ping on_bytes s event =
     (case (s, event) of
        ((st, w), PingTick) \<Rightarrow>
          (case ws_send D w (ping w) of (w, Ok _) \<Rightarrow> Continue (st, w) | (w, Err _) \<Rightarrow> Break (st, w))
      | ((st, w), ReadError e) \<Rightarrow> Fail (st, w) e
      | ((st, w), StreamEnd) \<Rightarrow> Break (st, w)
      | ((st, w), Frame frame) \<Rightarrow>
          (case frame_bytes frame of Some bytes \<Rightarrow> on_bytes st w bytes | None \<Rightarrow> Continue (st, w)))"

text \<open>\<open>if tx.send(..).await.is_err() { break; }\<close> for each message in turn.\<close>

fun publish :: "('w, 'j) feed \<Rightarrow> 'st \<Rightarrow> 'w \<Rightarrow> message list \<Rightarrow> ('st \<times> 'w) turn" where
  "publish D st w [] = Continue (st, w)"
| "publish D st w (m # ms) =
     (case tx_send D w m of (w, True) \<Rightarrow> publish D st w ms | (w, False) \<Rightarrow> Break (st, w))"

text \<open>A message with its payload still a value: serialisation may fail, which fails the connection.\<close>

definition publish_value ::
  "('w, 'j) feed \<Rightarrow> 'st \<Rightarrow> 'w \<Rightarrow> (string \<times> 'j) option \<Rightarrow> ('st \<times> 'w) turn" where
  "publish_value D st w out =
     (case out of
        None \<Rightarrow> Continue (st, w)
      | Some (key, v) \<Rightarrow>
          (case serde_to_string D v of
             Err e \<Rightarrow> Fail (st, w) e
           | Ok payload \<Rightarrow> publish D st w [(key, payload)]))"

text \<open>The loop of a worker: a connection that ended is opened again at once, one that failed after the
  backoff.\<close>

definition worker_turn ::
  "('w, 'j) feed \<Rightarrow> ('w \<Rightarrow> 'w \<times> session_end) \<Rightarrow> 'w \<times> u64 \<Rightarrow> 'w \<times> u64" where
  "worker_turn D run_batch s =
     (case s of (w, backoff_ms) \<Rightarrow>
        (case run_batch w of
           (w, Failed _) \<Rightarrow> apply_backoff D w backoff_ms
         | (w, _) \<Rightarrow> (w, reset_backoff backoff_ms)))"

text \<open>Connect, subscribe, read.\<close>

definition session ::
  "('w, 'j) feed \<Rightarrow> string \<Rightarrow> ('w \<Rightarrow> 'w \<times> (unit, string) result) \<Rightarrow> ('st \<times> 'w \<Rightarrow> ws_event \<Rightarrow> ('st \<times> 'w) turn) \<Rightarrow>
   'st \<Rightarrow> ws_event list \<Rightarrow> 'w \<Rightarrow> 'w \<times> session_end" where
  "session D url subscribe turn st events w =
     (case ws_connect D w url of
        (w, Err e) \<Rightarrow> (w, Failed e)
      | (w, Ok _) \<Rightarrow>
          (case subscribe w of
             (w, Err e) \<Rightarrow> (w, Failed e)
           | (w, Ok _) \<Rightarrow> (case read_loop turn (st, w) events of ((st, w), outcome) \<Rightarrow> (w, outcome))))"

text \<open>The request at the start of a connector: a status other than success ends the process.\<close>

datatype check = CheckOk | CheckExit | CheckErr string

definition connection_check :: "(bool, string) result \<Rightarrow> check" where
  "connection_check response =
     (case response of Err e \<Rightarrow> CheckErr e | Ok success \<Rightarrow> if success then CheckOk else CheckExit)"

text \<open>\<open>run\<close> of a connector: the check, the instruments, and the batches that its workers are started with.\<close>

datatype start = Exit | StartErr string | Started "string list list"

definition connector_run ::
  "(bool, string) result \<Rightarrow> (string list, string) result \<Rightarrow> (string list \<Rightarrow> string list list) \<Rightarrow> start" where
  "connector_run response fetched workers =
     (case connection_check response of
        CheckErr e \<Rightarrow> StartErr e
      | CheckExit \<Rightarrow> Exit
      | CheckOk \<Rightarrow> (case fetched of Err e \<Rightarrow> StartErr e | Ok symbols \<Rightarrow> Started (workers symbols)))"

text \<open>\<open>v.get(k).and_then(as_str)\<close>, with \<open>parse::<f64>\<close> after it, and the same along a path.\<close>

definition get_str :: "('w, 'j) feed \<Rightarrow> 'j \<Rightarrow> string \<Rightarrow> string option" where
  "get_str D v k = Option.bind (j_get (fd_json D) v k) (j_as_str (fd_json D))"

definition get_number :: "('w, 'j) feed \<Rightarrow> 'j \<Rightarrow> string \<Rightarrow> f64 option" where
  "get_number D v k = Option.bind (get_str D v k) std_parse"

definition path_str :: "('w, 'j) feed \<Rightarrow> string list \<Rightarrow> 'j \<Rightarrow> string option" where
  "path_str D ks v = Option.bind (path (fd_json D) ks v) (j_as_str (fd_json D))"

definition unwrap_str :: "string option \<Rightarrow> string" where
  "unwrap_str s = (case s of Some t \<Rightarrow> t | None \<Rightarrow> [])"

text \<open>The hot path: with both prices and a known symbol, an update goes to the producer.\<close>

definition push_quote :: "('w, 'j) feed \<Rightarrow> string \<Rightarrow> f64 option \<Rightarrow> f64 option \<Rightarrow> 'w \<Rightarrow> 'w" where
  "push_quote D symbol bid ask w =
     (case (bid, ask) of
        (Some bid, Some ask) \<Rightarrow>
          (case symbol_to_id symbol of
             Some symbol_id \<Rightarrow>
               producer_push D w (MarketUpdate_new symbol_id bid ask (as_micros_u64 (fd_unix_nanos D w)))
           | None \<Rightarrow> w)
      | _ \<Rightarrow> w)"

definition insert_all :: "('w, 'j) feed \<Rightarrow> 'j \<Rightarrow> (string \<times> 'j) list \<Rightarrow> 'j" where
  "insert_all D obj fs = foldl (\<lambda>x (k, v). obj_insert D x k v) obj fs"

definition subscribe_op :: "('w, 'j) feed \<Rightarrow> 'j \<Rightarrow> ws_out" where
  "subscribe_op D args =
     SendText (value_to_string D (json_obj D [(''op'', json_str D ''subscribe''), (''args'', args)]))"

section \<open>bybit.rs\<close>

record instrument_info =
  ii_symbol :: string
  ii_status :: string
  ii_quote_coin :: "string option"

record instruments_result =
  ir_list :: "instrument_info list"
  ir_next_page_cursor :: "string option"

record instruments_response =
  ip_ret_code :: int
  ip_result :: "instruments_result option"

definition is_linear :: "instrument_info \<Rightarrow> bool" where
  "is_linear i \<longleftrightarrow> ii_status i = ''Trading'' \<and> ii_quote_coin i = Some ''USDT''"

definition next_cursor :: "instruments_result \<Rightarrow> string option" where
  "next_cursor r = Option.bind (ir_next_page_cursor r) (\<lambda>c. if c = [] then None else Some c)"

text \<open>The loop over the pages; \<open>get_page\<close> asks for the page of a cursor.\<close>

partial_function (option) fetch_pages ::
  "('w \<Rightarrow> string option \<Rightarrow> 'w \<times> (instruments_response, string) result) \<Rightarrow> 'w \<Rightarrow> string option \<Rightarrow> string list \<Rightarrow>
   ('w \<times> (string list, string) result) option" where
  "fetch_pages get_page w cursor symbols =
     (case get_page w cursor of
        (w, Err e) \<Rightarrow> Some (w, Err e)
      | (w, Ok resp) \<Rightarrow>
          if ip_ret_code resp \<noteq> 0
          then Some (w, Err (''Bybit instruments-info returned retCode='' @ int_str (ip_ret_code resp)))
          else case ip_result resp of
            None \<Rightarrow> Some (w, Ok symbols)
          | Some r \<Rightarrow>
              let symbols = symbols @ map ii_symbol (filter is_linear (ir_list r));
                  cursor = next_cursor r
              in if cursor = None then Some (w, Ok symbols) else fetch_pages get_page w cursor symbols)"

definition fetch_valid_linear_symbols ::
  "('w \<Rightarrow> string option \<Rightarrow> 'w \<times> (instruments_response, string) result) \<Rightarrow> 'w \<Rightarrow>
   ('w \<times> (string list, string) result) option" where
  "fetch_valid_linear_symbols get_page w =
     map_option (\<lambda>(w, r). (w, case r of Ok symbols \<Rightarrow> Ok (sort_dedup symbols) | Err e \<Rightarrow> Err e))
       (fetch_pages get_page w None [])"

definition bybit_topics :: "string list \<Rightarrow> string list" where
  "bybit_topics symbols = map (\<lambda>s. ''tickers.'' @ s) symbols @ map (\<lambda>s. ''funding.'' @ s) symbols"

definition bybit_workers :: "string list \<Rightarrow> string list list" where
  "bybit_workers symbols = chunk_vec (bybit_topics symbols) 100"

definition bybit_subscribe :: "('w, 'j) feed \<Rightarrow> string list \<Rightarrow> 'w \<Rightarrow> 'w \<times> (unit, string) result" where
  "bybit_subscribe D topics w =
     subscribe_in_batches D w topics 10 100
       (\<lambda>w chunk. ws_send D w (subscribe_op D (json_arr D (map (json_str D) chunk))))"

definition bybit_topic :: "string \<Rightarrow> (string \<times> string) option" where
  "bybit_topic topic =
     (if prefix ''tickers.'' topic then Some (''tickers'', trim_start_matches ''tickers.'' topic)
      else if prefix ''funding.'' topic then Some (''funding'', trim_start_matches ''funding.'' topic)
      else None)"

definition bybit_hot :: "('w, 'j) feed \<Rightarrow> 'j \<Rightarrow> string \<Rightarrow> 'w \<Rightarrow> 'w" where
  "bybit_hot D v symbol w =
     (case j_get (fd_json D) v ''data'' of
        Some data \<Rightarrow> push_quote D symbol (get_number D data ''bid1Price'') (get_number D data ''ask1Price'') w
      | None \<Rightarrow> w)"

definition top_fields :: "('w, 'j) feed \<Rightarrow> 'j \<Rightarrow> (string \<times> 'j) list" where
  "top_fields D v =
     filter (\<lambda>(k, x). k \<noteq> ''data'') (case as_object D v of Some fs \<Rightarrow> fs | None \<Rightarrow> [])"

definition merge_ticker :: "('w, 'j) feed \<Rightarrow> 'j \<Rightarrow> 'j \<Rightarrow> 'j \<Rightarrow> 'j" where
  "merge_ticker D state v data =
     (let state = (case j_get (fd_json D) state ''data'' of
            Some state_data \<Rightarrow>
              (if as_object D state_data \<noteq> None then
                 case as_object D data of
                   Some new_data \<Rightarrow> obj_insert D state ''data'' (insert_all D state_data new_data)
                 | None \<Rightarrow> state
               else state)
          | None \<Rightarrow> state)
      in if as_object D state \<noteq> None then insert_all D state (top_fields D v) else state)"

text \<open>What a parsed message does: the merged tickers, and the message to publish.\<close>

definition bybit_message ::
  "('w, 'j) feed \<Rightarrow> (string \<rightharpoonup> 'j) \<Rightarrow> string \<Rightarrow> string \<Rightarrow> 'j \<Rightarrow> (string \<rightharpoonup> 'j) \<times> (string \<times> 'j) option" where
  "bybit_message D ticker_state key_type symbol v =
     (let key = ''bybit:linear:'' @ key_type @ '':'' @ symbol in
      if key_type = ''tickers'' then
        case j_get (fd_json D) v ''data'' of
          None \<Rightarrow> (ticker_state, None)
        | Some data \<Rightarrow>
            let state = (case ticker_state symbol of Some state \<Rightarrow> state | None \<Rightarrow> v);
                state = merge_ticker D state v data
            in (ticker_state(symbol \<mapsto> state), Some (key, state))
      else (ticker_state, Some (key, v)))"

definition bybit_bytes ::
  "('w, 'j) feed \<Rightarrow> bool \<Rightarrow> (string \<rightharpoonup> 'j) \<Rightarrow> 'w \<Rightarrow> string \<Rightarrow> ((string \<rightharpoonup> 'j) \<times> 'w) turn" where
  "bybit_bytes D producer ticker_state w bytes =
     (case from_slice D bytes of
        None \<Rightarrow> Continue (ticker_state, w)
      | Some v \<Rightarrow>
          (case Option.bind (get_str D v ''topic'') bybit_topic of
             None \<Rightarrow> Continue (ticker_state, w)
           | Some (key_type, symbol) \<Rightarrow>
               let w = (if key_type = ''tickers'' \<and> producer then bybit_hot D v symbol w else w);
                   (ticker_state, out) = bybit_message D ticker_state key_type symbol v
               in publish_value D ticker_state w out))"

definition bybit_ping :: "('w, 'j) feed \<Rightarrow> 'w \<Rightarrow> ws_out" where
  "bybit_ping D w = SendText (value_to_string D (json_obj D [(''op'', json_str D ''ping'')]))"

definition run_bybit_linear_ws_batch ::
  "('w, 'j) feed \<Rightarrow> bool \<Rightarrow> string list \<Rightarrow> ws_event list \<Rightarrow> 'w \<Rightarrow> 'w \<times> session_end" where
  "run_bybit_linear_ws_batch D producer topics events w =
     session D ''wss://stream.bybit.com/v5/public/linear'' (bybit_subscribe D topics)
       (select_turn D (bybit_ping D) (bybit_bytes D producer)) Map.empty events w"

definition run_bybit_linear_ws_worker ::
  "('w, 'j) feed \<Rightarrow> bool \<Rightarrow> string list \<Rightarrow> ws_event list \<Rightarrow> 'w \<times> u64 \<Rightarrow> 'w \<times> u64" where
  "run_bybit_linear_ws_worker D producer topics events s =
     worker_turn D (run_bybit_linear_ws_batch D producer topics events) s"

definition bybit_run ::
  "('w \<Rightarrow> string option \<Rightarrow> 'w \<times> (instruments_response, string) result) \<Rightarrow> 'w \<Rightarrow> (bool, string) result \<Rightarrow> start option" where
  "bybit_run get_page w response =
     (case connection_check response of
        CheckOk \<Rightarrow> map_option (\<lambda>(w, r). connector_run response r bybit_workers) (fetch_valid_linear_symbols get_page w)
      | _ \<Rightarrow> Some (connector_run response (Ok []) bybit_workers))"

section \<open>okx.rs\<close>

record okx_instrument =
  oi_inst_id :: string
  oi_state :: string
  oi_settle_ccy :: string

definition fetch_valid_usdt_swap_instruments :: "(string \<times> okx_instrument list, string) result \<Rightarrow> (string list, string) result" where
  "fetch_valid_usdt_swap_instruments resp =
     (case resp of
        Err e \<Rightarrow> Err e
      | Ok (code, data) \<Rightarrow>
          if code \<noteq> ''0'' then Err (''OKX instruments returned code='' @ code)
          else Ok (sort_dedup (map oi_inst_id
                 (filter (\<lambda>i. oi_settle_ccy i = ''USDT'') (filter (\<lambda>i. oi_state i = ''live'') data)))))"

definition okx_workers :: "string list \<Rightarrow> string list list" where
  "okx_workers inst_ids = chunk_vec inst_ids 80"

definition subscribe_channel ::
  "('w, 'j) feed \<Rightarrow> string \<Rightarrow> string list \<Rightarrow> 'w \<Rightarrow> 'w \<times> (unit, string) result" where
  "subscribe_channel D channel inst_ids w =
     ws_send D w (subscribe_op D (json_arr D
       (map (\<lambda>i. json_obj D [(''channel'', json_str D channel), (''instId'', json_str D i)]) inst_ids)))"

text \<open>One subscription per channel, with a pause after each.\<close>

fun subscribe_channels ::
  "('w, 'j) feed \<Rightarrow> u64 \<Rightarrow> ('w \<Rightarrow> string \<Rightarrow> 'w \<times> (unit, string) result) \<Rightarrow> 'w \<Rightarrow> string list \<Rightarrow>
   'w \<times> (unit, string) result" where
  "subscribe_channels D delay_ms f w [] = (w, Ok ())"
| "subscribe_channels D delay_ms f w (channel # cs) =
     (case f w channel of
        (w, Err e) \<Rightarrow> (w, Err e)
      | (w, Ok _) \<Rightarrow> subscribe_channels D delay_ms f (fd_sleep_ms D w delay_ms) cs)"

definition okx_subscribe :: "('w, 'j) feed \<Rightarrow> string list \<Rightarrow> 'w \<Rightarrow> 'w \<times> (unit, string) result" where
  "okx_subscribe D inst_ids w =
     subscribe_in_batches D w inst_ids 25 0
       (\<lambda>w chunk. subscribe_channels D 50 (\<lambda>w channel. subscribe_channel D channel chunk w) w
          [''tickers'', ''funding-rate'', ''books5''])"

definition first_level :: "('w, 'j) feed \<Rightarrow> 'j \<Rightarrow> string \<Rightarrow> f64 option" where
  "first_level D data side =
     Option.bind (Option.bind (Option.bind (Option.bind (j_get (fd_json D) data side)
       (nth_of (fd_json D) 0)) (nth_of (fd_json D) 0)) (j_as_str (fd_json D))) std_parse"

definition okx_hot :: "('w, 'j) feed \<Rightarrow> string \<Rightarrow> string \<Rightarrow> 'j \<Rightarrow> 'w \<Rightarrow> 'w" where
  "okx_hot D channel inst_id v w =
     (case Option.bind (j_get (fd_json D) v ''data'') (nth_of (fd_json D) 0) of
        None \<Rightarrow> w
      | Some data \<Rightarrow>
          let (bid, ask) = (if channel = ''tickers''
                then (get_number D data ''bidPx'', get_number D data ''askPx'')
                else (first_level D data ''bids'', first_level D data ''asks''))
          in push_quote D (str_replace ''-'' [] inst_id) bid ask w)"

definition okx_key :: "string \<Rightarrow> string \<Rightarrow> string option" where
  "okx_key channel inst_id =
     (if channel = ''tickers'' then Some (''okx:usdt:tickers:'' @ inst_id)
      else if channel = ''funding-rate'' then Some (''okx:usdt:funding:'' @ inst_id)
      else if channel = ''books5'' then Some (''okx:usdt:book:'' @ inst_id)
      else None)"

text \<open>Channel and instrument of a message of OKX or Bitget.\<close>

definition channel_arg :: "('w, 'j) feed \<Rightarrow> 'j \<Rightarrow> (string \<times> string) option" where
  "channel_arg D v =
     Option.bind (j_get (fd_json D) v ''arg'') (\<lambda>arg.
     Option.bind (get_str D arg ''channel'') (\<lambda>channel.
     Option.bind (get_str D arg ''instId'') (\<lambda>inst_id. Some (channel, inst_id))))"

definition okx_bytes :: "('w, 'j) feed \<Rightarrow> bool \<Rightarrow> unit \<Rightarrow> 'w \<Rightarrow> string \<Rightarrow> (unit \<times> 'w) turn" where
  "okx_bytes D producer st w bytes =
     (if bytes = ''pong'' then Continue (st, w)
      else case from_slice D bytes of
        None \<Rightarrow> Continue (st, w)
      | Some v \<Rightarrow>
          (case channel_arg D v of
             None \<Rightarrow> Continue (st, w)
           | Some (channel, inst_id) \<Rightarrow>
               let w = (if (channel = ''tickers'' \<or> channel = ''books5'') \<and> producer
                     then okx_hot D channel inst_id v w else w)
               in publish_value D st w (map_option (\<lambda>key. (key, v)) (okx_key channel inst_id))))"

definition run_okx_ws_batch ::
  "('w, 'j) feed \<Rightarrow> bool \<Rightarrow> string list \<Rightarrow> ws_event list \<Rightarrow> 'w \<Rightarrow> 'w \<times> session_end" where
  "run_okx_ws_batch D producer inst_ids events w =
     session D ''wss://ws.okx.com:8443/ws/v5/public'' (okx_subscribe D inst_ids)
       (select_turn D (\<lambda>w. SendText ''ping'') (okx_bytes D producer)) () events w"

definition run_okx_ws_worker ::
  "('w, 'j) feed \<Rightarrow> bool \<Rightarrow> string list \<Rightarrow> ws_event list \<Rightarrow> 'w \<times> u64 \<Rightarrow> 'w \<times> u64" where
  "run_okx_ws_worker D producer inst_ids events s = worker_turn D (run_okx_ws_batch D producer inst_ids events) s"

definition okx_run :: "(bool, string) result \<Rightarrow> (string \<times> okx_instrument list, string) result \<Rightarrow> start" where
  "okx_run response resp = connector_run response (fetch_valid_usdt_swap_instruments resp) okx_workers"

section \<open>kucoin.rs\<close>

record contract_info =
  ci_symbol :: string
  ci_status :: string
  ci_quote_currency :: string
  ci_settle_currency :: string

record ws_instance_server =
  wi_endpoint :: string
  wi_ping_interval_ms :: u64

record ws_token_data =
  wt_token :: string
  wt_instance_servers :: "ws_instance_server list"

definition fetch_valid_contract_symbols :: "(string \<times> contract_info list, string) result \<Rightarrow> (string list, string) result" where
  "fetch_valid_contract_symbols resp =
     (case resp of
        Err e \<Rightarrow> Err e
      | Ok (code, data) \<Rightarrow>
          if code \<noteq> ''200000'' then Err (''KuCoin contracts/active returned code='' @ code)
          else Ok (sort_dedup (map ci_symbol (filter (\<lambda>c. ci_settle_currency c = ''USDT'')
                 (filter (\<lambda>c. ci_quote_currency c = ''USDT'') (filter (\<lambda>c. ci_status c = ''Open'') data))))))"

definition fetch_ws_endpoint_and_token ::
  "('w, 'j) feed \<Rightarrow> 'w \<Rightarrow> (string \<times> ws_token_data, string) result \<Rightarrow> (string \<times> u64, string) result" where
  "fetch_ws_endpoint_and_token D w resp =
     (case resp of
        Err e \<Rightarrow> Err e
      | Ok (code, data) \<Rightarrow>
          if code \<noteq> ''200000'' then Err (''KuCoin bullet-public returned code='' @ code)
          else case wt_instance_servers data of
            [] \<Rightarrow> Err ''KuCoin bullet-public returned empty instanceServers''
          | server # _ \<Rightarrow>
              Ok (wi_endpoint server @ ''?token='' @ wt_token data @ ''&connectId='' @ nat_str (fd_unix_nanos D w),
                  wi_ping_interval_ms server))"

definition kucoin_workers :: "string list \<Rightarrow> string list list" where
  "kucoin_workers symbols = chunk_vec symbols 50"

definition kucoin_request :: "('w, 'j) feed \<Rightarrow> u64 \<Rightarrow> string \<Rightarrow> bool \<Rightarrow> ws_out" where
  "kucoin_request D sub_id topic response =
     SendText (value_to_string D (json_obj D [(''id'', json_str D (nat_str (unat sub_id))),
       (''type'', json_str D ''subscribe''), (''topic'', json_str D topic), (''response'', json_bool D response)]))"

fun kucoin_topics :: "('w, 'j) feed \<Rightarrow> 'w \<Rightarrow> u64 \<Rightarrow> string list \<Rightarrow> 'w \<times> u64 \<times> (unit, string) result" where
  "kucoin_topics D w sub_id [] = (w, sub_id, Ok ())"
| "kucoin_topics D w sub_id (topic # ts) =
     (let sub_id = sub_id + 1 in
      case ws_send D w (kucoin_request D sub_id topic True) of
        (w, Err e) \<Rightarrow> (w, sub_id, Err e)
      | (w, Ok _) \<Rightarrow> kucoin_topics D (fd_sleep_ms D w 50) sub_id ts)"

definition chunk_topics :: "string list \<Rightarrow> string list" where
  "chunk_topics chunk =
     (let joined = str_join '','' chunk
      in [''/contractMarket/tickerV2:'' @ joined, ''/contractMarket/level2:'' @ joined, ''/contract/instrument:'' @ joined])"

definition kucoin_subscribe :: "('w, 'j) feed \<Rightarrow> string list \<Rightarrow> 'w \<Rightarrow> 'w \<times> (unit, string) result" where
  "kucoin_subscribe D symbols w =
     (case kucoin_topics D w 1 (concat (map chunk_topics (chunks 20 symbols))) of
        (w, sub_id, Err e) \<Rightarrow> (w, Err e)
      | (w, sub_id, Ok _) \<Rightarrow> ws_send D w (kucoin_request D (sub_id + 1) ''/contract/announcement'' False))"

definition topic_symbol :: "string \<Rightarrow> string option" where
  "topic_symbol topic = vec_get (split_on (CHR '':'') topic) 1"

text \<open>The symbol in the data, or else the one in the topic.\<close>

definition ticker_symbol :: "('w, 'j) feed \<Rightarrow> 'j option \<Rightarrow> string \<Rightarrow> string option" where
  "ticker_symbol D data topic =
     (case Option.bind data (\<lambda>d. get_str D d ''symbol'') of Some s \<Rightarrow> Some s | None \<Rightarrow> topic_symbol topic)"

definition kucoin_redis_key_and_payload ::
  "('w, 'j) feed \<Rightarrow> string \<Rightarrow> string \<Rightarrow> 'j option \<Rightarrow> 'j \<Rightarrow> (string \<times> string) option" where
  "kucoin_redis_key_and_payload D topic subject data full =
     (let key = (if prefix ''/contractMarket/tickerV2:'' topic then
             map_option (\<lambda>s. ''kucoin:futures:tickerV2:'' @ s) (ticker_symbol D data topic)
           else if prefix ''/contractMarket/level2:'' topic then
             map_option (\<lambda>s. ''kucoin:futures:level2:'' @ s) (topic_symbol topic)
           else if prefix ''/contract/instrument:'' topic then
             map_option (\<lambda>s. ''kucoin:futures:instrument:'' @ s @ '':'' @ subject) (topic_symbol topic)
           else if topic = ''/contract/announcement'' then
             map_option (\<lambda>s. ''kucoin:futures:funding_settlement:'' @ s @ '':'' @ subject)
               (Option.bind data (\<lambda>d. get_str D d ''symbol''))
           else None)
      in Option.bind key (\<lambda>key.
           case serde_to_string D full of Ok payload \<Rightarrow> Some (key, payload) | Err e \<Rightarrow> None))"

definition merge_state :: "('w, 'j) feed \<Rightarrow> 'j \<Rightarrow> 'j \<Rightarrow> 'j" where
  "merge_state D state v =
     (case (as_object D state, as_object D v) of
        (Some _, Some new_obj) \<Rightarrow> insert_all D state new_obj
      | _ \<Rightarrow> state)"

definition kucoin_bytes ::
  "('w, 'j) feed \<Rightarrow> (string \<rightharpoonup> 'j) \<Rightarrow> 'w \<Rightarrow> string \<Rightarrow> ((string \<rightharpoonup> 'j) \<times> 'w) turn" where
  "kucoin_bytes D symbol_state w bytes =
     (case from_slice D bytes of
        None \<Rightarrow> Continue (symbol_state, w)
      | Some v \<Rightarrow>
          if get_str D v ''type'' \<noteq> Some ''message'' then Continue (symbol_state, w)
          else case get_str D v ''topic'' of
            None \<Rightarrow> Continue (symbol_state, w)
          | Some topic \<Rightarrow>
              let subject = unwrap_str (get_str D v ''subject'');
                  data = j_get (fd_json D) v ''data''
              in if prefix ''/contractMarket/tickerV2:'' topic then
                   case ticker_symbol D data topic of
                     None \<Rightarrow> Continue (symbol_state, w)
                   | Some symbol \<Rightarrow>
                       let state = (case symbol_state symbol of Some state \<Rightarrow> state | None \<Rightarrow> v);
                           state = merge_state D state v
                       in publish_value D (symbol_state(symbol \<mapsto> state)) w
                            (Some (''kucoin:futures:tickerV2:'' @ symbol, state))
                 else if prefix ''/contract/instrument:'' topic \<and> subject = ''funding.rate'' then
                   publish_value D symbol_state w
                     (map_option (\<lambda>symbol. (''kucoin:futures:instrument:'' @ symbol @ '':'' @ subject, v)) (topic_symbol topic))
                 else
                   case kucoin_redis_key_and_payload D topic subject data v of
                     None \<Rightarrow> Continue (symbol_state, w)
                   | Some kp \<Rightarrow> publish D symbol_state w [kp])"

definition kucoin_ping :: "('w, 'j) feed \<Rightarrow> 'w \<Rightarrow> ws_out" where
  "kucoin_ping D w =
     SendText (value_to_string D (json_obj D [(''id'', json_str D (nat_str (as_millis (fd_unix_nanos D w)))),
       (''type'', json_str D ''ping'')]))"

definition run_kucoin_ws_batch ::
  "('w, 'j) feed \<Rightarrow> (string \<times> ws_token_data, string) result \<Rightarrow> string list \<Rightarrow> ws_event list \<Rightarrow> 'w \<Rightarrow> 'w \<times> session_end" where
  "run_kucoin_ws_batch D token_resp symbols events w =
     (case fetch_ws_endpoint_and_token D w token_resp of
        Err e \<Rightarrow> (w, Failed e)
      | Ok (ws_url, ping_interval_ms) \<Rightarrow>
          session D ws_url (kucoin_subscribe D symbols) (select_turn D (kucoin_ping D) (kucoin_bytes D)) Map.empty events w)"

definition run_kucoin_ws_worker ::
  "('w, 'j) feed \<Rightarrow> (string \<times> ws_token_data, string) result \<Rightarrow> string list \<Rightarrow> ws_event list \<Rightarrow> 'w \<times> u64 \<Rightarrow> 'w \<times> u64" where
  "run_kucoin_ws_worker D token_resp symbols events s =
     worker_turn D (run_kucoin_ws_batch D token_resp symbols events) s"

definition kucoin_run :: "(bool, string) result \<Rightarrow> (string \<times> contract_info list, string) result \<Rightarrow> start" where
  "kucoin_run response resp = connector_run response (fetch_valid_contract_symbols resp) kucoin_workers"

section \<open>bitget.rs\<close>

record bitget_contract =
  bc_symbol :: string
  bc_quote_coin :: string
  bc_symbol_type :: string
  bc_symbol_status :: string

definition fetch_bitget_symbols :: "(string \<times> bitget_contract list, string) result \<Rightarrow> (string list, string) result" where
  "fetch_bitget_symbols resp =
     (case resp of
        Err e \<Rightarrow> Err e
      | Ok (code, data) \<Rightarrow>
          if code \<noteq> ''00000'' then Err (''Bitget contracts returned code='' @ code)
          else Ok (sort_dedup (map bc_symbol (filter (\<lambda>c. bc_symbol_status c = ''normal'')
                 (filter (\<lambda>c. bc_symbol_type c = ''perpetual'') (filter (\<lambda>c. bc_quote_coin c = ''USDT'') data))))))"

definition bitget_workers :: "string list \<Rightarrow> string list list" where
  "bitget_workers symbols = chunk_vec symbols 40"

definition subscribe_bitget_channel ::
  "('w, 'j) feed \<Rightarrow> string \<Rightarrow> string list \<Rightarrow> 'w \<Rightarrow> 'w \<times> (unit, string) result" where
  "subscribe_bitget_channel D channel inst_ids w =
     ws_send D w (subscribe_op D (json_arr D
       (map (\<lambda>i. json_obj D [(''instType'', json_str D ''USDT-FUTURES''), (''channel'', json_str D channel),
          (''instId'', json_str D i)]) inst_ids)))"

definition bitget_subscribe :: "('w, 'j) feed \<Rightarrow> string list \<Rightarrow> 'w \<Rightarrow> 'w \<times> (unit, string) result" where
  "bitget_subscribe D symbols w =
     subscribe_chunks D 0
       (\<lambda>w chunk. subscribe_channels D 100 (\<lambda>w channel. subscribe_bitget_channel D channel chunk w) w
          [''ticker'', ''books5'']) w (chunks 20 symbols)"

definition bitget_keys :: "string \<Rightarrow> string \<Rightarrow> string list" where
  "bitget_keys channel inst_id =
     (if channel = ''ticker'' then [''bitget:usdt:tickers:'' @ inst_id, ''bitget:usdt:funding:'' @ inst_id]
      else if channel = ''books5'' then [''bitget:usdt:book:'' @ inst_id]
      else [])"

definition bitget_bytes :: "('w, 'j) feed \<Rightarrow> unit \<Rightarrow> 'w \<Rightarrow> string \<Rightarrow> (unit \<times> 'w) turn" where
  "bitget_bytes D st w bytes =
     (if bytes = ''pong'' then Continue (st, w)
      else case from_slice D bytes of
        None \<Rightarrow> Continue (st, w)
      | Some v \<Rightarrow>
          (case channel_arg D v of
             None \<Rightarrow> Continue (st, w)
           | Some (channel, inst_id) \<Rightarrow>
               (case serde_to_string D v of
                  Err e \<Rightarrow> Continue (st, w)
                | Ok payload \<Rightarrow> publish D st w (map (\<lambda>key. (key, payload)) (bitget_keys channel inst_id)))))"

definition run_bitget_ws_batch ::
  "('w, 'j) feed \<Rightarrow> string list \<Rightarrow> ws_event list \<Rightarrow> 'w \<Rightarrow> 'w \<times> session_end" where
  "run_bitget_ws_batch D symbols events w =
     session D ''wss://ws.bitget.com/v2/ws/public'' (bitget_subscribe D symbols)
       (select_turn D (\<lambda>w. SendText ''ping'') (bitget_bytes D)) () events w"

definition run_bitget_ws_worker ::
  "('w, 'j) feed \<Rightarrow> string list \<Rightarrow> ws_event list \<Rightarrow> 'w \<times> u64 \<Rightarrow> 'w \<times> u64" where
  "run_bitget_ws_worker D symbols events s = worker_turn D (run_bitget_ws_batch D symbols events) s"

definition bitget_run :: "(bool, string) result \<Rightarrow> (string \<times> bitget_contract list, string) result \<Rightarrow> start" where
  "bitget_run response resp = connector_run response (fetch_bitget_symbols resp) bitget_workers"

section \<open>hyperliquid.rs and paradex.rs\<close>

definition fetch_perp_coins :: "(string list, string) result \<Rightarrow> (string list, string) result" where
  "fetch_perp_coins resp = (case resp of Err e \<Rightarrow> Err e | Ok universe \<Rightarrow> Ok (sort_dedup universe))"

definition hyperliquid_workers :: "string list \<Rightarrow> string list list" where
  "hyperliquid_workers coins = chunk_vec coins 50"

definition hyperliquid_request :: "('w, 'j) feed \<Rightarrow> string \<Rightarrow> string \<Rightarrow> ws_out" where
  "hyperliquid_request D coin type =
     SendText (value_to_string D (json_obj D [(''method'', json_str D ''subscribe''),
       (''subscription'', json_obj D [(''type'', json_str D type), (''coin'', json_str D coin)])]))"

text \<open>All requests for one instrument, and a pause after the last.\<close>

fun send_all :: "('w, 'j) feed \<Rightarrow> 'w \<Rightarrow> ws_out list \<Rightarrow> 'w \<times> (unit, string) result" where
  "send_all D w [] = (w, Ok ())"
| "send_all D w (m # ms) = (case ws_send D w m of (w, Err e) \<Rightarrow> (w, Err e) | (w, Ok _) \<Rightarrow> send_all D w ms)"

definition hyperliquid_subscribe :: "('w, 'j) feed \<Rightarrow> string list \<Rightarrow> 'w \<Rightarrow> 'w \<times> (unit, string) result" where
  "hyperliquid_subscribe D coins w =
     subscribe_chunks D 20 (\<lambda>w coin. send_all D w (map (hyperliquid_request D (hd coin)) [''activeAssetCtx'', ''bbo'']))
       w (map (\<lambda>coin. [coin]) coins)"

definition hyperliquid_key :: "string \<Rightarrow> string \<Rightarrow> string option" where
  "hyperliquid_key channel coin =
     (if channel = ''activeAssetCtx'' then Some (''hyperliquid:usdc:ctx:'' @ coin)
      else if channel = ''bbo'' then Some (''hyperliquid:usdc:bbo:'' @ coin)
      else None)"

definition hyperliquid_bytes :: "('w, 'j) feed \<Rightarrow> unit \<Rightarrow> 'w \<Rightarrow> string \<Rightarrow> (unit \<times> 'w) turn" where
  "hyperliquid_bytes D st w bytes =
     (case from_slice D bytes of
        None \<Rightarrow> Continue (st, w)
      | Some v \<Rightarrow>
          let channel = unwrap_str (get_str D v ''channel'') in
          if channel \<noteq> ''activeAssetCtx'' \<and> channel \<noteq> ''bbo'' then Continue (st, w)
          else case path_str D [''data'', ''coin''] v of
            None \<Rightarrow> Continue (st, w)
          | Some coin \<Rightarrow> publish_value D st w (map_option (\<lambda>key. (key, v)) (hyperliquid_key channel coin)))"

definition run_hyperliquid_batch ::
  "('w, 'j) feed \<Rightarrow> string list \<Rightarrow> ws_event list \<Rightarrow> 'w \<Rightarrow> 'w \<times> session_end" where
  "run_hyperliquid_batch D coins events w =
     session D ''wss://api.hyperliquid.xyz/ws'' (hyperliquid_subscribe D coins)
       (select_turn D (\<lambda>w. SendPing) (hyperliquid_bytes D)) () events w"

definition run_hyperliquid_worker ::
  "('w, 'j) feed \<Rightarrow> string list \<Rightarrow> ws_event list \<Rightarrow> 'w \<times> u64 \<Rightarrow> 'w \<times> u64" where
  "run_hyperliquid_worker D coins events s = worker_turn D (run_hyperliquid_batch D coins events) s"

definition hyperliquid_run :: "(bool, string) result \<Rightarrow> (string list, string) result \<Rightarrow> start" where
  "hyperliquid_run response resp = connector_run response (fetch_perp_coins resp) hyperliquid_workers"

record paradex_market =
  px_symbol :: string
  px_asset_kind :: string
  px_quote_currency :: string

definition fetch_perp_markets :: "(paradex_market list, string) result \<Rightarrow> (string list, string) result" where
  "fetch_perp_markets resp =
     (case resp of
        Err e \<Rightarrow> Err e
      | Ok results \<Rightarrow> Ok (sort_dedup (map px_symbol
          (filter (\<lambda>m. px_asset_kind m = ''PERP'' \<and> px_quote_currency m = ''USD'') results))))"

definition paradex_workers :: "string list \<Rightarrow> string list list" where
  "paradex_workers markets = chunk_vec markets 15"

definition paradex_request :: "('w, 'j) feed \<Rightarrow> string \<Rightarrow> string \<Rightarrow> ws_out" where
  "paradex_request D market channel_type =
     SendText (value_to_string D (json_obj D [(''id'', json_num D 1), (''jsonrpc'', json_str D ''2.0''),
       (''method'', json_str D ''subscribe''),
       (''params'', json_obj D [(''channel'', json_str D (channel_type @ ''.'' @ market))])]))"

definition paradex_subscribe :: "('w, 'j) feed \<Rightarrow> string list \<Rightarrow> 'w \<Rightarrow> 'w \<times> (unit, string) result" where
  "paradex_subscribe D markets w =
     subscribe_chunks D 30 (\<lambda>w market. send_all D w (map (paradex_request D (hd market)) [''bbo'', ''funding_data'']))
       w (map (\<lambda>market. [market]) markets)"

definition paradex_key :: "string \<Rightarrow> string \<Rightarrow> string" where
  "paradex_key channel market = ''paradex:usdt:'' @ hd (split_on (CHR ''.'') channel) @ '':'' @ market"

definition paradex_bytes :: "('w, 'j) feed \<Rightarrow> unit \<Rightarrow> 'w \<Rightarrow> string \<Rightarrow> (unit \<times> 'w) turn" where
  "paradex_bytes D st w bytes =
     (case from_slice D bytes of
        None \<Rightarrow> Continue (st, w)
      | Some v \<Rightarrow>
          if unwrap_str (get_str D v ''method'') \<noteq> ''subscription'' then Continue (st, w)
          else
            let channel = unwrap_str (path_str D [''params'', ''channel''] v) in
            case path_str D [''params'', ''data'', ''market''] v of
              None \<Rightarrow> Continue (st, w)
            | Some market \<Rightarrow> publish_value D st w (Some (paradex_key channel market, v)))"

definition run_paradex_batch ::
  "('w, 'j) feed \<Rightarrow> string list \<Rightarrow> ws_event list \<Rightarrow> 'w \<Rightarrow> 'w \<times> session_end" where
  "run_paradex_batch D markets events w =
     session D ''wss://ws.api.prod.paradex.trade/v1'' (paradex_subscribe D markets)
       (select_turn D (\<lambda>w. SendPing) (paradex_bytes D)) () events w"

definition run_paradex_worker ::
  "('w, 'j) feed \<Rightarrow> string list \<Rightarrow> ws_event list \<Rightarrow> 'w \<times> u64 \<Rightarrow> 'w \<times> u64" where
  "run_paradex_worker D markets events s = worker_turn D (run_paradex_batch D markets events) s"

definition paradex_run :: "(bool, string) result \<Rightarrow> (paradex_market list, string) result \<Rightarrow> start" where
  "paradex_run response resp = connector_run response (fetch_perp_markets resp) paradex_workers"

section \<open>binance.rs\<close>

record exchange_symbol =
  es_symbol :: string
  es_status :: string
  es_quote_asset :: string
  es_contract_type :: string

definition is_plain_usdt_symbol :: "string \<Rightarrow> bool" where
  "is_plain_usdt_symbol symbol \<longleftrightarrow> list_all (\<lambda>c. (of_char c :: nat) < 128) symbol \<and> suffix ''USDT'' symbol \<and>
     list_all (\<lambda>c. is_ascii_digit c \<or> 65 \<le> (of_char c :: nat) \<and> (of_char c :: nat) \<le> 90) symbol"

definition fetch_binance_symbols :: "(exchange_symbol list, string) result \<Rightarrow> (string list, string) result" where
  "fetch_binance_symbols resp =
     (case resp of
        Err e \<Rightarrow> Err e
      | Ok symbols \<Rightarrow> Ok (sort (map es_symbol (filter (\<lambda>s. is_plain_usdt_symbol (es_symbol s))
          (filter (\<lambda>s. es_contract_type s = ''PERPETUAL'') (filter (\<lambda>s. es_quote_asset s = ''USDT'')
            (filter (\<lambda>s. es_status s = ''TRADING'') symbols)))))))"

definition build_streams :: "string list \<Rightarrow> string list" where
  "build_streams symbols =
     concat (map (\<lambda>s. [to_lowercase s @ ''@markPrice@1s'', to_lowercase s @ ''@bookTicker'']) symbols)"

definition binance_workers :: "string list \<Rightarrow> string list list" where
  "binance_workers symbols = take 999 (chunk_vec (build_streams symbols) 100)"

definition redis_key_for :: "string \<Rightarrow> string \<Rightarrow> string option" where
  "redis_key_for stream_name symbol =
     (if suffix ''@bookTicker'' stream_name then Some (''binance:usdm:book:'' @ symbol)
      else if sublist ''@markPrice'' stream_name then Some (''binance:usdm:mark:'' @ symbol)
      else None)"

text \<open>A full channel drops the message, and the loop goes on.\<close>

definition binance_bytes :: "('w, 'j) feed \<Rightarrow> bool \<Rightarrow> unit \<Rightarrow> 'w \<Rightarrow> string \<Rightarrow> (unit \<times> 'w) turn" where
  "binance_bytes D producer st w bytes =
     (case from_slice D bytes of
        None \<Rightarrow> Continue (st, w)
      | Some v \<Rightarrow>
          (case (get_str D v ''stream'', j_get (fd_json D) v ''data'') of
             (Some stream_name, Some data) \<Rightarrow>
               (case get_str D data ''s'' of
                  None \<Rightarrow> Continue (st, w)
                | Some symbol \<Rightarrow>
                    let w = (if suffix ''@bookTicker'' stream_name \<and> producer
                          then push_quote D symbol (get_number D data ''b'') (get_number D data ''a'') w else w)
                    in case redis_key_for stream_name symbol of
                         None \<Rightarrow> Continue (st, w)
                       | Some key \<Rightarrow>
                           (case serde_to_string D data of
                              Err e \<Rightarrow> Fail (st, w) e
                            | Ok payload \<Rightarrow> Continue (st, fst (tx_try_send D w (key, payload)))))
           | _ \<Rightarrow> Continue (st, w)))"

definition binance_turn :: "('w, 'j) feed \<Rightarrow> bool \<Rightarrow> unit \<times> 'w \<Rightarrow> ws_event \<Rightarrow> (unit \<times> 'w) turn" where
  "binance_turn D producer s event =
     (case (s, event) of
        ((st, w), ReadError e) \<Rightarrow> Fail (st, w) e
      | ((st, w), StreamEnd) \<Rightarrow> Break (st, w)
      | ((st, w), PingTick) \<Rightarrow> Continue (st, w)
      | ((st, w), Frame (Ping payload)) \<Rightarrow>
          (case ws_send D w (SendPong payload) of (w, Ok _) \<Rightarrow> Continue (st, w) | (w, Err _) \<Rightarrow> Break (st, w))
      | ((st, w), Frame Close) \<Rightarrow> Break (st, w)
      | ((st, w), Frame frame) \<Rightarrow>
          (case frame_bytes frame of Some bytes \<Rightarrow> binance_bytes D producer st w bytes | None \<Rightarrow> Continue (st, w)))"

definition binance_url :: "string list \<Rightarrow> string" where
  "binance_url streams =
     str_replace ''/ws'' ''/stream'' ''wss://fstream.binance.com/ws'' @ ''?streams='' @ str_join ''/'' streams"

definition run_binance_ws_batch ::
  "('w, 'j) feed \<Rightarrow> bool \<Rightarrow> string list \<Rightarrow> ws_event list \<Rightarrow> 'w \<Rightarrow> 'w \<times> session_end" where
  "run_binance_ws_batch D producer streams events w =
     session D (binance_url streams) (\<lambda>w. (w, Ok ())) (binance_turn D producer) () events w"

record binance_worker =
  bw_backoff_ms :: u64
  bw_connection_attempts :: u32
  bw_last_reset :: nat

definition penalty_ms :: "u32 \<Rightarrow> u64" where
  "penalty_ms connection_attempts = (ucast connection_attempts - 10) * 5000"

definition binance_worker_turn ::
  "('w, 'j) feed \<Rightarrow> ('w \<Rightarrow> 'w \<times> session_end) \<Rightarrow> 'w \<times> binance_worker \<Rightarrow> 'w \<times> binance_worker" where
  "binance_worker_turn D run_batch s =
     (case s of (w, b) \<Rightarrow>
        let b = (if 300 \<le> duration_since (fd_instant D w) (bw_last_reset b) div 1000000000
              then b\<lparr>bw_connection_attempts := 0, bw_last_reset := fd_instant D w\<rparr> else b);
            b = b\<lparr>bw_connection_attempts := bw_connection_attempts b + 1\<rparr>;
            w = (if bw_connection_attempts b > 10 then fd_sleep_ms D w (penalty_ms (bw_connection_attempts b)) else w);
            (w, b) = (case run_batch w of
               (w, Failed _) \<Rightarrow> (case apply_backoff D w (bw_backoff_ms b) of (w, ms) \<Rightarrow> (w, b\<lparr>bw_backoff_ms := ms\<rparr>))
             | (w, _) \<Rightarrow> (w, b\<lparr>bw_backoff_ms := 0\<rparr>))
        in (fd_sleep_ms D w (max 2000 (bw_backoff_ms b)), b))"

definition binance_run :: "(bool, string) result \<Rightarrow> (exchange_symbol list, string) result \<Rightarrow> start" where
  "binance_run response resp = connector_run response (fetch_binance_symbols resp) binance_workers"

text \<open>The pause of a worker before its first connection.\<close>

definition binance_start_delay :: "nat \<Rightarrow> u64" where
  "binance_start_delay worker_id = of_nat worker_id * 2000"

section \<open>Specifications\<close>

text \<open>The ticker of a symbol that an event brings, and the latest value of a field among tickers.\<close>

definition ticker_of :: "('w, 'j) feed \<Rightarrow> string \<Rightarrow> ws_event \<Rightarrow> 'j option" where
  "ticker_of D symbol event =
     (case event of
        Frame frame \<Rightarrow>
          (case Option.bind (frame_bytes frame) (from_slice D) of
             Some v \<Rightarrow>
               if Option.bind (get_str D v ''topic'') bybit_topic = Some (''tickers'', symbol) \<and>
                  j_get (fd_json D) v ''data'' \<noteq> None then Some v else None
           | None \<Rightarrow> None)
      | _ \<Rightarrow> None)"

definition tickers_of :: "('w, 'j) feed \<Rightarrow> string \<Rightarrow> ws_event list \<Rightarrow> 'j list" where
  "tickers_of D symbol events = List.map_filter (ticker_of D symbol) events"

definition latest_field :: "('w, 'j) feed \<Rightarrow> 'j list \<Rightarrow> string \<Rightarrow> 'j option" where
  "latest_field D vs k =
     foldl (\<lambda>acc v. case path (fd_json D) [''data'', k] v of Some x \<Rightarrow> Some x | None \<Rightarrow> acc) None vs"

definition merge_next :: "('w, 'j) feed \<Rightarrow> 'j option \<Rightarrow> 'j \<Rightarrow> 'j option" where
  "merge_next D state v =
     (case j_get (fd_json D) v ''data'' of
        Some data \<Rightarrow> Some (merge_ticker D (case state of Some s \<Rightarrow> s | None \<Rightarrow> v) v data)
      | None \<Rightarrow> state)"

definition worker_run ::
  "('w, 'j) feed \<Rightarrow> ('w \<Rightarrow> 'w \<times> session_end) list \<Rightarrow> 'w \<times> u64 \<Rightarrow> 'w \<times> u64" where
  "worker_run D runs s = foldl (\<lambda>s run. worker_turn D run s) s runs"

text \<open>The name of the exchange heads the key, and the symbol is a later part.\<close>

definition keyed :: "string \<Rightarrow> message \<Rightarrow> bool" where
  "keyed exchange m \<longleftrightarrow> hd (split_on (CHR '':'') (fst m)) = exchange \<and> 3 \<le> length (split_on (CHR '':'') (fst m))"

definition sends :: "('w \<Rightarrow> message list) \<Rightarrow> (message \<Rightarrow> bool) \<Rightarrow> 'w \<Rightarrow> 'w \<Rightarrow> bool" where
  "sends sent P w w' \<longleftrightarrow> (\<exists>ms. sent w' = sent w @ ms \<and> list_all P ms)"

definition turn_world :: "('st \<times> 'w) turn \<Rightarrow> 'w" where
  "turn_world t = (case t of Continue s \<Rightarrow> snd s | Break s \<Rightarrow> snd s | Fail s e \<Rightarrow> snd s)"

text \<open>Which of the connections of a worker failed, and the backoff after \<open>n\<close> failures in a row.\<close>

fun failures :: "('w, 'j) feed \<Rightarrow> ('w \<Rightarrow> 'w \<times> session_end) list \<Rightarrow> 'w \<times> u64 \<Rightarrow> bool list" where
  "failures D [] s = []"
| "failures D (run # runs) s =
     (case snd (run (fst s)) of Failed e \<Rightarrow> True | _ \<Rightarrow> False) # failures D runs (worker_turn D run s)"

definition last_failures :: "bool list \<Rightarrow> nat" where
  "last_failures fs = length (takeWhile id (rev fs))"

definition backoff_after :: "nat \<Rightarrow> nat" where
  "backoff_after n = (if n = 0 then 0 else min (250 * 2 ^ (n - 1)) 10000)"

text \<open>The workers of Binance over several connections, and a lower bound in milliseconds of the time that the
  first \<open>n\<close> connections of a window take.\<close>

definition binance_turns ::
  "('w, 'j) feed \<Rightarrow> ('w \<Rightarrow> 'w \<times> session_end) list \<Rightarrow> 'w \<times> binance_worker \<Rightarrow> 'w \<times> binance_worker" where
  "binance_turns D runs s = foldl (\<lambda>s run. binance_worker_turn D run s) s runs"

fun least_ms :: "nat \<Rightarrow> int" where
  "least_ms 0 = 0"
| "least_ms (Suc n) = least_ms n + int (Suc n - 10) * 5000 + 2000"

text \<open>The invariant of that worker at the top of its loop.\<close>

definition window :: "('w, 'j) feed \<Rightarrow> 'w \<times> binance_worker \<Rightarrow> bool" where
  "window D s \<longleftrightarrow> (case s of (w, b) \<Rightarrow> unat (bw_connection_attempts b) \<le> 20 \<and>
     int (bw_last_reset b) + least_ms (unat (bw_connection_attempts b)) * 1000000 \<le> int (fd_instant D w))"

text \<open>Concrete services: the world is the list of the messages sent to the bridge; objects are lists of
  fields, and the only text that is read is one ticker.\<close>

fun value_insert :: "json \<Rightarrow> string \<Rightarrow> json \<Rightarrow> json" where
  "value_insert (JObj fs) k v = JObj (AList.update k v fs)"
| "value_insert x k v = x"

definition sample_ticker :: json where
  "sample_ticker = JObj [(''topic'', JStr ''tickers.BTCUSDT''),
     (''data'', JObj [(''bid1Price'', JStr ''99.5''), (''ask1Price'', JStr ''100'')])]"

definition sample_delta :: json where
  "sample_delta = JObj [(''topic'', JStr ''tickers.BTCUSDT''), (''data'', JObj [(''bid1Price'', JStr ''99.75'')])]"

definition sample_merged :: json where
  "sample_merged = JObj [(''topic'', JStr ''tickers.BTCUSDT''),
     (''data'', JObj [(''bid1Price'', JStr ''99.75''), (''ask1Price'', JStr ''100'')])]"

definition sample_feed :: "(message list, json) feed" where
  "sample_feed =
     \<lparr>fd_json = value_ops,
      as_object = (\<lambda>v. case v of JObj fs \<Rightarrow> Some (AList.clearjunk fs) | _ \<Rightarrow> None), obj_insert = value_insert,
      json_obj = JObj, json_str = JStr, json_arr = JArr, json_bool = JBool, json_num = (\<lambda>n. JStr (nat_str n)),
      value_to_string = (\<lambda>v. ''value''),
      serde_to_string = (\<lambda>v. if v = sample_ticker then Ok ''ticker'' else if v = sample_merged then Ok ''merged'' else Err ''value''),
      from_slice = (\<lambda>t. if t = ''ticker'' then Some sample_ticker else if t = ''delta'' then Some sample_delta else None),
      ws_connect = (\<lambda>w url. (w, Ok ())), ws_send = (\<lambda>w m. (w, Ok ())), tx_send = (\<lambda>w m. (w @ [m], True)),
      tx_try_send = (\<lambda>w m. (w @ [m], True)), producer_push = (\<lambda>w u. w), fd_unix_nanos = (\<lambda>w. 0),
      fd_instant = (\<lambda>w. 0), fd_sleep_ms = (\<lambda>w ms. w)\<rparr>"

definition sample_socket :: "(ws_out list, json) feed" where
  "sample_socket =
     \<lparr>fd_json = value_ops, as_object = (\<lambda>v. None), obj_insert = value_insert,
      json_obj = JObj, json_str = JStr, json_arr = JArr, json_bool = JBool, json_num = (\<lambda>n. JStr (nat_str n)),
      value_to_string = (\<lambda>v. ''value''), serde_to_string = (\<lambda>v. Err ''value''), from_slice = (\<lambda>t. None),
      ws_connect = (\<lambda>w url. (w, Ok ())), ws_send = (\<lambda>w m. (w @ [m], Ok ())), tx_send = (\<lambda>w m. (w, True)),
      tx_try_send = (\<lambda>w m. (w, True)), producer_push = (\<lambda>w u. w), fd_unix_nanos = (\<lambda>w. 0),
      fd_instant = (\<lambda>w. 0), fd_sleep_ms = (\<lambda>w ms. w)\<rparr>"

definition sample_clock :: "(nat, json) feed" where
  "sample_clock =
     \<lparr>fd_json = value_ops, as_object = (\<lambda>v. None), obj_insert = value_insert,
      json_obj = JObj, json_str = JStr, json_arr = JArr, json_bool = JBool, json_num = (\<lambda>n. JStr (nat_str n)),
      value_to_string = (\<lambda>v. ''value''), serde_to_string = (\<lambda>v. Err ''value''), from_slice = (\<lambda>t. None),
      ws_connect = (\<lambda>w url. (w, Err ''refused'')), ws_send = (\<lambda>w m. (w, Ok ())), tx_send = (\<lambda>w m. (w, True)),
      tx_try_send = (\<lambda>w m. (w, True)), producer_push = (\<lambda>w u. w), fd_unix_nanos = (\<lambda>w. w),
      fd_instant = (\<lambda>w. w), fd_sleep_ms = (\<lambda>w ms. w + unat ms * 1000000)\<rparr>"

definition sample_from_str :: "string \<Rightarrow> json option" where
  "sample_from_str text = (if text = ''merged'' then Some sample_merged else if text = ''ticker'' then Some sample_ticker else None)"

section \<open>Contracts of the services\<close>

text \<open>Objects of \<open>serde_json\<close>: \<open>get\<close> finds the fields that \<open>as_object\<close> lists, keys are unique, and \<open>insert\<close>
  sets one field.\<close>

locale json_objects =
  fixes D :: "('w, 'j) feed"
  assumes get_insert: "as_object D v \<noteq> None \<Longrightarrow>
      j_get (fd_json D) (obj_insert D v k x) k' = (if k' = k then Some x else j_get (fd_json D) v k')"
    and insert_object: "as_object D v \<noteq> None \<Longrightarrow> as_object D (obj_insert D v k x) \<noteq> None"
    and object_fields: "as_object D v = Some fs \<Longrightarrow> map_of fs = j_get (fd_json D) v \<and> distinct (map fst fs)"
    and get_object: "j_get (fd_json D) v k = Some x \<Longrightarrow> as_object D v \<noteq> None"
begin

lemma insert_all_get:
  assumes "as_object D v \<noteq> None" "distinct (map fst fs)"
  shows "as_object D (insert_all D v fs) \<noteq> None \<and> j_get (fd_json D) (insert_all D v fs) k =
    (case map_of fs k of Some x \<Rightarrow> Some x | None \<Rightarrow> j_get (fd_json D) v k)"
  using assms
proof (induction fs arbitrary: v)
  case (Cons f fs)
  obtain k0 x0 where f: "f = (k0, x0)" by fastforce
  have "as_object D (obj_insert D v k0 x0) \<noteq> None" using Cons.prems(1) by (rule insert_object)
  moreover have "map_of fs k0 = None" using Cons.prems(2) f by (simp add: map_of_eq_None_iff)
  ultimately show ?case using Cons.IH[of "obj_insert D v k0 x0"] Cons.prems f
    by (cases "k = k0") (auto simp: insert_all_def get_insert split: option.splits)
qed (simp add: insert_all_def)

end

interpretation sample_objects: json_objects sample_feed
proof
  fix v :: json and k k' x
  assume "as_object sample_feed v \<noteq> None"
  then obtain fs where "v = JObj fs" by (cases v) (auto simp: sample_feed_def)
  then show "j_get (fd_json sample_feed) (obj_insert sample_feed v k x) k' =
      (if k' = k then Some x else j_get (fd_json sample_feed) v k')" "as_object sample_feed (obj_insert sample_feed v k x) \<noteq> None"
    by (simp_all add: sample_feed_def value_ops_def update_conv')
next
  fix v :: json and fs
  assume "as_object sample_feed v = Some fs"
  then show "map_of fs = j_get (fd_json sample_feed) v \<and> distinct (map fst fs)"
    by (cases v) (auto simp: sample_feed_def value_ops_def map_of_clearjunk distinct_clearjunk)
next
  fix v :: json and k x
  assume "j_get (fd_json sample_feed) v k = Some x"
  then show "as_object sample_feed v \<noteq> None" by (cases v) (auto simp: sample_feed_def value_ops_def)
qed

text \<open>The channel to the bridge: \<open>sent\<close> are the messages it has taken, and nothing else changes them.\<close>

locale channel =
  fixes D :: "('w, 'j) feed" and sent :: "'w \<Rightarrow> message list"
  assumes tx_sent: "tx_send D w m = (w', b) \<Longrightarrow> sent w' = (if b then sent w @ [m] else sent w)"
    and try_sent: "tx_try_send D w m = (w', b) \<Longrightarrow> sent w' = (if b then sent w @ [m] else sent w)"
    and connect_sent: "sent (fst (ws_connect D w url)) = sent w"
    and send_sent: "sent (fst (ws_send D w out)) = sent w"
    and push_sent: "sent (producer_push D w u) = sent w"
    and sleep_sent: "sent (fd_sleep_ms D w ms) = sent w"

interpretation sample_channel: channel sample_feed "\<lambda>w. w"
  by unfold_locales (auto simp: sample_feed_def)

text \<open>The writing side of a WebSocket: \<open>out\<close> are the messages written.\<close>

locale socket =
  fixes D :: "('w, 'j) feed" and out :: "'w \<Rightarrow> ws_out list"
  assumes send_out: "ws_send D w m = (w', Ok ()) \<Longrightarrow> out w' = out w @ [m]"
    and sleep_out: "out (fd_sleep_ms D w ms) = out w"
begin

lemma subscribe_chunks_out:
  assumes "subscribe_chunks D delay (\<lambda>w c. ws_send D w (msg c)) w cs = (w', Ok ())"
  shows "out w' = out w @ map msg cs"
  using assms
proof (induction cs arbitrary: w)
  case (Cons c cs)
  then obtain w1 where s: "ws_send D w (msg c) = (w1, Ok ())"
    and r: "subscribe_chunks D delay (\<lambda>w c. ws_send D w (msg c)) (if delay > 0 then fd_sleep_ms D w1 delay else w1) cs = (w', Ok ())"
    by (auto split: prod.splits result.splits)
  from Cons.IH[OF r] send_out[OF s] sleep_out show ?case by (auto split: if_splits)
qed simp

end

interpretation sample_socket: socket sample_socket "\<lambda>w. w"
  by unfold_locales (auto simp: sample_socket_def)

text \<open>Time: the clock runs on, and a sleep lasts at least as long as asked.\<close>

locale feed_clock =
  fixes D :: "('w, 'j) feed"
  assumes sleep_lasts: "fd_instant D w + unat ms * 1000000 \<le> fd_instant D (fd_sleep_ms D w ms)"
begin

lemma backoff_lasts: "apply_backoff D w ms = (w', ms') \<Longrightarrow> fd_instant D w \<le> fd_instant D w'"
  using sleep_lasts[of w ms] by (auto simp: apply_backoff_def split: if_splits)

end

interpretation sample_clock: feed_clock sample_clock
  by unfold_locales (simp add: sample_clock_def)

section \<open>Lemmas\<close>

subsection \<open>Chunks\<close>

lemma chunk_loop_chunks: "0 < n \<Longrightarrow> chunk_loop xs n i = chunks n (drop i xs)"
proof (induction xs n i rule: chunk_loop.induct)
  case (1 xs n i)
  show ?case
  proof (cases "i < length xs")
    case True
    let ?e = "min (i + n) (length xs)"
    have "take (?e - i) (drop i xs) = take n (drop i xs)" using True by (simp add: min_def)
    moreover have "drop ?e xs = drop n (drop i xs)" by (simp add: min_def add.commute)
    moreover have "chunk_loop xs n ?e = chunks n (drop ?e xs)" using 1 True by (simp add: Let_def)
    ultimately show ?thesis using True 1(2) by (subst chunk_loop.simps, subst chunks.simps) (simp add: Let_def)
  next
    case False
    then show ?thesis by (subst chunk_loop.simps, subst chunks.simps) simp
  qed
qed

lemma chunk_vec_chunks: "chunk_vec xs n = chunks n xs"
proof (cases "n = 0")
  case True
  then show ?thesis by (subst chunks.simps) (simp add: chunk_vec_def)
qed (simp add: chunk_vec_def chunk_loop_chunks)

lemma concat_chunks: "0 < n \<Longrightarrow> concat (chunks n xs) = xs"
  by (induction n xs rule: chunks.induct) (subst chunks.simps, auto)

lemma chunks_bounds: "0 < n \<Longrightarrow> c \<in> set (chunks n xs) \<Longrightarrow> c \<noteq> [] \<and> length c \<le> n"
proof (induction n xs rule: chunks.induct)
  case (1 n xs)
  then have "c = take n xs \<and> xs \<noteq> [] \<or> xs \<noteq> [] \<and> c \<in> set (chunks n (drop n xs))"
    by (subst (asm) (2) chunks.simps) (auto split: if_splits)
  with 1 show ?case by auto
qed

lemma sorted_distinct_remdups_adj: "sorted xs \<Longrightarrow> distinct (remdups_adj xs)"
  for xs :: "'a :: linorder list"
  by (induction xs rule: remdups_adj.induct) auto

lemma sort_dedup_distinct: "distinct (sort_dedup xs)"
  by (simp add: sort_dedup_def sorted_distinct_remdups_adj)

subsection \<open>Keys\<close>

lemma split_on_sep: "c \<notin> set xs \<Longrightarrow> split_on c (xs @ c # ys) = xs # split_on c ys"
  by (induction xs) auto

lemma split_on_no_sep: "c \<notin> set xs \<Longrightarrow> split_on c xs = [xs]"
  by (induction xs) auto

lemma length_split_on: "1 \<le> length (split_on c xs)"
  using split_on_not_empty[of c xs] by (cases "split_on c xs") auto

text \<open>A key of two fixed parts and a rest.\<close>

lemma keyedI:
  assumes "CHR '':'' \<notin> set e" "CHR '':'' \<notin> set t"
  shows "keyed e (e @ '':'' @ t @ '':'' @ rest, payload)"
proof -
  have "split_on (CHR '':'') (e @ '':'' @ t @ '':'' @ rest) = e # t # split_on (CHR '':'') rest"
    using split_on_sep[OF assms(1), of "t @ '':'' @ rest"] split_on_sep[OF assms(2), of rest] by simp
  then show ?thesis using length_split_on[of "CHR '':''" rest] by (simp add: keyed_def)
qed

lemma keyed_prefix:
  assumes "CHR '':'' \<notin> set e" "CHR '':'' \<notin> set t" "prefix (e @ '':'' @ t @ '':'') key"
  shows "keyed e (key, payload)"
  using keyedI[OF assms(1,2)] assms(3) by (auto simp: prefix_def)

subsection \<open>Merged tickers\<close>

lemma bind_path_Nil [simp]: "Option.bind x (path J []) = x"
  by (cases x) simp_all

lemma option_case_self: "(case y of Some x \<Rightarrow> Some x | None \<Rightarrow> y) = y"
  by (cases y) simp_all

context json_objects
begin

lemma merge_ticker_get:
  assumes "j_get (fd_json D) st ''data'' = Some sd" "as_object D sd \<noteq> None"
    and "j_get (fd_json D) v ''data'' = Some nd" "as_object D nd \<noteq> None"
  shows "\<exists>md. j_get (fd_json D) (merge_ticker D st v nd) ''data'' = Some md \<and> as_object D md \<noteq> None \<and>
    (\<forall>k. j_get (fd_json D) md k = (case j_get (fd_json D) nd k of Some x \<Rightarrow> Some x | None \<Rightarrow> j_get (fd_json D) sd k))"
proof -
  obtain fs where fs: "as_object D nd = Some fs" using assms(4) by auto
  note f = object_fields[OF fs]
  define md where "md = insert_all D sd fs"
  have md: "as_object D md \<noteq> None"
    "j_get (fd_json D) md k = (case j_get (fd_json D) nd k of Some x \<Rightarrow> Some x | None \<Rightarrow> j_get (fd_json D) sd k)" for k
    using insert_all_get[OF assms(2) conjunct2[OF f]] f by (simp_all add: md_def)
  define st' where "st' = obj_insert D st ''data'' md"
  have st: "as_object D st \<noteq> None" using get_object[OF assms(1)] .
  have st': "as_object D st' \<noteq> None" "j_get (fd_json D) st' ''data'' = Some md"
    using insert_object[OF st] get_insert[OF st] by (simp_all add: st'_def)
  have m: "merge_ticker D st v nd = insert_all D st' (top_fields D v)"
    using assms(1,2) fs st' by (simp add: merge_ticker_def md_def st'_def)
  have t: "distinct (map fst (top_fields D v))" "map_of (top_fields D v) ''data'' = None"
    using object_fields[of v] by (auto simp: top_fields_def distinct_map_filter map_of_eq_None_iff split: option.splits)
  have "j_get (fd_json D) (merge_ticker D st v nd) ''data'' = Some md"
    using insert_all_get[OF st'(1) t(1), of "''data''"] t(2) st'(2) by (simp add: m)
  with md show ?thesis by blast
qed

text \<open>After a sequence of tickers, the stored ticker has the latest value of every field.\<close>

lemma merged_latest:
  assumes "vs \<noteq> []" "\<forall>v \<in> set vs. \<exists>d. j_get (fd_json D) v ''data'' = Some d \<and> as_object D d \<noteq> None"
  shows "\<exists>st sd. foldl (merge_next D) None vs = Some st \<and> j_get (fd_json D) st ''data'' = Some sd \<and>
    as_object D sd \<noteq> None \<and> (\<forall>k. j_get (fd_json D) sd k = latest_field D vs k)"
  using assms
proof (induction vs rule: rev_induct)
  case (snoc v vs)
  then obtain d where d: "j_get (fd_json D) v ''data'' = Some d" "as_object D d \<noteq> None" by auto
  show ?case
  proof (cases "vs = []")
    case True
    from merge_ticker_get[OF d d] obtain md where
      "j_get (fd_json D) (merge_ticker D v v d) ''data'' = Some md" "as_object D md \<noteq> None"
      "\<forall>k. j_get (fd_json D) md k = j_get (fd_json D) d k" by (auto simp: option_case_self)
    with True d show ?thesis by (auto simp: merge_next_def latest_field_def split: option.splits)
  next
    case False
    with snoc obtain st sd where s: "foldl (merge_next D) None vs = Some st" "j_get (fd_json D) st ''data'' = Some sd"
      "as_object D sd \<noteq> None" "\<forall>k. j_get (fd_json D) sd k = latest_field D vs k" by auto
    from merge_ticker_get[OF s(2,3) d] obtain md where
      "j_get (fd_json D) (merge_ticker D st v d) ''data'' = Some md" "as_object D md \<noteq> None"
      "\<forall>k. j_get (fd_json D) md k = (case j_get (fd_json D) d k of Some x \<Rightarrow> Some x | None \<Rightarrow> j_get (fd_json D) sd k)" by blast
    moreover have "foldl (merge_next D) None (vs @ [v]) = Some (merge_ticker D st v d)"
      using s(1) d(1) by (simp add: merge_next_def[of D "Some st" v])
    moreover have "latest_field D (vs @ [v]) k =
        (case j_get (fd_json D) d k of Some x \<Rightarrow> Some x | None \<Rightarrow> latest_field D vs k)" for k
      using d(1) by (cases "j_get (fd_json D) d k") (simp_all add: latest_field_def)
    ultimately show ?thesis using s(4) by (auto split: option.splits)
  qed
qed simp

end

subsection \<open>Sessions\<close>

lemma publish_keeps: "publish D st w ms = Continue (st', w') \<Longrightarrow> st' = st"
  by (induction ms arbitrary: w) (auto split: prod.splits bool.splits)

lemma publish_value_keeps: "publish_value D st w out = Continue (st', w') \<Longrightarrow> st' = st"
  by (auto simp: publish_value_def simp del: publish.simps split: option.splits prod.splits result.splits dest!: publish_keeps)

lemma bybit_step_state:
  assumes "select_turn D ping (bybit_bytes D producer) (ts, w) e = Continue (ts', w')"
  shows "ts' symbol = (case ticker_of D symbol e of Some v \<Rightarrow> merge_next D (ts symbol) v | None \<Rightarrow> ts symbol)"
proof (cases "\<exists>f bytes v. e = Frame f \<and> frame_bytes f = Some bytes \<and> from_slice D bytes = Some v")
  case False
  then have "ticker_of D symbol e = None" by (auto simp: ticker_of_def Option.bind_eq_Some_conv split: ws_event.splits option.splits)
  moreover have "ts' = ts" using assms False
    by (auto simp: select_turn_def bybit_bytes_def split: ws_event.splits option.splits prod.splits result.splits)
  ultimately show ?thesis by simp
next
  case True
  then obtain f bytes v where v: "e = Frame f" "frame_bytes f = Some bytes" "from_slice D bytes = Some v" by blast
  show ?thesis
  proof (cases "Option.bind (get_str D v ''topic'') bybit_topic")
    case None
    then show ?thesis using assms v by (simp add: select_turn_def bybit_bytes_def ticker_of_def)
  next
    case (Some q)
    obtain kt y where q: "q = (kt, y)" by (cases q)
    then have "kt = ''tickers'' \<or> kt = ''funding''"
      using Some by (auto simp: bybit_topic_def Option.bind_eq_Some_conv split: if_splits)
    moreover obtain w1 where "publish_value D (fst (bybit_message D ts kt y v)) w1 (snd (bybit_message D ts kt y v)) = Continue (ts', w')"
      using assms v Some q by (auto simp: select_turn_def bybit_bytes_def Let_def split: prod.splits)
    then have "ts' = fst (bybit_message D ts kt y v)" by (rule publish_value_keeps)
    ultimately show ?thesis using v Some q
      by (auto simp: ticker_of_def bybit_message_def merge_next_def Let_def split: option.splits)
  qed
qed

lemma bybit_session_state:
  "read_loop (select_turn D ping (bybit_bytes D producer)) (ts, w) es = ((ts', w'), Open) \<Longrightarrow>
   ts' symbol = foldl (merge_next D) (ts symbol) (tickers_of D symbol es)"
proof (induction es arbitrary: ts w)
  case (Cons e es)
  then obtain ts1 w1 where t: "select_turn D ping (bybit_bytes D producer) (ts, w) e = Continue (ts1, w1)"
    and l: "read_loop (select_turn D ping (bybit_bytes D producer)) (ts1, w1) es = ((ts', w'), Open)"
    by (auto split: turn.splits)
  from Cons.IH[OF l] bybit_step_state[OF t, of symbol] show ?case
    by (auto simp: tickers_of_def List.map_filter_def split: option.splits)
qed (simp add: tickers_of_def List.map_filter_def)

context channel
begin

lemma publish_sent: "publish D st w ms = Continue (st', w') \<Longrightarrow> sent w' = sent w @ ms"
  by (induction ms arbitrary: w) (auto split: prod.splits bool.splits dest: tx_sent)

lemma push_quote_sent: "sent (push_quote D symbol bid ask w) = sent w"
  by (auto simp: push_quote_def push_sent split: option.splits)

lemma bybit_ticker_sent:
  assumes "select_turn D ping (bybit_bytes D producer) (ts, w) e = Continue (ts', w')" "ticker_of D symbol e = Some v"
  shows "\<exists>st text. merge_next D (ts symbol) v = Some st \<and> serde_to_string D st = Ok text \<and>
    sent w' = sent w @ [(''bybit:linear:tickers:'' @ symbol, text)]"
proof -
  from assms(2) obtain f bytes d where v: "e = Frame f" "frame_bytes f = Some bytes" "from_slice D bytes = Some v"
    and t: "Option.bind (get_str D v ''topic'') bybit_topic = Some (''tickers'', symbol)"
    and d: "j_get (fd_json D) v ''data'' = Some d"
    by (auto simp: ticker_of_def Option.bind_eq_Some_conv split: ws_event.splits option.splits if_splits)
  let ?w = "if producer then bybit_hot D v symbol w else w"
  let ?st = "merge_ticker D (case ts symbol of Some s \<Rightarrow> s | None \<Rightarrow> v) v d"
  have hot: "sent ?w = sent w" by (simp add: bybit_hot_def d push_quote_sent)
  have "publish_value D (ts(symbol \<mapsto> ?st)) ?w (Some (''bybit:linear:tickers:'' @ symbol, ?st)) = Continue (ts', w')"
    using assms(1) v t d by (simp add: select_turn_def bybit_bytes_def bybit_message_def Let_def)
  then show ?thesis using d hot
    by (auto simp: publish_value_def merge_next_def simp del: publish.simps split: result.splits dest!: publish_sent)
qed

end

subsection \<open>What a session sends\<close>

lemma sends_refl: "sent w' = sent w \<Longrightarrow> sends sent P w w'"
  by (auto simp: sends_def)

lemma sends_trans: "sends sent P w1 w2 \<Longrightarrow> sends sent P w2 w3 \<Longrightarrow> sends sent P w1 w3"
  by (force simp: sends_def)

lemma turn_world_simps [simp]:
  "turn_world (Continue s) = snd s" "turn_world (Break s) = snd s" "turn_world (Fail s e) = snd s"
  by (simp_all add: turn_world_def)

lemma sends_same [simp]: "sends sent P w w"
  by (simp add: sends_refl)

context channel
begin

lemma publish_sends: "list_all P ms \<Longrightarrow> sends sent P w (turn_world (publish D st w ms))"
proof (induction ms arbitrary: w)
  case (Cons m ms)
  obtain w1 b where t: "tx_send D w m = (w1, b)" by fastforce
  from Cons.prems tx_sent[OF t] have "sends sent P w w1" by (auto simp: sends_def)
  with t Cons.IH[of w1] Cons.prems show ?case by (cases b) (auto intro: sends_trans)
qed simp

lemma publish_value_sends:
  "(\<And>key v payload. out = Some (key, v) \<Longrightarrow> P (key, payload)) \<Longrightarrow>
   sends sent P w (turn_world (publish_value D st w out))"
  by (auto simp: publish_value_def simp del: publish.simps intro!: publish_sends split: option.splits result.splits)

lemma sends_after: "sent w' = sent w \<Longrightarrow> sends sent P w' w'' \<Longrightarrow> sends sent P w w''"
  by (blast intro: sends_trans sends_refl)

lemma ws_sent: "ws_send D w m = (w', r) \<Longrightarrow> sent w' = sent w"
  using send_sent[of w m] by simp

lemma select_turn_sends:
  assumes "\<And>st w bytes. sends sent P w (turn_world (on_bytes st w bytes))"
  shows "sends sent P w (turn_world (select_turn D ping on_bytes (st, w) e))"
  using assms by (auto simp: select_turn_def ws_sent intro!: sends_refl split: ws_event.splits prod.splits result.splits option.splits)

lemma read_loop_sends:
  assumes "\<And>st w e. sends sent P w (turn_world (turn (st, w) e))"
  shows "sends sent P w (snd (fst (read_loop turn (st, w) es)))"
proof (induction es arbitrary: st w)
  case (Cons e es)
  from assms[of w st e] Cons.IH show ?case by (cases "turn (st, w) e") (auto intro: sends_trans)
qed simp

lemma session_sends:
  assumes "\<And>w. sent (fst (subscribe w)) = sent w" "\<And>st w e. sends sent P w (turn_world (turn (st, w) e))"
  shows "sends sent P w (fst (session D url subscribe turn st es w))"
proof -
  obtain w1 r1 where c: "ws_connect D w url = (w1, r1)" by fastforce
  obtain w2 r2 where t: "subscribe w1 = (w2, r2)" by fastforce
  obtain st3 w3 end3 where l: "read_loop turn (st, w2) es = ((st3, w3), end3)" by (metis surj_pair)
  have "sent w1 = sent w" "sent w2 = sent w1" using connect_sent[of w url] assms(1)[of w1] c t by simp_all
  moreover have "sends sent P w2 w3" using read_loop_sends[where turn = turn and st = st and w = w2 and es = es, OF assms(2)] l by simp
  ultimately show ?thesis using c t l
    by (cases r1; cases r2) (auto simp: session_def intro: sends_refl sends_after)
qed

lemma subscribe_chunks_sent:
  "(\<And>w c. sent (fst (f w c)) = sent w) \<Longrightarrow> sent (fst (subscribe_chunks D delay f w cs)) = sent w"
proof (induction cs arbitrary: w)
  case (Cons c cs)
  have "sent w' = sent w" if "f w c = (w', r)" for w' r using Cons.prems[of w c] that by simp
  with Cons show ?case by (auto simp: sleep_sent split: prod.splits result.splits)
qed simp

lemma subscribe_in_batches_sent:
  "(\<And>w c. sent (fst (f w c)) = sent w) \<Longrightarrow> sent (fst (subscribe_in_batches D w items n delay f)) = sent w"
  by (simp add: subscribe_in_batches_def subscribe_chunks_sent)

lemma subscribe_channels_sent:
  "(\<And>w c. sent (fst (f w c)) = sent w) \<Longrightarrow> sent (fst (subscribe_channels D delay f w cs)) = sent w"
proof (induction cs arbitrary: w)
  case (Cons c cs)
  have "sent w' = sent w" if "f w c = (w', r)" for w' r using Cons.prems[of w c] that by simp
  with Cons show ?case by (auto simp: sleep_sent split: prod.splits result.splits)
qed simp

lemma send_all_sent: "sent (fst (send_all D w ms)) = sent w"
  by (induction ms arbitrary: w) (auto dest: ws_sent split: prod.splits result.splits)

lemma kucoin_topics_sent: "sent (fst (kucoin_topics D w i ts)) = sent w"
  by (induction ts arbitrary: w i) (auto simp: Let_def sleep_sent dest: ws_sent split: prod.splits result.splits)

lemma subscriptions_sent:
  "sent (fst (bybit_subscribe D topics w)) = sent w" "sent (fst (okx_subscribe D ids w)) = sent w"
  "sent (fst (kucoin_subscribe D symbols w)) = sent w" "sent (fst (bitget_subscribe D symbols w)) = sent w"
  "sent (fst (hyperliquid_subscribe D coins w)) = sent w" "sent (fst (paradex_subscribe D markets w)) = sent w"
proof -
  show "sent (fst (kucoin_subscribe D symbols w)) = sent w"
    using kucoin_topics_sent[of w 1 "concat (map chunk_topics (chunks 20 symbols))"]
    by (auto simp: kucoin_subscribe_def send_sent split: prod.splits result.splits)
qed (auto simp: bybit_subscribe_def okx_subscribe_def bitget_subscribe_def hyperliquid_subscribe_def paradex_subscribe_def
    subscribe_channel_def subscribe_bitget_channel_def send_sent send_all_sent simp del: subscribe_channels.simps send_all.simps
    intro!: subscribe_in_batches_sent subscribe_chunks_sent subscribe_channels_sent)

lemma hot_sent: "sent (bybit_hot D v symbol w) = sent w" "sent (okx_hot D c inst_id v w) = sent w"
  by (auto simp: bybit_hot_def okx_hot_def push_quote_sent split: option.splits)

lemma bybit_message_keyed:
  "snd (bybit_message D ts kt y v) = Some (key, x) \<Longrightarrow> keyed ''bybit'' (key, payload)"
  by (auto simp: bybit_message_def Let_def intro!: keyed_prefix[of "''bybit''" "''linear''"] split: if_splits option.splits)

lemma bybit_bytes_sends: "sends sent (keyed ''bybit'') w (turn_world (bybit_bytes D producer ts w bytes))"
proof (cases "Option.bind (from_slice D bytes) (\<lambda>v. map_option (Pair v) (Option.bind (get_str D v ''topic'') bybit_topic))")
  case None
  then show ?thesis by (auto simp: bybit_bytes_def split: option.splits)
next
  case (Some q)
  then obtain v kt y where q: "from_slice D bytes = Some v" "Option.bind (get_str D v ''topic'') bybit_topic = Some (kt, y)"
    by (auto simp: Option.bind_eq_Some_conv)
  let ?w = "if kt = ''tickers'' \<and> producer then bybit_hot D v y w else w"
  have "bybit_bytes D producer ts w bytes =
      publish_value D (fst (bybit_message D ts kt y v)) ?w (snd (bybit_message D ts kt y v))"
    using q by (simp add: bybit_bytes_def Let_def case_prod_beta)
  moreover have "sent ?w = sent w" by (simp add: hot_sent)
  ultimately show ?thesis
    by (auto intro!: sends_after[of ?w w] publish_value_sends bybit_message_keyed)
qed

lemma okx_bytes_sends: "sends sent (keyed ''okx'') w (turn_world (okx_bytes D producer st w bytes))"
proof -
  have "sends sent (keyed ''okx'') w (turn_world (publish_value D st w' (map_option (\<lambda>key. (key, v)) (okx_key c i))))"
    if "sent w' = sent w" for w' v c i
    by (intro sends_after[OF that] publish_value_sends)
      (auto simp: okx_key_def intro!: keyed_prefix[of "''okx''" "''usdt''"] split: if_splits)
  then show ?thesis using hot_sent(2) by (auto simp: okx_bytes_def Let_def split: option.splits)
qed

lemma kucoin_payload_keyed:
  "kucoin_redis_key_and_payload D topic subject data v = Some kp \<Longrightarrow> keyed ''kucoin'' kp"
  by (cases "serde_to_string D v")
    (auto simp: kucoin_redis_key_and_payload_def Let_def Option.bind_eq_Some_conv
      intro!: keyed_prefix[of "''kucoin''" "''futures''"] split: if_splits)

lemma kucoin_bytes_sends: "sends sent (keyed ''kucoin'') w (turn_world (kucoin_bytes D ts w bytes))"
  by (auto simp: kucoin_bytes_def Let_def simp del: publish.simps
      intro!: publish_sends publish_value_sends keyed_prefix[of "''kucoin''" "''futures''"]
      dest: kucoin_payload_keyed split: option.splits)

lemma bitget_bytes_sends: "sends sent (keyed ''bitget'') w (turn_world (bitget_bytes D st w bytes))"
  by (auto simp: bitget_bytes_def bitget_keys_def simp del: publish.simps
      intro!: publish_sends keyed_prefix[of "''bitget''" "''usdt''"] split: option.splits result.splits)

lemma hyperliquid_bytes_sends: "sends sent (keyed ''hyperliquid'') w (turn_world (hyperliquid_bytes D st w bytes))"
  by (auto simp: hyperliquid_bytes_def hyperliquid_key_def Let_def
      intro!: publish_value_sends keyed_prefix[of "''hyperliquid''" "''usdc''"] split: option.splits if_splits)

lemma paradex_bytes_sends: "sends sent (keyed ''paradex'') w (turn_world (paradex_bytes D st w bytes))"
  by (auto simp: paradex_bytes_def paradex_key_def Let_def
      intro!: publish_value_sends keyed_prefix[of "''paradex''" "''usdt''"] split: option.splits)

lemma redis_key_keyed: "redis_key_for stream y = Some key \<Longrightarrow> keyed ''binance'' (key, payload)"
  by (auto simp: redis_key_for_def intro!: keyed_prefix[of "''binance''" "''usdm''"] split: if_splits)

lemma binance_turn_sends: "sends sent (keyed ''binance'') w (turn_world (binance_turn D producer (st, w) e))"
proof -
  have "sends sent (keyed ''binance'') w (fst (tx_try_send D w' (key, payload)))"
    if "sent w' = sent w" "redis_key_for stream y = Some key" for w' stream y key payload
    using that(1) redis_key_keyed[OF that(2), of payload] try_sent[of w' "(key, payload)"]
    by (cases "tx_try_send D w' (key, payload)") (auto simp: sends_def split: if_splits)
  then have "sends sent (keyed ''binance'') w (turn_world (binance_bytes D producer st w bytes))" for bytes
    by (auto simp: binance_bytes_def Let_def push_quote_sent intro: sends_refl split: option.splits result.splits)
  then show ?thesis
    by (auto simp: binance_turn_def ws_sent intro!: sends_refl split: ws_event.splits ws_frame.splits prod.splits result.splits option.splits)
qed

end

subsection \<open>Reconnecting\<close>

lemma last_failures_simps [simp]:
  "last_failures [] = 0" "last_failures (fs @ [f]) = (if f then last_failures fs + 1 else 0)"
  by (simp_all add: last_failures_def)

lemma backoff_Suc: "backoff_after (Suc n) = (if n = 0 then 250 else min (backoff_after n * 2) 10000)"
  by (cases n) (auto simp: backoff_after_def min_def)

lemma backoff_bound: "backoff_after n \<le> 10000"
  by (simp add: backoff_after_def)

lemma backoff_zero: "backoff_after n = 0 \<longleftrightarrow> n = 0"
  by (auto simp: backoff_after_def min_def)

lemma apply_backoff_next:
  assumes "unat ms = backoff_after n"
  shows "unat (snd (apply_backoff D w ms)) = backoff_after (Suc n)"
proof (cases "n = 0")
  case True
  then have "ms = 0" using assms by (simp add: backoff_after_def unat_eq_0)
  with True show ?thesis by (simp add: apply_backoff_def backoff_Suc)
next
  case False
  then have "0 < ms" using assms backoff_zero[of n] by (metis unat_0 word_gt_0)
  moreover have u: "unat (ms * 2) = backoff_after n * 2" using assms backoff_bound[of n]
    by (subst unat_mult_lem[THEN iffD1]) auto
  moreover have "unat (min (ms * 2) 10000) = min (unat (ms * 2)) 10000"
    by (auto simp: min_def word_le_nat_alt)
  ultimately show ?thesis using False by (simp add: apply_backoff_def backoff_Suc)
qed

lemma worker_turn_next:
  assumes "unat ms = backoff_after n"
  shows "unat (snd (worker_turn D run (w, ms))) =
    backoff_after (case snd (run w) of Failed e \<Rightarrow> Suc n | _ \<Rightarrow> 0)"
  using apply_backoff_next[OF assms]
  by (auto simp: worker_turn_def reset_backoff_def backoff_after_def split: prod.splits session_end.splits)

lemma failures_append:
  "failures D (runs @ [run]) s = failures D runs s @
     [case snd (run (fst (worker_run D runs s))) of Failed e \<Rightarrow> True | _ \<Rightarrow> False]"
  by (induction runs arbitrary: s) (auto simp: worker_run_def)

lemma worker_backoff: "unat (snd (worker_run D runs (w, 0))) = backoff_after (last_failures (failures D runs (w, 0)))"
proof (induction runs rule: rev_induct)
  case (snoc run runs)
  obtain w1 ms where s: "worker_run D runs (w, 0) = (w1, ms)" by fastforce
  with snoc worker_turn_next[of ms _ D run w1] show ?case
    by (simp add: failures_append worker_run_def split: session_end.splits)
qed (simp add: worker_run_def backoff_after_def)

subsection \<open>Connections to Binance\<close>

lemma least_ms_mono: "m \<le> n \<Longrightarrow> least_ms m \<le> least_ms n"
  by (rule lift_Suc_mono_le) auto

lemma least_ms_20: "least_ms 20 = 315000"
  by (simp add: eval_nat_numeral)

lemma penalty_unat: "10 < unat a \<Longrightarrow> unat a \<le> 20 \<Longrightarrow> unat (penalty_ms a) = (unat a - 10) * 5000"
  for a :: u32
proof -
  assume a: "10 < unat a" "unat a \<le> 20"
  have "penalty_ms a = (of_nat (unat a) - of_nat 10) * 5000" by (simp add: penalty_ms_def)
  also have "\<dots> = of_nat ((unat a - 10) * 5000)" using a by (simp add: of_nat_diff)
  finally have p: "penalty_ms a = of_nat ((unat a - 10) * 5000)" .
  have u: "unat (of_nat k :: u64) = k" if "k < 2 ^ 64" for k using that by (simp add: unat_of_nat take_bit_nat_eq_self)
  show ?thesis unfolding p using a by (intro u) simp
qed

context feed_clock
begin

lemma binance_worker_window:
  assumes "window D (w, b)" "\<And>w. fd_instant D w \<le> fd_instant D (fst (run w))"
  shows "window D (binance_worker_turn D run (w, b))"
proof -
  let ?now = "fd_instant D w"
  define b1 where "b1 = (if 300 \<le> duration_since ?now (bw_last_reset b) div 1000000000
    then b\<lparr>bw_connection_attempts := 0, bw_last_reset := ?now\<rparr> else b)"
  define a where "a = unat (bw_connection_attempts b1)"
  have b1: "a \<le> 19 \<and> int (bw_last_reset b1) + least_ms a * 1000000 \<le> int ?now"
  proof (cases "300 \<le> duration_since ?now (bw_last_reset b) div 1000000000")
    case True
    then show ?thesis by (simp add: b1_def a_def)
  next
    case False
    then have "?now - bw_last_reset b < 300000000000" by (simp add: duration_since_def not_le div_less_iff_less_mult)
    then have "int ?now < int (bw_last_reset b) + 300000000000" by linarith
    moreover have "int (bw_last_reset b) + least_ms (unat (bw_connection_attempts b)) * 1000000 \<le> int ?now"
      using assms(1) by (simp add: window_def)
    moreover have "315000 \<le> least_ms (unat (bw_connection_attempts b))" if "\<not> unat (bw_connection_attempts b) \<le> 19"
      using least_ms_mono[of 20 "unat (bw_connection_attempts b)"] that least_ms_20 by simp
    ultimately have "unat (bw_connection_attempts b) \<le> 19" by linarith
    with False assms(1) show ?thesis by (simp add: b1_def a_def window_def)
  qed
  define b2 where "b2 = b1\<lparr>bw_connection_attempts := bw_connection_attempts b1 + 1\<rparr>"
  have n: "unat (bw_connection_attempts b2) = Suc a" using b1 by (simp add: b2_def a_def unat_word_ariths)
  define w1 where "w1 = (if bw_connection_attempts b2 > 10 then fd_sleep_ms D w (penalty_ms (bw_connection_attempts b2)) else w)"
  have w1: "?now + (Suc a - 10) * 5000 * 1000000 \<le> fd_instant D w1"
    using sleep_lasts[of w "penalty_ms (bw_connection_attempts b2)"] penalty_unat[of "bw_connection_attempts b2"] n b1
    by (auto simp: w1_def word_less_nat_alt)
  obtain w2 r where r: "run w1 = (w2, r)" by fastforce
  then have w2: "fd_instant D w1 \<le> fd_instant D w2" using assms(2)[of w1] by simp
  obtain w3 b3 where t: "(case run w1 of
      (w, Failed _) \<Rightarrow> (case apply_backoff D w (bw_backoff_ms b2) of (w, ms) \<Rightarrow> (w, b2\<lparr>bw_backoff_ms := ms\<rparr>))
    | (w, _) \<Rightarrow> (w, b2\<lparr>bw_backoff_ms := 0\<rparr>)) = (w3, b3)" by fastforce
  then have w3: "fd_instant D w2 \<le> fd_instant D w3" and b3: "bw_connection_attempts b3 = bw_connection_attempts b2"
    "bw_last_reset b3 = bw_last_reset b2"
    using r by (auto dest: backoff_lasts split: session_end.splits prod.splits)
  have "2000 \<le> unat (max 2000 (bw_backoff_ms b3))" by (simp add: max_def word_le_nat_alt)
  with sleep_lasts[of w3 "max 2000 (bw_backoff_ms b3)"] have w4:
    "fd_instant D w3 + 2000 * 1000000 \<le> fd_instant D (fd_sleep_ms D w3 (max 2000 (bw_backoff_ms b3)))" by linarith
  have "binance_worker_turn D run (w, b) = (fd_sleep_ms D w3 (max 2000 (bw_backoff_ms b3)), b3)"
    unfolding binance_worker_turn_def Let_def prod.case b1_def[symmetric] b2_def[symmetric] w1_def[symmetric] t by simp
  then show ?thesis using w1 w2 w3 w4 b1 n b3 by (simp add: window_def b2_def)
qed

lemma binance_turns_window:
  assumes "window D s" "\<forall>run \<in> set runs. \<forall>w. fd_instant D w \<le> fd_instant D (fst (run w))"
  shows "window D (binance_turns D runs s)"
  using assms
proof (induction runs arbitrary: s)
  case (Cons run runs)
  obtain w b where s: "s = (w, b)" by (cases s)
  have "window D (binance_worker_turn D run s)" unfolding s
    by (rule binance_worker_window) (use Cons.prems s in auto)
  with Cons.IH[of "binance_worker_turn D run s"] Cons.prems show ?case by (simp add: binance_turns_def)
qed (simp add: binance_turns_def)

end

subsection \<open>The hot paths\<close>

lemma replace_dash: "str_replace ''-'' [] s = filter (\<lambda>c. c \<noteq> CHR ''-'') s"
  by (induction s) auto

lemma symbol_ends: "symbol_to_id y = Some i \<Longrightarrow> last y = CHR ''T''"
  by (auto simp: symbol_to_id_def SYMBOL_TO_ID_def split: if_splits)

text \<open>The instruments that the connector asks for are swaps, whose names end in \<open>-SWAP\<close>: with its dashes taken
  out such a name is never one of the known symbols, so the connector never pushes an update.\<close>

lemma okx_hot_never_pushes: "okx_hot D c (base @ ''-SWAP'') v w = w"
proof -
  have "symbol_to_id (x @ ''SWAP'') = None" for x
    using symbol_ends[of "x @ ''SWAP''"] by (cases "symbol_to_id (x @ ''SWAP'')") auto
  then show ?thesis by (auto simp: okx_hot_def push_quote_def replace_dash split: option.splits)
qed

text \<open>Nor does a ticker of Bybit that carries only one of the prices push anything, although the merged ticker has
  both.\<close>

lemma bybit_hot_needs_both:
  "j_get (fd_json D) v ''data'' = Some d \<Longrightarrow>
   j_get (fd_json D) d ''bid1Price'' = None \<or> j_get (fd_json D) d ''ask1Price'' = None \<Longrightarrow> bybit_hot D v symbol w = w"
  by (auto simp: bybit_hot_def push_quote_def get_number_def get_str_def split: option.splits)

subsection \<open>From the exchange to the bridge\<close>

lemma read_loop_snoc:
  "read_loop turn s (es @ [e]) = (s', Open) \<Longrightarrow> \<exists>s1. read_loop turn s es = (s1, Open) \<and> turn s1 e = Continue s'"
  by (induction es arbitrary: s) (auto split: turn.splits)

lemma tickers_snoc: "ticker_of D symbol e = Some v \<Longrightarrow> tickers_of D symbol (es @ [e]) = tickers_of D symbol es @ [v]"
  by (simp add: tickers_of_def List.map_filter_def)

lemma bybit_quote:
  assumes "from_str text = Some v" "CHR '':'' \<notin> set symbol"
    and "path_str D [''data'', ''bid1Price''] v = Some bt" "path_str D [''data'', ''ask1Price''] v = Some askt"
    and "parse_price_simd avx bt = Some bid" "parse_price_simd avx askt = Some ask" "0 < bid" "bid < ask"
  shows "message_quote avx (fd_json D) from_str (''bybit:linear:tickers:'' @ symbol) text =
    Some (''bybit'', normalize_symbol symbol, bid, ask)"
proof -
  have "split_on (CHR '':'') (''bybit:linear:tickers:'' @ symbol) = [''bybit'', ''linear'', ''tickers'', symbol]"
    using assms(2) by (simp add: split_on_no_sep)
  moreover have "\<not> (bid \<le> lit 0 \<or> ask \<le> lit 0 \<or> bid \<ge> ask)"
    using assms(7,8) f_less_trans[OF assms(7,8)] by (simp add: f_less_not_le)
  ultimately show ?thesis using assms
    by (simp add: message_quote_def get_parser_def BybitParser_def path_str_def Let_def)
qed

section \<open>Properties\<close>

text \<open>C10. From Bybit to the bridge.  While a connection stays open, every ticker of a symbol sends the bridge exactly
  one message, and the bridge reads from it the latest bid and the latest ask that any ticker of the connection
  gave, though each ticker may carry only what changed: the prices are the last ones, positive and not crossed, and
  the quote is attributed to Bybit and to the normalised symbol.\<close>

theorem latest_quote_forwarded:
  assumes "json_objects D" "channel D sent"
    and "run_bybit_linear_ws_batch D producer topics (es @ [e]) w = (w', Open)"
    and "ticker_of D symbol e \<noteq> None" "CHR '':'' \<notin> set symbol"
    and "\<forall>v \<in> set (tickers_of D symbol (es @ [e])). \<exists>d. j_get (fd_json D) v ''data'' = Some d \<and> as_object D d \<noteq> None"
    and "\<forall>v text. serde_to_string D v = Ok text \<longrightarrow>
      (\<exists>v'. from_str text = Some v' \<and> (\<forall>ks. path_str D ks v' = path_str D ks v))"
    and "Option.bind (latest_field D (tickers_of D symbol (es @ [e])) ''bid1Price'') (j_as_str (fd_json D)) = Some bid_str"
    and "Option.bind (latest_field D (tickers_of D symbol (es @ [e])) ''ask1Price'') (j_as_str (fd_json D)) = Some ask_str"
    and "parse_price_simd avx bid_str = Some bid" "parse_price_simd avx ask_str = Some ask" "0 < bid" "bid < ask"
  shows "\<exists>text. sent w' = sent (fst (run_bybit_linear_ws_batch D producer topics es w)) @
      [(''bybit:linear:tickers:'' @ symbol, text)] \<and>
    message_quote avx (fd_json D) from_str (''bybit:linear:tickers:'' @ symbol) text =
      Some (''bybit'', normalize_symbol symbol, bid, ask)"
proof -
  let ?turn = "select_turn D (bybit_ping D) (bybit_bytes D producer)"
  obtain v where v: "ticker_of D symbol e = Some v" using assms(4) by blast
  obtain w1 w2 where c: "ws_connect D w ''wss://stream.bybit.com/v5/public/linear'' = (w1, Ok ())"
    and t: "bybit_subscribe D topics w1 = (w2, Ok ())"
    and l: "\<exists>ts. read_loop ?turn (Map.empty, w2) (es @ [e]) = ((ts, w'), Open)"
    using assms(3) by (auto simp: run_bybit_linear_ws_batch_def session_def split: prod.splits result.splits)
  from l read_loop_snoc[of ?turn "(Map.empty, w2)" es e] obtain ts3 w3 ts' where
    r: "read_loop ?turn (Map.empty, w2) es = ((ts3, w3), Open)" and n: "?turn (ts3, w3) e = Continue (ts', w')"
    by (metis surj_pair)
  have w3: "fst (run_bybit_linear_ws_batch D producer topics es w) = w3"
    using c t r by (simp add: run_bybit_linear_ws_batch_def session_def)
  from channel.bybit_ticker_sent[OF assms(2) n v] obtain st payload where
    st: "merge_next D (ts3 symbol) v = Some st" and p: "serde_to_string D st = Ok payload"
    and out: "sent w' = sent w3 @ [(''bybit:linear:tickers:'' @ symbol, payload)]" by blast
  have all: "foldl (merge_next D) None (tickers_of D symbol (es @ [e])) = Some st"
    using bybit_session_state[OF r, of symbol] st by (simp add: tickers_snoc[OF v])
  from json_objects.merged_latest[OF assms(1) _ assms(6)] all tickers_snoc[OF v, of es] obtain sd where
    sd: "j_get (fd_json D) st ''data'' = Some sd"
      "\<forall>k. j_get (fd_json D) sd k = latest_field D (tickers_of D symbol (es @ [e])) k" by auto
  from assms(7) p obtain v' where v': "from_str payload = Some v'" "\<forall>ks. path_str D ks v' = path_str D ks st" by blast
  have "path_str D [''data'', ''bid1Price''] v' = Some bid_str" "path_str D [''data'', ''ask1Price''] v' = Some ask_str"
    unfolding v'(2)[rule_format] using sd assms(8,9) by (simp_all add: path_str_def)
  with bybit_quote[of from_str payload v' symbol D bid_str ask_str] v'(1) assms(5,10-13) out w3 show ?thesis by blast
qed

theorem latest_quote_forwarded_witness:
  "\<exists>t bid ask. fst (run_bybit_linear_ws_batch sample_feed False [] [Frame (Text ''ticker''), Frame (Text ''delta'')] []) =
      fst (run_bybit_linear_ws_batch sample_feed False [] [Frame (Text ''ticker'')] []) @ [(''bybit:linear:tickers:BTCUSDT'', t)] \<and>
    parse_price_simd False ''99.75'' = Some bid \<and> parse_price_simd False ''100'' = Some ask \<and>
    message_quote False value_ops sample_from_str ''bybit:linear:tickers:BTCUSDT'' t =
      Some (''bybit'', normalize_symbol ''BTCUSDT'', bid, ask)"
proof -
  have r: "run_bybit_linear_ws_batch sample_feed False [] ([Frame (Text ''ticker'')] @ [Frame (Text ''delta'')]) [] =
      ([(''bybit:linear:tickers:BTCUSDT'', ''ticker''), (''bybit:linear:tickers:BTCUSDT'', ''merged'')], Open)" by code_simp
  have t: "tickers_of sample_feed ''BTCUSDT'' ([Frame (Text ''ticker'')] @ [Frame (Text ''delta'')]) = [sample_ticker, sample_delta]"
    by code_simp
  have q: "ticker_of sample_feed ''BTCUSDT'' (Frame (Text ''delta'')) \<noteq> None" by code_simp
  have l: "Option.bind (latest_field sample_feed [sample_ticker, sample_delta] ''bid1Price'') (j_as_str (fd_json sample_feed)) = Some ''99.75''"
    "Option.bind (latest_field sample_feed [sample_ticker, sample_delta] ''ask1Price'') (j_as_str (fd_json sample_feed)) = Some ''100''"
    by code_simp+
  have d: "\<forall>v \<in> set [sample_ticker, sample_delta]. \<exists>d. j_get (fd_json sample_feed) v ''data'' = Some d \<and> as_object sample_feed d \<noteq> None"
    by (simp add: sample_feed_def sample_ticker_def sample_delta_def value_ops_def)
  have b: "\<forall>v t. serde_to_string sample_feed v = Ok t \<longrightarrow>
      (\<exists>v'. sample_from_str t = Some v' \<and> (\<forall>ks. path_str sample_feed ks v' = path_str sample_feed ks v))"
    by (auto simp: sample_feed_def sample_from_str_def split: if_splits)
  have p: "parse_price_simd False ''99.75'' = Some (lit 99.75)" "parse_price_simd False ''100'' = Some (lit 100)"
    "0 < lit 99.75" "lit 99.75 < lit 100" by code_simp+
  have j: "fd_json sample_feed = value_ops" by (simp add: sample_feed_def)
  from latest_quote_forwarded[OF sample_objects.json_objects_axioms sample_channel.channel_axioms r q _ _ b, unfolded t, OF _ d l p]
  show ?thesis using r p unfolding j by auto
qed

text \<open>C15. Every message that a connector sends to the bridge, in any connection however it ends, has a key of at least
  three parts whose first is the name of that exchange: the bridge never attributes a quote to another exchange.\<close>

theorem messages_keyed:
  assumes "channel D sent"
  shows "sends sent (keyed ''bybit'') w (fst (run_bybit_linear_ws_batch D producer topics events w)) \<and>
    sends sent (keyed ''okx'') w (fst (run_okx_ws_batch D producer inst_ids events w)) \<and>
    sends sent (keyed ''kucoin'') w (fst (run_kucoin_ws_batch D token_resp symbols events w)) \<and>
    sends sent (keyed ''bitget'') w (fst (run_bitget_ws_batch D symbols events w)) \<and>
    sends sent (keyed ''hyperliquid'') w (fst (run_hyperliquid_batch D coins events w)) \<and>
    sends sent (keyed ''paradex'') w (fst (run_paradex_batch D markets events w)) \<and>
    sends sent (keyed ''binance'') w (fst (run_binance_ws_batch D producer streams events w))"
proof -
  note s = channel.session_sends[OF assms] and t = channel.select_turn_sends[OF assms]
  have "sends sent (keyed ''kucoin'') w (fst (run_kucoin_ws_batch D token_resp symbols events w))"
    by (auto simp: run_kucoin_ws_batch_def channel.subscriptions_sent[OF assms] split: result.splits
        intro!: s t channel.kucoin_bytes_sends[OF assms])
  then show ?thesis
    unfolding run_bybit_linear_ws_batch_def run_okx_ws_batch_def run_bitget_ws_batch_def run_hyperliquid_batch_def
      run_paradex_batch_def run_binance_ws_batch_def
    by (intro conjI s t channel.subscriptions_sent[OF assms] channel.bybit_bytes_sends[OF assms]
        channel.okx_bytes_sends[OF assms] channel.bitget_bytes_sends[OF assms] channel.hyperliquid_bytes_sends[OF assms]
        channel.paradex_bytes_sends[OF assms] channel.binance_turn_sends[OF assms]) simp_all
qed

theorem messages_keyed_witness:
  "fst (run_bybit_linear_ws_batch sample_feed False [] [Frame (Text ''ticker'')] []) \<noteq> [] \<and>
   list_all (keyed ''bybit'') (fst (run_bybit_linear_ws_batch sample_feed False [] [Frame (Text ''ticker'')] []))"
proof -
  have "fst (run_bybit_linear_ws_batch sample_feed False [] [Frame (Text ''ticker'')] []) =
    [(''bybit:linear:tickers:BTCUSDT'', ''ticker'')]" by code_simp
  with messages_keyed[OF sample_channel.channel_axioms, of "[]" False "[]" "[Frame (Text ''ticker'')]"]
  show ?thesis by (simp add: sends_def)
qed

text \<open>C27. Subscriptions of Bybit.  The symbols that are fetched are all different, and every topic of every symbol, its
  ticker and its funding, goes to exactly one worker, of at most 100 topics; a worker whose subscription succeeds has
  written its topics to the connection once each, in order, in messages of at most ten.\<close>

theorem bybit_subscribes_once:
  assumes "fetch_valid_linear_symbols get_page w0 = Some (w1, Ok symbols)" "socket D out"
    and "topics \<in> set (bybit_workers symbols)" "bybit_subscribe D topics w = (w', Ok ())"
  shows "distinct (concat (bybit_workers symbols)) \<and>
    set (concat (bybit_workers symbols)) = (\<lambda>s. ''tickers.'' @ s) ` set symbols \<union> (\<lambda>s. ''funding.'' @ s) ` set symbols \<and>
    length topics \<le> 100 \<and>
    (\<exists>cs. out w' = out w @ map (\<lambda>c. subscribe_op D (json_arr D (map (json_str D) c))) cs \<and> concat cs = topics \<and>
       list_all (\<lambda>c. 1 \<le> length c \<and> length c \<le> 10) cs)"
proof -
  obtain r :: "(string list, string) result" where "(case r of Ok symbols \<Rightarrow> Ok (sort_dedup symbols) | Err e \<Rightarrow> Err e) = Ok symbols"
    using assms(1) unfolding fetch_valid_linear_symbols_def by (auto simp: case_prod_beta)
  then obtain found where "symbols = sort_dedup found" by (cases r) auto
  then have "distinct symbols" by (simp add: sort_dedup_distinct)
  then have "distinct (bybit_topics symbols)" by (auto simp: bybit_topics_def distinct_map inj_on_def)
  moreover have w: "concat (bybit_workers symbols) = bybit_topics symbols"
    by (simp add: bybit_workers_def chunk_vec_chunks concat_chunks)
  moreover have "length topics \<le> 100" using assms(3) chunks_bounds[of 100 topics]
    by (simp add: bybit_workers_def chunk_vec_chunks)
  moreover have "list_all (\<lambda>c. 1 \<le> length c \<and> length c \<le> 10) (chunks 10 topics)"
    using chunks_bounds[of 10 _ topics] by (auto simp: list_all_iff Suc_le_eq)
  moreover have "out w' = out w @ map (\<lambda>c. subscribe_op D (json_arr D (map (json_str D) c))) (chunks 10 topics)"
    using assms(4) socket.subscribe_chunks_out[OF assms(2)]
    by (simp add: bybit_subscribe_def subscribe_in_batches_def)
  moreover have "concat (chunks 10 topics) = topics" by (simp add: concat_chunks)
  moreover have "set (bybit_topics symbols) = (\<lambda>s. ''tickers.'' @ s) ` set symbols \<union> (\<lambda>s. ''funding.'' @ s) ` set symbols"
    by (auto simp: bybit_topics_def)
  ultimately show ?thesis by (metis (no_types, lifting))
qed

theorem bybit_subscribes_once_witness:
  "\<exists>cs. fst (bybit_subscribe sample_socket [''tickers.BTCUSDT'', ''funding.BTCUSDT''] []) =
      map (\<lambda>c. subscribe_op sample_socket (JArr (map JStr c))) cs \<and>
    concat cs = [''tickers.BTCUSDT'', ''funding.BTCUSDT''] \<and> list_all (\<lambda>c. 1 \<le> length c \<and> length c \<le> 10) cs"
proof -
  let ?page = "\<lambda>w c. (w, Ok \<lparr>ip_ret_code = 0, ip_result = Some \<lparr>ir_list = [\<lparr>ii_symbol = ''BTCUSDT'',
    ii_status = ''Trading'', ii_quote_coin = Some ''USDT''\<rparr>], ir_next_page_cursor = None\<rparr>\<rparr>)"
  let ?topics = "[''tickers.BTCUSDT'', ''funding.BTCUSDT'']"
  have f: "fetch_valid_linear_symbols ?page () = Some ((), Ok [''BTCUSDT''])"
    by (simp add: fetch_valid_linear_symbols_def fetch_pages.simps is_linear_def next_cursor_def sort_dedup_def)
  have t: "?topics \<in> set (bybit_workers [''BTCUSDT''])" by code_simp
  have "snd (bybit_subscribe sample_socket ?topics []) = Ok ()" by code_simp
  then have s: "bybit_subscribe sample_socket ?topics [] = (fst (bybit_subscribe sample_socket ?topics []), Ok ())"
    by (simp add: prod_eq_iff)
  have j: "json_arr sample_socket = JArr" "json_str sample_socket = JStr" by (simp_all add: sample_socket_def)
  from bybit_subscribes_once[OF f sample_socket.socket_axioms t s] show ?thesis unfolding j by auto
qed

text \<open>C40. Reconnecting.  After any sequence of connections of a worker the backoff is determined by how many of the
  last ones failed in a row: none after a connection that ended in order, then 250 ms, doubled with each failure up
  to ten seconds.  The worker pauses for the backoff only when a connection failed and the one before it failed too;
  it opens the next one at once after an orderly end and after a first failure.\<close>

theorem reconnect_backoff:
  "case worker_run D runs (w, 0) of (w1, ms) \<Rightarrow>
     let n = last_failures (failures D runs (w, 0)) in
     unat ms = backoff_after n \<and> unat ms \<le> 10000 \<and>
     (case run w1 of
        (w2, Failed e) \<Rightarrow>
          fst (worker_turn D run (w1, ms)) = (if n = 0 then w2 else fd_sleep_ms D w2 ms) \<and>
          unat (snd (worker_turn D run (w1, ms))) = min (250 * 2 ^ n) 10000
      | (w2, _) \<Rightarrow> worker_turn D run (w1, ms) = (w2, 0))"
proof -
  obtain w1 ms where s: "worker_run D runs (w, 0) = (w1, ms)" by fastforce
  define n where "n = last_failures (failures D runs (w, 0))"
  have m: "unat ms = backoff_after n" using worker_backoff[of D runs w] s by (simp add: n_def)
  have z: "ms > 0 \<longleftrightarrow> n \<noteq> 0" using m backoff_zero[of n] by (metis unat_0 unat_eq_zero word_gt_0)
  obtain w2 r where r: "run w1 = (w2, r)" by fastforce
  have "unat (snd (worker_turn D run (w1, ms))) = min (250 * 2 ^ n) 10000" if "r = Failed e" for e
    using worker_turn_next[OF m, of D run w1] r that by (simp add: backoff_after_def)
  moreover have "fst (worker_turn D run (w1, ms)) = (if n = 0 then w2 else fd_sleep_ms D w2 ms)" if "r = Failed e" for e
    using r that z by (simp add: worker_turn_def apply_backoff_def)
  moreover have "worker_turn D run (w1, ms) = (w2, 0)" if "\<forall>e. r \<noteq> Failed e"
    using r that by (cases r) (auto simp: worker_turn_def reset_backoff_def)
  ultimately show ?thesis using m r backoff_bound[of n]
    by (cases r) (auto simp: s Let_def n_def[symmetric])
qed



end
