(* ===== verification/Measurement.thy ===== *)
theory Measurement
  imports Types
begin

text \<open>
  Measurement and placement of threads: latency_tracker.rs, latency.rs, test_metrics.rs, buffer_pool.rs and
  thread_pinning.rs under src/src/strategy.

  The statistics of latency_tracker.rs are shared by threads without a lock.  \<open>record_latency\<close> is a call that
  runs alone; \<open>rstep\<close> interleaves any number of calls at their single atomic accesses, with compare-exchange
  allowed to fail for no reason.  A mutex is a value, or \<open>None\<close> once it is poisoned.  A duration is a number of
  nanoseconds.  The capacity of strings and the output of the reports are left out.
\<close>

section \<open>latency_tracker.rs\<close>

record latency_stats =
  p50_ns :: u64
  p95_ns :: u64
  p99_ns :: u64
  max_ns :: u64
  ls_count :: u64

definition LatencyStats_new :: latency_stats where
  "LatencyStats_new = \<lparr>p50_ns = 0, p95_ns = 0, p99_ns = 0, max_ns = 0, ls_count = 0\<rparr>"

abbreviation u64_as_f64 :: "u64 \<Rightarrow> f64" where
  "u64_as_f64 x \<equiv> nat_as_f64 (unat x)"

definition alpha :: f64 where
  "alpha = lit 0.1"

definition new_p50 :: "u64 \<Rightarrow> u64 \<Rightarrow> u64" where
  "new_p50 current_p50 latency_ns =
     f64_as_u64 ((lit 1 - alpha) * u64_as_f64 current_p50 + alpha * u64_as_f64 latency_ns)"

definition new_p95 :: "u64 \<Rightarrow> u64 \<Rightarrow> u64" where
  "new_p95 current_p95 latency_ns =
     f64_as_u64 ((lit 1 - alpha * lit 0.5) * u64_as_f64 current_p95 + alpha * lit 0.5 * u64_as_f64 latency_ns)"

definition new_p99 :: "u64 \<Rightarrow> u64 \<Rightarrow> u64" where
  "new_p99 current_p99 latency_ns =
     f64_as_u64 ((lit 1 - alpha * lit 0.2) * u64_as_f64 current_p99 + alpha * lit 0.2 * u64_as_f64 latency_ns)"

definition record_latency :: "latency_stats \<Rightarrow> u64 \<Rightarrow> latency_stats" where
  "record_latency s latency_ns =
     (let s = s\<lparr>ls_count := ls_count s + 1\<rparr>;
          s = (if latency_ns > max_ns s then s\<lparr>max_ns := latency_ns\<rparr> else s);
          current_p50 = p50_ns s;
          s = s\<lparr>p50_ns := new_p50 current_p50 latency_ns\<rparr>;
          s = (if latency_ns > current_p50 then s\<lparr>p95_ns := new_p95 (p95_ns s) latency_ns\<rparr> else s)
      in if latency_ns > p95_ns s then s\<lparr>p99_ns := new_p99 (p99_ns s) latency_ns\<rparr> else s)"

definition LatencyStats_snapshot :: "latency_stats \<Rightarrow> latency_stats" where
  "LatencyStats_snapshot s =
     \<lparr>p50_ns = p50_ns s, p95_ns = p95_ns s, p99_ns = p99_ns s, max_ns = max_ns s, ls_count = ls_count s\<rparr>"

definition LatencyStats_reset :: "latency_stats \<Rightarrow> latency_stats" where
  "LatencyStats_reset s = s\<lparr>p50_ns := 0, p95_ns := 0, p99_ns := 0, max_ns := 0, ls_count := 0\<rparr>"

definition latency_us :: "u64 \<Rightarrow> f64" where
  "latency_us ns = u64_as_f64 ns / lit 1000"

definition latency_ms :: "u64 \<Rightarrow> f64" where
  "latency_ms ns = u64_as_f64 ns / lit 1000000"

text \<open>\<open>now\<close> reads the clock, \<open>f\<close> is what is measured.\<close>

definition measure_latency :: "('w \<Rightarrow> instant) \<Rightarrow> ('w \<Rightarrow> 'w \<times> 'r) \<Rightarrow> 'w \<Rightarrow> 'w \<times> 'r \<times> u64" where
  "measure_latency now f w =
     (let start = now w; (w, result) = f w in (w, result, of_nat (duration_since (now w) start)))"

definition measure_and_record ::
  "('w \<Rightarrow> instant) \<Rightarrow> ('w \<Rightarrow> 'w \<times> 'r) \<Rightarrow> 'w \<Rightarrow> latency_stats \<Rightarrow> 'w \<times> latency_stats \<times> 'r" where
  "measure_and_record now f w stats =
     (let (w, result, latency_ns) = measure_latency now f w in (w, record_latency stats latency_ns, result))"

text \<open>A call of \<open>record\<close>, by the access it is about to make; \<open>Unused\<close> is a call that has not begun.\<close>

datatype rpc = Unused | CountAdd u64 | MaxLoad u64 | MaxTest u64 u64 | MaxSwap u64 u64 | P50Load u64 | P50Store u64 u64
  | P95Load u64 | P95Store u64 u64 | P95Test u64 | P99Load u64 | P99Store u64 u64 | Recorded u64

type_synonym rstate = "latency_stats \<times> (nat \<Rightarrow> rpc)"

inductive rstep :: "rstate \<Rightarrow> rstate \<Rightarrow> bool" where
  call: "cs c = Unused \<Longrightarrow> rstep (s, cs) (s, cs(c := CountAdd l))"
| count: "cs c = CountAdd l \<Longrightarrow> rstep (s, cs) (s\<lparr>ls_count := ls_count s + 1\<rparr>, cs(c := MaxLoad l))"
| load_max: "cs c = MaxLoad l \<Longrightarrow> rstep (s, cs) (s, cs(c := MaxTest l (max_ns s)))"
| max_above: "cs c = MaxTest l current_max \<Longrightarrow> l > current_max \<Longrightarrow> rstep (s, cs) (s, cs(c := MaxSwap l current_max))"
| max_below: "cs c = MaxTest l current_max \<Longrightarrow> \<not> l > current_max \<Longrightarrow> rstep (s, cs) (s, cs(c := P50Load l))"
| swap_ok: "cs c = MaxSwap l current_max \<Longrightarrow> max_ns s = current_max \<Longrightarrow>
    rstep (s, cs) (s\<lparr>max_ns := l\<rparr>, cs(c := P50Load l))"
| swap_failed: "cs c = MaxSwap l current_max \<Longrightarrow> rstep (s, cs) (s, cs(c := MaxTest l (max_ns s)))"
| load_p50: "cs c = P50Load l \<Longrightarrow> rstep (s, cs) (s, cs(c := P50Store l (p50_ns s)))"
| store_p50: "cs c = P50Store l current_p50 \<Longrightarrow>
    rstep (s, cs) (s\<lparr>p50_ns := new_p50 current_p50 l\<rparr>, cs(c := if l > current_p50 then P95Load l else P95Test l))"
| load_p95: "cs c = P95Load l \<Longrightarrow> rstep (s, cs) (s, cs(c := P95Store l (p95_ns s)))"
| store_p95: "cs c = P95Store l current_p95 \<Longrightarrow>
    rstep (s, cs) (s\<lparr>p95_ns := new_p95 current_p95 l\<rparr>, cs(c := P95Test l))"
| test_p95: "cs c = P95Test l \<Longrightarrow> rstep (s, cs) (s, cs(c := if l > p95_ns s then P99Load l else Recorded l))"
| load_p99: "cs c = P99Load l \<Longrightarrow> rstep (s, cs) (s, cs(c := P99Store l (p99_ns s)))"
| store_p99: "cs c = P99Store l current_p99 \<Longrightarrow>
    rstep (s, cs) (s\<lparr>p99_ns := new_p99 current_p99 l\<rparr>, cs(c := Recorded l))"

inductive rreach :: "rstate \<Rightarrow> bool" where
  start: "rreach (LatencyStats_new, \<lambda>_. Unused)"
| step: "rreach g \<Longrightarrow> rstep g g' \<Longrightarrow> rreach g'"

section \<open>latency.rs\<close>

type_synonym latency_monitor = "(string \<times> u64 list) list"

definition LatencyMonitor_new :: latency_monitor where
  "LatencyMonitor_new = []"

definition any_stale :: "latency_monitor \<Rightarrow> u64 \<Rightarrow> bool" where
  "any_stale m threshold_ms =
     list_ex (\<lambda>(_, latencies).
       if latencies = [] then False
       else let avg = sum_list latencies div of_nat (length latencies) in avg > threshold_ms) m"

section \<open>test_metrics.rs\<close>

record test_metrics =
  opportunities_generated :: u64
  trades_executed :: u64
  trades_successful :: u64
  trades_failed :: u64
  partial_fills :: u64
  cancellations :: u64
  timeouts :: u64
  emergency_closes :: u64
  websocket_to_queue_latencies :: "nat list option"
  queue_to_strategy_latencies :: "nat list option"
  opportunity_detection_latencies :: "nat list option"
  order_placement_latencies :: "nat list option"
  end_to_end_latencies :: "nat list option"

definition TestMetricsCollector_new :: test_metrics where
  "TestMetricsCollector_new =
     \<lparr>opportunities_generated = 0, trades_executed = 0, trades_successful = 0, trades_failed = 0, partial_fills = 0,
      cancellations = 0, timeouts = 0, emergency_closes = 0, websocket_to_queue_latencies = Some [],
      queue_to_strategy_latencies = Some [], opportunity_detection_latencies = Some [],
      order_placement_latencies = Some [], end_to_end_latencies = Some []\<rparr>"

definition record_opportunity :: "test_metrics \<Rightarrow> test_metrics" where
  "record_opportunity m = m\<lparr>opportunities_generated := opportunities_generated m + 1\<rparr>"

definition record_trade_executed :: "test_metrics \<Rightarrow> test_metrics" where
  "record_trade_executed m = m\<lparr>trades_executed := trades_executed m + 1\<rparr>"

definition record_success :: "test_metrics \<Rightarrow> test_metrics" where
  "record_success m = m\<lparr>trades_successful := trades_successful m + 1\<rparr>"

definition record_failure :: "test_metrics \<Rightarrow> test_metrics" where
  "record_failure m = m\<lparr>trades_failed := trades_failed m + 1\<rparr>"

definition record_partial_fill :: "test_metrics \<Rightarrow> test_metrics" where
  "record_partial_fill m = m\<lparr>partial_fills := partial_fills m + 1\<rparr>"

definition record_cancellation :: "test_metrics \<Rightarrow> test_metrics" where
  "record_cancellation m = m\<lparr>cancellations := cancellations m + 1\<rparr>"

definition record_timeout :: "test_metrics \<Rightarrow> test_metrics" where
  "record_timeout m = m\<lparr>timeouts := timeouts m + 1\<rparr>"

definition record_emergency_close :: "test_metrics \<Rightarrow> test_metrics" where
  "record_emergency_close m = m\<lparr>emergency_closes := emergency_closes m + 1\<rparr>"

definition push_latency :: "nat \<Rightarrow> nat list option \<Rightarrow> nat list option" where
  "push_latency latency lock = map_option (\<lambda>latencies. latencies @ [latency]) lock"

definition record_websocket_latency :: "test_metrics \<Rightarrow> nat \<Rightarrow> test_metrics" where
  "record_websocket_latency m d = m\<lparr>websocket_to_queue_latencies := push_latency d (websocket_to_queue_latencies m)\<rparr>"

definition record_queue_latency :: "test_metrics \<Rightarrow> nat \<Rightarrow> test_metrics" where
  "record_queue_latency m d = m\<lparr>queue_to_strategy_latencies := push_latency d (queue_to_strategy_latencies m)\<rparr>"

definition record_opportunity_detection_latency :: "test_metrics \<Rightarrow> nat \<Rightarrow> test_metrics" where
  "record_opportunity_detection_latency m d =
     m\<lparr>opportunity_detection_latencies := push_latency d (opportunity_detection_latencies m)\<rparr>"

definition record_order_placement_latency :: "test_metrics \<Rightarrow> nat \<Rightarrow> test_metrics" where
  "record_order_placement_latency m d = m\<lparr>order_placement_latencies := push_latency d (order_placement_latencies m)\<rparr>"

definition record_end_to_end_latency :: "test_metrics \<Rightarrow> nat \<Rightarrow> test_metrics" where
  "record_end_to_end_latency m d = m\<lparr>end_to_end_latencies := push_latency d (end_to_end_latencies m)\<rparr>"

definition calculate_success_rate :: "test_metrics \<Rightarrow> f64" where
  "calculate_success_rate m =
     (let total = trades_executed m in
      if total = 0 then lit 0
      else (u64_as_f64 (trades_successful m) / u64_as_f64 total) * lit 100)"

definition percentile_index :: "nat \<Rightarrow> f64 \<Rightarrow> nat" where
  "percentile_index len percentile = nat (to_unsigned 64 ((percentile / lit 100) * nat_as_f64 len))"

definition calculate_percentile :: "nat list \<Rightarrow> f64 \<Rightarrow> nat option" where
  "calculate_percentile sorted_values percentile =
     (if sorted_values = [] then None
      else
        let index = percentile_index (length sorted_values) percentile;
            index = min index (length sorted_values - 1)
        in Some (sorted_values ! index))"

type_synonym percentiles = "nat option \<times> nat option \<times> nat option"

definition calculate_latency_percentiles :: "nat list \<Rightarrow> percentiles" where
  "calculate_latency_percentiles latencies =
     (if latencies = [] then (None, None, None)
      else
        let s = sort latencies
        in (calculate_percentile s (lit 50), calculate_percentile s (lit 95), calculate_percentile s (lit 99)))"

definition locked_percentiles :: "nat list option \<Rightarrow> percentiles" where
  "locked_percentiles lock =
     (case lock of Some latencies \<Rightarrow> calculate_latency_percentiles latencies | None \<Rightarrow> (None, None, None))"

definition get_websocket_latency_percentiles :: "test_metrics \<Rightarrow> percentiles" where
  "get_websocket_latency_percentiles m = locked_percentiles (websocket_to_queue_latencies m)"

definition get_queue_latency_percentiles :: "test_metrics \<Rightarrow> percentiles" where
  "get_queue_latency_percentiles m = locked_percentiles (queue_to_strategy_latencies m)"

definition get_opportunity_detection_percentiles :: "test_metrics \<Rightarrow> percentiles" where
  "get_opportunity_detection_percentiles m = locked_percentiles (opportunity_detection_latencies m)"

definition get_order_placement_percentiles :: "test_metrics \<Rightarrow> percentiles" where
  "get_order_placement_percentiles m = locked_percentiles (order_placement_latencies m)"

definition get_end_to_end_percentiles :: "test_metrics \<Rightarrow> percentiles" where
  "get_end_to_end_percentiles m = locked_percentiles (end_to_end_latencies m)"

section \<open>buffer_pool.rs\<close>

record buffer_pool =
  format_buffers :: "string list"
  next_buffer_idx :: nat

definition BufferPool_new :: buffer_pool where
  "BufferPool_new = \<lparr>format_buffers = replicate 100 [], next_buffer_idx = 0\<rparr>"

definition buffer_count :: "buffer_pool \<Rightarrow> nat" where
  "buffer_count p = length (format_buffers p)"

text \<open>The index of the buffer stands for the mutable reference; \<open>None\<close> is a panic, of the remainder or of the
  indexing.\<close>

definition get_string_buffer :: "buffer_pool \<Rightarrow> (buffer_pool \<times> nat) option" where
  "get_string_buffer p =
     (let idx = next_buffer_idx p in
      if length (format_buffers p) = 0 then None
      else
        let p = p\<lparr>next_buffer_idx := (next_buffer_idx p + 1) mod length (format_buffers p)\<rparr>
        in if idx < length (format_buffers p)
           then Some (p\<lparr>format_buffers := (format_buffers p)[idx := []]\<rparr>, idx)
           else None)"

text \<open>\<open>f\<close> gets the buffer and leaves it with new contents; it does not use the pool itself, which is borrowed
  while it runs.\<close>

definition with_string_buffer :: "(string \<Rightarrow> string \<times> 'r) \<Rightarrow> buffer_pool \<Rightarrow> (buffer_pool \<times> 'r) option" where
  "with_string_buffer f pool =
     (case get_string_buffer pool of
        None \<Rightarrow> None
      | Some (pool, idx) \<Rightarrow>
          let (buffer, r) = f (format_buffers pool ! idx)
          in Some (pool\<lparr>format_buffers := (format_buffers pool)[idx := buffer]\<rparr>, r))"

section \<open>thread_pinning.rs\<close>

text \<open>The calls of core_affinity: pin the current thread, and the cores there are.\<close>

record 'w affinity_ops =
  set_for_current :: "'w \<Rightarrow> nat \<Rightarrow> 'w \<times> bool"
  get_core_ids :: "'w \<Rightarrow> nat list option"

record core_assignment =
  strategy_core :: nat
  websocket_cores :: "nat list"

definition default_assignment :: core_assignment where
  "default_assignment = \<lparr>strategy_core = 1, websocket_cores = [2..<8]\<rparr>"

definition custom_assignment :: "nat \<Rightarrow> nat list \<Rightarrow> core_assignment" where
  "custom_assignment strategy cores = \<lparr>strategy_core = strategy, websocket_cores = cores\<rparr>"

definition pin_current_thread :: "'w affinity_ops \<Rightarrow> nat \<Rightarrow> string \<Rightarrow> 'w \<Rightarrow> 'w \<times> (unit, string) result" where
  "pin_current_thread A core thread_name w =
     (case set_for_current A w core of
        (w, False) \<Rightarrow> (w, Err (''Failed to pin '' @ thread_name @ '' thread to core '' @ nat_str core))
      | (w, True) \<Rightarrow>
          (case Option.bind (get_core_ids A w) (List.find (\<lambda>c. c = core)) of
             Some current_core \<Rightarrow> (w, Ok ())
           | None \<Rightarrow> (w, Err (''Failed to verify pinning for '' @ thread_name @ '' thread to core '' @ nat_str core))))"

definition pin_strategy_thread :: "'w affinity_ops \<Rightarrow> 'w \<Rightarrow> 'w \<times> (unit, string) result" where
  "pin_strategy_thread A w = pin_current_thread A 1 ''strategy'' w"

definition pin_websocket_thread :: "'w affinity_ops \<Rightarrow> nat \<Rightarrow> 'w \<Rightarrow> 'w \<times> (unit, string) result" where
  "pin_websocket_thread A worker_id w =
     (let core_id = 2 + worker_id in pin_current_thread A core_id (''websocket-'' @ nat_str worker_id) w)"

definition get_core_count :: "'w affinity_ops \<Rightarrow> 'w \<Rightarrow> nat" where
  "get_core_count A w = (case get_core_ids A w of Some cores \<Rightarrow> length cores | None \<Rightarrow> 0)"

definition has_sufficient_cores :: "'w affinity_ops \<Rightarrow> 'w \<Rightarrow> bool" where
  "has_sufficient_cores A w \<longleftrightarrow> get_core_count A w \<ge> 8"

definition spawn_pinned_thread :: "'w affinity_ops \<Rightarrow> nat \<Rightarrow> string \<Rightarrow> ('w \<Rightarrow> 'w \<times> 'r) \<Rightarrow> 'w \<Rightarrow> 'w \<times> 'r" where
  "spawn_pinned_thread A core name f w = f (fst (pin_current_thread A core name w))"

section \<open>Specifications\<close>

text \<open>The latency of a call that has begun, whether it has been counted, and whether it is past the update of the
  maximum.\<close>

fun call_latency :: "rpc \<Rightarrow> u64 option" where
  "call_latency Unused = None"
| "call_latency (CountAdd l) = Some l"
| "call_latency (MaxLoad l) = Some l"
| "call_latency (MaxTest l m) = Some l"
| "call_latency (MaxSwap l m) = Some l"
| "call_latency (P50Load l) = Some l"
| "call_latency (P50Store l p) = Some l"
| "call_latency (P95Load l) = Some l"
| "call_latency (P95Store l p) = Some l"
| "call_latency (P95Test l) = Some l"
| "call_latency (P99Load l) = Some l"
| "call_latency (P99Store l p) = Some l"
| "call_latency (Recorded l) = Some l"

fun counted :: "rpc \<Rightarrow> bool" where
  "counted Unused = False"
| "counted (CountAdd l) = False"
| "counted _ = True"

fun past_max :: "rpc \<Rightarrow> bool" where
  "past_max Unused = False"
| "past_max (CountAdd l) = False"
| "past_max (MaxLoad l) = False"
| "past_max (MaxTest l m) = False"
| "past_max (MaxSwap l m) = False"
| "past_max _ = True"

definition rinv :: "rstate \<Rightarrow> bool" where
  "rinv g \<longleftrightarrow> (case g of (s, cs) \<Rightarrow>
     finite {c. counted (cs c)} \<and> ls_count s = of_nat (card {c. counted (cs c)}) \<and>
     (\<forall>c l. past_max (cs c) \<and> call_latency (cs c) = Some l \<longrightarrow> l \<le> max_ns s) \<and>
     (\<forall>c l m. cs c = MaxTest l m \<longrightarrow> m \<le> max_ns s) \<and> (\<forall>c l m. cs c = MaxSwap l m \<longrightarrow> m < l) \<and>
     (max_ns s = 0 \<or> (\<exists>c. counted (cs c) \<and> call_latency (cs c) = Some (max_ns s))))"

definition pool_ok :: "buffer_pool \<Rightarrow> bool" where
  "pool_ok p \<longleftrightarrow> length (format_buffers p) = 100 \<and> next_buffer_idx p < 100"

text \<open>A sequence of uses of the pool, with what they return.\<close>

fun pool_uses :: "(string \<Rightarrow> string \<times> 'r) list \<Rightarrow> buffer_pool \<Rightarrow> (buffer_pool \<times> 'r list) option" where
  "pool_uses [] p = Some (p, [])"
| "pool_uses (f # fs) p =
     Option.bind (with_string_buffer f p) (\<lambda>(p, r). map_option (\<lambda>(p, rs). (p, r # rs)) (pool_uses fs p))"

section \<open>Lemmas\<close>

subsection \<open>Recording latencies\<close>

inductive_cases rstep_cases: "rstep g g'"

lemma past_max_counted: "past_max y \<Longrightarrow> counted y"
  by (cases y) auto

text \<open>A step of a call that leaves count and maximum alone, and keeps the call counted or uncounted.\<close>

lemma rinv_local:
  assumes g: "rinv (s, cs)" and c: "counted x = counted (cs c)" "call_latency x = call_latency (cs c) \<or> \<not> counted x"
    and p: "\<not> past_max (cs c) \<Longrightarrow> past_max x \<Longrightarrow> \<exists>l. call_latency x = Some l \<and> l \<le> max_ns s"
    and m: "\<And>l m. x = MaxTest l m \<Longrightarrow> m \<le> max_ns s" "\<And>l m. x = MaxSwap l m \<Longrightarrow> m < l"
    and s: "ls_count s' = ls_count s" "max_ns s' = max_ns s"
  shows "rinv (s', cs(c := x))"
proof -
  have e: "{d. counted ((cs(c := x)) d)} = {d. counted (cs d)}" using c(1) by auto
  have q: "l \<le> max_ns s" if "past_max x" "call_latency x = Some l" for l
    using that p c past_max_counted[of x] g by (cases "past_max (cs c)") (auto simp: rinv_def)
  have w: "counted ((cs(c := x)) d) \<and> call_latency ((cs(c := x)) d) = Some (max_ns s)"
    if "counted (cs d)" "call_latency (cs d) = Some (max_ns s)" for d using that c by auto
  from g have "max_ns s = 0 \<or> (\<exists>d. counted (cs d) \<and> call_latency (cs d) = Some (max_ns s))" by (simp add: rinv_def)
  then have "max_ns s = 0 \<or> (\<exists>d. counted ((cs(c := x)) d) \<and> call_latency ((cs(c := x)) d) = Some (max_ns s))"
    using w by metis
  then show ?thesis using g q m unfolding rinv_def prod.case e s by (auto simp del: fun_upd_apply) (auto split: if_splits)
qed

lemma rinv_count:
  assumes "rinv (s, cs)" "cs c = CountAdd l" shows "rinv (s\<lparr>ls_count := ls_count s + 1\<rparr>, cs(c := MaxLoad l))"
proof -
  have f: "finite {c. counted (cs c)}" "c \<notin> {c. counted (cs c)}" using assms by (auto simp: rinv_def)
  have e: "{d. counted ((cs(c := MaxLoad l)) d)} = insert c {c. counted (cs c)}" by auto
  have "(\<exists>d. counted ((cs(c := MaxLoad l)) d) \<and> call_latency ((cs(c := MaxLoad l)) d) = Some (max_ns s))"
    if "counted (cs d)" "call_latency (cs d) = Some (max_ns s)" for d using that f(2) by (intro exI[of _ d]) auto
  then show ?thesis using assms f unfolding rinv_def prod.case e by (auto simp del: fun_upd_apply) (auto split: if_splits)
qed

lemma rinv_swap:
  assumes "rinv (s, cs)" "cs c = MaxSwap l (max_ns s)" shows "rinv (s\<lparr>max_ns := l\<rparr>, cs(c := P50Load l))"
proof -
  have l: "max_ns s < l" using assms by (auto simp: rinv_def)
  have e: "{d. counted ((cs(c := P50Load l)) d)} = {c. counted (cs c)}" using assms(2) by auto
  have "\<exists>d. counted ((cs(c := P50Load l)) d) \<and> call_latency ((cs(c := P50Load l)) d) = Some l" by (intro exI[of _ c]) simp
  then show ?thesis using assms l unfolding rinv_def prod.case e
    by (auto simp del: fun_upd_apply) (auto split: if_splits intro: order_trans[OF _ less_imp_le[OF l]])
qed

lemma rinv_step: "rinv g \<Longrightarrow> rstep g g' \<Longrightarrow> rinv g'"
proof (erule rstep_cases, goal_cases)
  case (2 cs c l s)
  then show ?case by (simp add: rinv_count)
next
  case (5 cs c l m s)
  then have "m \<le> max_ns s" by (auto simp: rinv_def)
  with 5 have "l \<le> max_ns s" by simp
  with 5 show ?case by (auto intro!: rinv_local)
next
  case (6 cs c l s)
  then show ?case by (auto intro: rinv_swap)
qed (auto intro!: rinv_local)

lemma rinv_reach: "rreach g \<Longrightarrow> rinv g"
proof (induction rule: rreach.induct)
  case start
  then show ?case by (simp add: rinv_def LatencyStats_new_def)
qed (rule rinv_step)

text \<open>A call that runs alone is \<open>record_latency\<close>.\<close>

lemma record_alone:
  assumes "rreach (s, cs)" "cs c = Unused" shows "rreach (record_latency s l, cs(c := Recorded l))"
proof -
  define s1 where "s1 = s\<lparr>ls_count := ls_count s + 1\<rparr>"
  define s2 where "s2 = (if l > max_ns s1 then s1\<lparr>max_ns := l\<rparr> else s1)"
  define s3 where "s3 = s2\<lparr>p50_ns := new_p50 (p50_ns s2) l\<rparr>"
  define s4 where "s4 = (if l > p50_ns s2 then s3\<lparr>p95_ns := new_p95 (p95_ns s3) l\<rparr> else s3)"
  note step = rreach.step[where g = "(_, cs(c := _))"]
  have "rreach (s1, cs(c := MaxLoad l))"
    using step[OF rreach.step[OF assms(1) rstep.call[of cs c s l, OF assms(2)]] rstep.count[of _ c l]] by (simp add: s1_def)
  from step[OF this rstep.load_max[of _ c l]] have t: "rreach (s1, cs(c := MaxTest l (max_ns s1)))" by simp
  have "rreach (s2, cs(c := P50Load l))"
  proof (cases "l > max_ns s1")
    case True
    from step[OF t rstep.max_above[of _ c l "max_ns s1"]] True have "rreach (s1, cs(c := MaxSwap l (max_ns s1)))" by simp
    from step[OF this rstep.swap_ok[of _ c l "max_ns s1"]] True show ?thesis by (simp add: s2_def)
  next
    case False
    from step[OF t rstep.max_below[of _ c l "max_ns s1"]] False show ?thesis by (simp add: s2_def)
  qed
  from step[OF this rstep.load_p50[of _ c l]] have "rreach (s2, cs(c := P50Store l (p50_ns s2)))" by simp
  from step[OF this rstep.store_p50[of _ c l "p50_ns s2"]]
  have t: "rreach (s3, cs(c := if l > p50_ns s2 then P95Load l else P95Test l))" by (simp add: s3_def)
  have "rreach (s4, cs(c := P95Test l))"
  proof (cases "l > p50_ns s2")
    case True
    with t step[OF _ rstep.load_p95[of _ c l], of s3] have "rreach (s3, cs(c := P95Store l (p95_ns s3)))" by simp
    from step[OF this rstep.store_p95[of _ c l "p95_ns s3"]] True show ?thesis by (simp add: s4_def)
  qed (use t in \<open>simp add: s4_def\<close>)
  from step[OF this rstep.test_p95[of _ c l]]
  have t: "rreach (s4, cs(c := if l > p95_ns s4 then P99Load l else Recorded l))" by simp
  have "record_latency s l = (if l > p95_ns s4 then s4\<lparr>p99_ns := new_p99 (p99_ns s4) l\<rparr> else s4)"
    unfolding record_latency_def Let_def s1_def[symmetric] s2_def[symmetric] s3_def[symmetric] s4_def[symmetric] ..
  moreover have "rreach (s4\<lparr>p99_ns := new_p99 (p99_ns s4) l\<rparr>, cs(c := Recorded l))" if "l > p95_ns s4"
  proof -
    from that t step[OF _ rstep.load_p99[of _ c l], of s4] have "rreach (s4, cs(c := P99Store l (p99_ns s4)))" by simp
    from step[OF this rstep.store_p99[of _ c l "p99_ns s4"]] show ?thesis by simp
  qed
  ultimately show ?thesis using t by auto
qed

lemma below_one: "x < 1 \<Longrightarrow> to_unsigned w x = 0"
proof -
  assume "x < 1"
  have "trunc_rat r \<le> 0" if "r < 1" for r using that by (auto simp: trunc_rat_def floor_le_iff ceiling_le_iff)
  then have "max 0 (min (trunc_rat r) (2 ^ w - 1)) = 0" if "r < 1" for r
    using that by (intro max_absorb1 min.coboundedI1)
  with \<open>x < 1\<close> show ?thesis by (cases x) (auto simp: one_f64_def)
qed

text \<open>The estimates are not ordered as percentiles are: after one measurement the 99th is the smallest.\<close>

lemma estimates_out_of_order:
  "p50_ns (record_latency LatencyStats_new 20) = 2" "p95_ns (record_latency LatencyStats_new 20) = 1"
  "p99_ns (record_latency LatencyStats_new 20) = 0"
proof -
  have n: "nat_as_f64 0 = Fin 0" "nat_as_f64 20 = Fin 20" by code_simp+
  have a: "(lit 1 - alpha) * Fin 0 + alpha * Fin 20 = Fin 2"
    "(lit 1 - alpha * lit 0.5) * Fin 0 + alpha * lit 0.5 * Fin 20 = Fin 1"
    "(lit 1 - alpha * lit 0.2) * Fin 0 + alpha * lit 0.2 * Fin 20 < 1" by code_simp+
  have "new_p50 0 20 = 2" "new_p95 0 20 = 1"
    using a(1,2) by (simp_all add: new_p50_def new_p95_def f64_as_u64_def n trunc_rat_def del: lit_numeral lit_1)
  moreover have "new_p99 0 20 = 0"
    using below_one[OF a(3), of 64] by (simp add: new_p99_def f64_as_u64_def n del: lit_numeral lit_1)
  ultimately show "p50_ns (record_latency LatencyStats_new 20) = 2" "p95_ns (record_latency LatencyStats_new 20) = 1"
    "p99_ns (record_latency LatencyStats_new 20) = 0"
    by (simp_all add: record_latency_def LatencyStats_new_def Let_def)
qed

text \<open>Nothing adds a latency to a monitor, and a new one reports no stale exchange.\<close>

lemma never_stale: "\<not> any_stale LatencyMonitor_new threshold_ms"
  by (simp add: any_stale_def LatencyMonitor_new_def)

subsection \<open>Percentiles\<close>

lemma percentile_index_mono:
  assumes "p \<le> q" "0 < len" "len \<le> 2 ^ 64" shows "percentile_index len p \<le> percentile_index len q"
proof -
  have "p / lit 100 \<le> q / lit 100" using assms(1) by (intro div_mono_left) (simp_all add: zero_f64_def)
  then have "p / lit 100 * nat_as_f64 len \<le> q / lit 100 * nat_as_f64 len"
    using assms(2,3) by (intro mul_mono_left nat_as_f64_finite nat_as_f64_pos)
  then show ?thesis unfolding percentile_index_def by (intro nat_mono to_unsigned_mono)
qed

text \<open>The estimate for 50 percent is the element in the middle.\<close>

lemma percentile_index_50:
  assumes "0 < len" "len \<le> 2 ^ 53" shows "percentile_index len (lit 50) = len div 2"
proof -
  have h: "lit 50 / lit 100 = Fin (1 / 2)" by code_simp
  have n: "nat_as_f64 len = Fin (of_nat len)"
    using mk_int[of "int len" False] assms by (simp add: nat_as_f64_def)
  have r: "rnd (of_nat len / 2) = of_nat len / 2"
  proof (rule rnd_exact)
    show "of_nat len / 2 = of_int (int len) * (2 :: rat) powi (- 1)" by (simp add: power_int_minus)
    show "\<bar>int len\<bar> \<le> 2 ^ 53" using assms(2) by simp
  qed simp
  have "of_nat len \<le> (of_nat (2 ^ 53) :: rat)" using assms(2) by (simp only: of_nat_le_iff)
  then have "of_nat len / 2 < (2 :: rat) powi 53" by simp
  then have l: "ilog2 (of_nat len / 2) < 1024" using ilog2_less[of "of_nat len / 2" 53] assms(1) by simp
  have "lit 50 / lit 100 * nat_as_f64 len = mk False (of_nat len / 2)"
    unfolding h n by (simp add: times_f64_def Let_def)
  also have "\<dots> = Fin (of_nat len / 2)" using r l by (intro mk_False_Fin) simp
  finally have "percentile_index len (lit 50) = nat (max 0 (min \<lfloor>of_nat len / 2 :: rat\<rfloor> (2 ^ 64 - 1)))"
    by (simp add: percentile_index_def trunc_rat_def)
  moreover have "\<lfloor>of_nat len / 2 :: rat\<rfloor> = int (len div 2)"
    using floor_divide_of_nat_eq[of len 2, where 'a = rat] by simp
  moreover have "int (len div 2) \<le> 2 ^ 64 - 1" using assms(2) by simp
  ultimately show ?thesis by simp
qed

lemma percentile_nth: "xs \<noteq> [] \<Longrightarrow> calculate_percentile xs p = Some (xs ! min (percentile_index (length xs) p) (length xs - 1))"
  by (simp add: calculate_percentile_def Let_def)

subsection \<open>Buffers\<close>

lemma get_string_buffer_ok:
  assumes "pool_ok p"
  shows "\<exists>p'. get_string_buffer p = Some (p', next_buffer_idx p) \<and> pool_ok p' \<and>
    format_buffers p' ! next_buffer_idx p = [] \<and> next_buffer_idx p' = (next_buffer_idx p + 1) mod 100"
  using assms by (simp add: get_string_buffer_def pool_ok_def Let_def)

text \<open>Whatever was written before, a use of the pool starts with an empty buffer and never panics: the results are
  those of fresh strings.\<close>

lemma pool_uses_fresh:
  "pool_ok p \<Longrightarrow> \<exists>p'. pool_uses fs p = Some (p', map (\<lambda>f. snd (f [])) fs) \<and> pool_ok p' \<and>
     next_buffer_idx p' = (next_buffer_idx p + length fs) mod 100"
proof (induction fs arbitrary: p)
  case Nil
  then show ?case by (simp add: pool_ok_def)
next
  case (Cons f fs)
  from get_string_buffer_ok[OF Cons.prems] obtain p1 where
    g: "get_string_buffer p = Some (p1, next_buffer_idx p)" "pool_ok p1" "format_buffers p1 ! next_buffer_idx p = []"
      "next_buffer_idx p1 = (next_buffer_idx p + 1) mod 100" by blast
  obtain b r where f: "f [] = (b, r)" by fastforce
  let ?p = "p1\<lparr>format_buffers := (format_buffers p1)[next_buffer_idx p := b]\<rparr>"
  have "with_string_buffer f p = Some (?p, r)" using g f by (simp add: with_string_buffer_def)
  moreover have "pool_ok ?p" "next_buffer_idx ?p = (next_buffer_idx p + 1) mod 100" using g by (simp_all add: pool_ok_def)
  moreover from Cons.IH[OF this(1)] obtain p' where "pool_uses fs ?p = Some (p', map (\<lambda>f. snd (f [])) fs)" "pool_ok p'"
    "next_buffer_idx p' = (next_buffer_idx ?p + length fs) mod 100" by blast
  ultimately show ?case using f by (simp add: mod_simps)
qed

lemma new_pool_ok: "pool_ok BufferPool_new"
  by (simp add: pool_ok_def BufferPool_new_def)

subsection \<open>Pinning\<close>

text \<open>The check after pinning only asks whether there is such a core, not where the thread runs.\<close>

lemma pin_current_thread_ok:
  "snd (pin_current_thread A core name w) = Ok () \<longleftrightarrow>
   snd (set_for_current A w core) \<and>
   (\<exists>cores. get_core_ids A (fst (set_for_current A w core)) = Some cores \<and> core \<in> set cores)"
  by (auto simp: pin_current_thread_def Option.bind_eq_Some_conv find_Some_iff find_None_iff in_set_conv_nth
      split: prod.splits bool.splits option.splits)

text \<open>The sixth and later workers of a connector leave the cores 2 to 7.\<close>

lemma worker_core_range:
  "pin_websocket_thread A i w = pin_current_thread A (2 + i) (''websocket-'' @ nat_str i) w"
  "2 + i \<in> set (websocket_cores default_assignment) \<longleftrightarrow> i < 6"
  by (auto simp: pin_websocket_thread_def default_assignment_def)

section \<open>Properties\<close>

text \<open>C39. The maximum under concurrency.  In every interleaving of any number of calls that record a latency, with
  compare-exchange failing as it may, the maximum is at least the latency of every call that has returned and is
  the latency of some call once it is not zero; when all calls have returned it is their maximum, and the count is
  the number of calls modulo 2 ^ 64.\<close>

theorem concurrent_latency_max:
  assumes "rreach (s, cs)"
  shows "(\<forall>c l. cs c = Recorded l \<longrightarrow> l \<le> max_ns s) \<and>
    (max_ns s \<noteq> 0 \<longrightarrow> (\<exists>c. call_latency (cs c) = Some (max_ns s))) \<and>
    ((\<forall>c. cs c = Unused \<or> (\<exists>l. cs c = Recorded l)) \<longrightarrow>
       finite {c. cs c \<noteq> Unused} \<and> ls_count s = of_nat (card {c. cs c \<noteq> Unused}) \<and>
       max_ns s = Max (insert 0 {l. \<exists>c. cs c = Recorded l}))"
proof -
  have g: "rinv (s, cs)" using assms by (rule rinv_reach)
  have le: "l \<le> max_ns s" if "cs c = Recorded l" for c l
    using g that unfolding rinv_def prod.case by (metis call_latency.simps(13) past_max.simps(13))
  have some: "\<exists>c. counted (cs c) \<and> call_latency (cs c) = Some (max_ns s)" if "max_ns s \<noteq> 0"
    using g that by (auto simp: rinv_def)
  have all: "finite {c. cs c \<noteq> Unused} \<and> ls_count s = of_nat (card {c. cs c \<noteq> Unused}) \<and>
      max_ns s = Max (insert 0 {l. \<exists>c. cs c = Recorded l})"
    if fin: "\<forall>c. cs c = Unused \<or> (\<exists>l. cs c = Recorded l)"
  proof -
    have e: "{c. counted (cs c)} = {c. cs c \<noteq> Unused}" using fin by force
    have f: "finite {c. cs c \<noteq> Unused}" "ls_count s = of_nat (card {c. cs c \<noteq> Unused})"
      using g e by (auto simp: rinv_def)
    let ?L = "{l. \<exists>c. cs c = Recorded l}"
    have "?L \<subseteq> (\<lambda>c. the (call_latency (cs c))) ` {c. cs c \<noteq> Unused}"
    proof
      fix l assume "l \<in> ?L"
      then obtain c where "cs c = Recorded l" by blast
      then show "l \<in> (\<lambda>c. the (call_latency (cs c))) ` {c. cs c \<noteq> Unused}" by (intro image_eqI[of _ _ c]) auto
    qed
    then have "finite ?L" using f(1) finite_surj by blast
    moreover have "max_ns s \<in> insert 0 ?L" using some fin by (metis (mono_tags) call_latency.simps(1,13) insertCI insert_iff mem_Collect_eq option.inject option.distinct(1))
    moreover have "l \<le> max_ns s" if "l \<in> insert 0 ?L" for l using that le by auto
    ultimately show ?thesis using f by (metis (no_types, lifting) Max_eqI finite_insert)
  qed
  show ?thesis using le some all by blast
qed

theorem concurrent_latency_max_witness:
  "\<exists>s cs. rreach (s, cs) \<and> cs 0 = Recorded 3 \<and> cs 1 = Recorded 5 \<and> 3 \<le> max_ns s \<and> 5 \<le> max_ns s"
proof -
  let ?cs = "((\<lambda>_ :: nat. Unused)(0 := Recorded 3))(1 := Recorded 5)"
  let ?s = "record_latency (record_latency LatencyStats_new 3) 5"
  have r: "rreach (?s, ?cs)" by (intro record_alone rreach.start) auto
  have q: "\<forall>c l. ?cs c = Recorded l \<longrightarrow> l \<le> max_ns ?s" by (rule conjunct1[OF concurrent_latency_max[OF r]])
  have "3 \<le> max_ns ?s" "5 \<le> max_ns ?s" using q[rule_format, of 0 3] q[rule_format, of 1 5] by simp_all
  with r show ?thesis by (intro exI[of _ ?s] exI[of _ ?cs]) auto
qed

text \<open>Percentiles of a test run.  From any recorded latencies the three percentiles are latencies that were
  recorded, in increasing order, and the first is the element in the middle of the sorted list.\<close>

lemma percentiles_ordered:
  assumes "websocket_to_queue_latencies m = Some xs" "xs \<noteq> []" "length xs \<le> 2 ^ 53"
  shows "\<exists>p50 p95 p99. get_websocket_latency_percentiles m = (Some p50, Some p95, Some p99) \<and>
    p50 \<le> p95 \<and> p95 \<le> p99 \<and> {p50, p95, p99} \<subseteq> set xs \<and> p50 = sort xs ! (length xs div 2)"
proof -
  let ?n = "length xs" and ?i = "\<lambda>p. min (percentile_index (length xs) (lit p)) (length xs - 1)"
  have n: "0 < ?n" "?n \<le> 2 ^ 64" using assms(2,3) by auto
  have b: "?i p < ?n" for p using n(1) by linarith
  have i: "?i 50 \<le> ?i 95" "?i 95 \<le> ?i 99"
    using percentile_index_mono[OF lit_mono n, of 50 95] percentile_index_mono[OF lit_mono n, of 95 99]
    by (auto intro!: min.mono)
  have s: "sort xs \<noteq> []" using assms(2) by (metis length_0_conv length_sort)
  have "sort xs ! ?i 50 \<le> sort xs ! ?i 95" "sort xs ! ?i 95 \<le> sort xs ! ?i 99"
    using i b by (auto intro!: sorted_nth_mono simp del: lit_numeral)
  moreover have "{sort xs ! ?i 50, sort xs ! ?i 95, sort xs ! ?i 99} \<subseteq> set xs"
    using b by (metis (no_types, lifting) empty_subsetI insert_subset length_sort nth_mem set_sort)
  moreover have "?i 50 = ?n div 2" using percentile_index_50[OF n(1) assms(3)] n(1) by auto
  moreover have "get_websocket_latency_percentiles m =
      (Some (sort xs ! ?i 50), Some (sort xs ! ?i 95), Some (sort xs ! ?i 99))"
    using assms(1,2) s by (simp add: get_websocket_latency_percentiles_def locked_percentiles_def
        calculate_latency_percentiles_def percentile_nth Let_def)
  ultimately show ?thesis by metis
qed

end
