(* ===== verification/Config.thy ===== *)
theory Config
  imports Bybit Program
begin

text \<open>
  Configuration: config_storage.rs and synthetic_config.rs under src/src/strategy.

  \<open>serde_json\<close> is the record \<open>codec\<close>, its contract the locale \<open>exact_codec\<close>: \<open>exact\<close> are the settings it reads
  back as they were written, which a number that is not finite never is.  The storage is the map behind its
  mutex, or \<open>None\<close> once that is poisoned.  The environment is an argument.
\<close>

section \<open>config_storage.rs\<close>

record confidence_thresholds =
  ultra_fast_threshold :: f64
  balanced_threshold :: f64

record codec =
  config_to_string :: "repricing_config \<Rightarrow> (string, string) result"
  config_from_str :: "string \<Rightarrow> (repricing_config, string) result"
  thresholds_to_string :: "confidence_thresholds \<Rightarrow> (string, string) result"
  thresholds_from_str :: "string \<Rightarrow> (confidence_thresholds, string) result"

type_synonym config_storage = "(string \<rightharpoonup> string) option"

definition InMemoryConfigStorage_new :: config_storage where
  "InMemoryConfigStorage_new = Some Map.empty"

definition map_err :: "string \<Rightarrow> ('a, string) result \<Rightarrow> ('a, string) result" where
  "map_err message r = (case r of Ok x \<Rightarrow> Ok x | Err e \<Rightarrow> Err (message @ e))"

text \<open>The error of a poisoned lock; its text is the one of the standard library.\<close>

definition lock_storage :: "config_storage \<Rightarrow> (string \<rightharpoonup> string, string) result" where
  "lock_storage storage =
     (case storage of
        Some m \<Rightarrow> Ok m
      | None \<Rightarrow> Err ''Failed to acquire lock: poisoned lock: another task failed inside'')"

definition REPRICING_KEY :: string where
  "REPRICING_KEY = ''strategy:config:repricing''"

definition THRESHOLDS_KEY :: string where
  "THRESHOLDS_KEY = ''strategy:config:confidence_thresholds''"

definition save_repricing_config ::
  "codec \<Rightarrow> config_storage \<Rightarrow> repricing_config \<Rightarrow> config_storage \<times> (unit, string) result" where
  "save_repricing_config C storage config =
     (case map_err ''Failed to serialize config: '' (config_to_string C config) of
        Err e \<Rightarrow> (storage, Err e)
      | Ok json \<Rightarrow>
          (case lock_storage storage of
             Err e \<Rightarrow> (storage, Err e)
           | Ok m \<Rightarrow> (Some (m(REPRICING_KEY \<mapsto> json)), Ok ())))"

definition load_repricing_config :: "codec \<Rightarrow> config_storage \<Rightarrow> (repricing_config, string) result" where
  "load_repricing_config C storage =
     (case lock_storage storage of
        Err e \<Rightarrow> Err e
      | Ok m \<Rightarrow>
          (case m REPRICING_KEY of
             Some json \<Rightarrow> map_err ''Failed to deserialize config: '' (config_from_str C json)
           | None \<Rightarrow> Ok RepricingConfig_balanced))"

definition save_confidence_thresholds ::
  "codec \<Rightarrow> config_storage \<Rightarrow> f64 \<Rightarrow> f64 \<Rightarrow> config_storage \<times> (unit, string) result" where
  "save_confidence_thresholds C storage ultra_fast balanced =
     (let thresholds = \<lparr>ultra_fast_threshold = ultra_fast, balanced_threshold = balanced\<rparr> in
      case map_err ''Failed to serialize thresholds: '' (thresholds_to_string C thresholds) of
        Err e \<Rightarrow> (storage, Err e)
      | Ok json \<Rightarrow>
          (case lock_storage storage of
             Err e \<Rightarrow> (storage, Err e)
           | Ok m \<Rightarrow> (Some (m(THRESHOLDS_KEY \<mapsto> json)), Ok ())))"

definition load_confidence_thresholds :: "codec \<Rightarrow> config_storage \<Rightarrow> (f64 \<times> f64, string) result" where
  "load_confidence_thresholds C storage =
     (case lock_storage storage of
        Err e \<Rightarrow> Err e
      | Ok m \<Rightarrow>
          (case m THRESHOLDS_KEY of
             Some json \<Rightarrow>
               (case map_err ''Failed to deserialize thresholds: '' (thresholds_from_str C json) of
                  Err e \<Rightarrow> Err e
                | Ok t \<Rightarrow> Ok (ultra_fast_threshold t, balanced_threshold t))
           | None \<Rightarrow> Ok (lit 90, lit 75)))"

text \<open>The errors of the validator, with the value that the message names.\<close>

datatype config_error = InvalidRepriceThreshold f64 | InvalidMaxReprices u32 | InvalidRepriceInterval u64
  | InvalidTotalTimeout u64 | InvalidSpreadCollapse f64
  | ThresholdsNotOrdered f64 f64 | InvalidUltraFast f64 | InvalidBalanced f64

definition validate_repricing_config :: "repricing_config \<Rightarrow> (unit, config_error) result" where
  "validate_repricing_config config =
     (if rc_reprice_threshold_bps config < lit 1 \<or> rc_reprice_threshold_bps config > lit 20
      then Err (InvalidRepriceThreshold (rc_reprice_threshold_bps config))
      else if rc_max_reprices config < 1 \<or> rc_max_reprices config > 10
      then Err (InvalidMaxReprices (rc_max_reprices config))
      else if rc_reprice_interval_ms config < 50 \<or> rc_reprice_interval_ms config > 500
      then Err (InvalidRepriceInterval (rc_reprice_interval_ms config))
      else if rc_total_timeout_seconds config < 1 \<or> rc_total_timeout_seconds config > 10
      then Err (InvalidTotalTimeout (rc_total_timeout_seconds config))
      else if rc_spread_collapse_threshold_bps config < lit 20 \<or> rc_spread_collapse_threshold_bps config > lit 100
      then Err (InvalidSpreadCollapse (rc_spread_collapse_threshold_bps config))
      else Ok ())"

definition validate_confidence_thresholds :: "f64 \<Rightarrow> f64 \<Rightarrow> (unit, config_error) result" where
  "validate_confidence_thresholds ultra_fast balanced =
     (if ultra_fast \<le> balanced then Err (ThresholdsNotOrdered ultra_fast balanced)
      else if \<not> (lit 0 \<le> ultra_fast \<and> ultra_fast \<le> lit 100) then Err (InvalidUltraFast ultra_fast)
      else if \<not> (lit 0 \<le> balanced \<and> balanced \<le> lit 100) then Err (InvalidBalanced balanced)
      else Ok ())"

section \<open>synthetic_config.rs\<close>

record synthetic_config =
  synthetic_spread_bps :: f64
  synthetic_funding_delta :: f64
  estimated_position_size :: f64
  max_concurrent_trades :: nat
  symbols_to_trade :: "string list"

definition SyntheticConfig_validate :: "synthetic_config \<Rightarrow> (unit, string) result" where
  "SyntheticConfig_validate c =
     (if synthetic_spread_bps c \<le> lit 0 then Err ''synthetic_spread_bps must be greater than 0''
      else if synthetic_funding_delta c \<le> lit 0 then Err ''synthetic_funding_delta must be greater than 0''
      else if estimated_position_size c \<le> lit 0 then Err ''estimated_position_size must be greater than 0''
      else if max_concurrent_trades c = 0 then Err ''max_concurrent_trades must be greater than 0''
      else if symbols_to_trade c = [] then Err ''symbols_to_trade cannot be empty''
      else Ok ())"

definition SyntheticConfig_new ::
  "f64 \<Rightarrow> f64 \<Rightarrow> f64 \<Rightarrow> nat \<Rightarrow> string list \<Rightarrow> (synthetic_config, string) result" where
  "SyntheticConfig_new spread funding_delta position_size trades symbols =
     (let config = \<lparr>synthetic_spread_bps = spread, synthetic_funding_delta = funding_delta,
            estimated_position_size = position_size, max_concurrent_trades = trades, symbols_to_trade = symbols\<rparr>
      in case SyntheticConfig_validate config of Err e \<Rightarrow> Err e | Ok _ \<Rightarrow> Ok config)"

text \<open>\<open>str::trim\<close> on ASCII strings.\<close>

definition is_space :: "char \<Rightarrow> bool" where
  "is_space c \<longleftrightarrow> (let n = (of_char c :: nat) in n = 32 \<or> 9 \<le> n \<and> n \<le> 13)"

definition str_trim :: "string \<Rightarrow> string" where
  "str_trim s = rev (dropWhile is_space (rev (dropWhile is_space s)))"

definition env_f64 :: "(string \<rightharpoonup> string) \<Rightarrow> string \<Rightarrow> f64 \<Rightarrow> f64" where
  "env_f64 var key dflt =
     (case Option.bind (var key) std_parse of Some x \<Rightarrow> x | None \<Rightarrow> dflt)"

definition SyntheticConfig_from_env :: "(string \<rightharpoonup> string) \<Rightarrow> (synthetic_config, string) result" where
  "SyntheticConfig_from_env var =
     (let spread = env_f64 var ''SYNTHETIC_SPREAD_BPS'' (lit 30);
          funding_delta = env_f64 var ''SYNTHETIC_FUNDING_DELTA'' (lit 0.01);
          position_size = env_f64 var ''ESTIMATED_POSITION_SIZE'' (lit 1000);
          trades = (case Option.bind (var ''MAX_CONCURRENT_TRADES'') parse_u64 of Some n \<Rightarrow> unat n | None \<Rightarrow> 3);
          symbols = (case var ''SYMBOLS_TO_TRADE'' of
              Some s \<Rightarrow> map str_trim (split_on (CHR '','') s)
            | None \<Rightarrow> [''BTCUSDT'', ''ETHUSDT'']);
          config = \<lparr>synthetic_spread_bps = spread, synthetic_funding_delta = funding_delta,
            estimated_position_size = position_size, max_concurrent_trades = trades, symbols_to_trade = symbols\<rparr>
      in case SyntheticConfig_validate config of Err e \<Rightarrow> Err e | Ok _ \<Rightarrow> Ok config)"

definition SyntheticConfig_default :: synthetic_config where
  "SyntheticConfig_default = \<lparr>synthetic_spread_bps = lit 30, synthetic_funding_delta = lit 0.01,
     estimated_position_size = lit 1000, max_concurrent_trades = 3, symbols_to_trade = [''BTCUSDT'', ''ETHUSDT'']\<rparr>"

section \<open>Contract of the codec\<close>

definition sample_codec :: codec where
  "sample_codec =
     \<lparr>config_to_string = (\<lambda>c. if c = RepricingConfig_safe then Ok ''safe'' else Err ''config''),
      config_from_str = (\<lambda>t. if t = ''safe'' then Ok RepricingConfig_safe else Err ''config''),
      thresholds_to_string = (\<lambda>t. if t = \<lparr>ultra_fast_threshold = lit 95, balanced_threshold = lit 80\<rparr>
        then Ok ''95,80'' else Err ''thresholds''),
      thresholds_from_str = (\<lambda>t. if t = ''95,80'' then Ok \<lparr>ultra_fast_threshold = lit 95, balanced_threshold = lit 80\<rparr>
        else Err ''thresholds'')\<rparr>"

locale exact_codec =
  fixes C :: codec and exact :: "f64 \<Rightarrow> bool"
  assumes config_exact: "exact (rc_reprice_threshold_bps c) \<Longrightarrow> exact (rc_spread_collapse_threshold_bps c) \<Longrightarrow>
      config_to_string C c = Ok t \<Longrightarrow> config_from_str C t = Ok c"
    and thresholds_exact: "exact (ultra_fast_threshold h) \<Longrightarrow> exact (balanced_threshold h) \<Longrightarrow>
      thresholds_to_string C h = Ok t \<Longrightarrow> thresholds_from_str C t = Ok h"
begin

lemma load_saved_config:
  assumes "exact (rc_reprice_threshold_bps c)" "exact (rc_spread_collapse_threshold_bps c)"
    and "save_repricing_config C st c = (st', Ok ())"
  shows "load_repricing_config C st' = Ok c"
proof -
  from assms(3) obtain t m where "config_to_string C c = Ok t" "st' = Some (m(REPRICING_KEY \<mapsto> t))"
    by (auto simp: save_repricing_config_def map_err_def lock_storage_def split: result.splits option.splits)
  with config_exact[OF assms(1,2)] show ?thesis by (simp add: load_repricing_config_def lock_storage_def map_err_def)
qed

lemma load_saved_thresholds:
  assumes "exact u" "exact b" "save_confidence_thresholds C st u b = (st', Ok ())"
  shows "load_confidence_thresholds C st' = Ok (u, b)"
proof -
  let ?h = "\<lparr>ultra_fast_threshold = u, balanced_threshold = b\<rparr>"
  from assms(3) obtain t m where "thresholds_to_string C ?h = Ok t" "st' = Some (m(THRESHOLDS_KEY \<mapsto> t))"
    by (auto simp: save_confidence_thresholds_def map_err_def lock_storage_def split: result.splits option.splits)
  with thresholds_exact[of ?h] assms(1,2) show ?thesis
    by (simp add: load_confidence_thresholds_def lock_storage_def map_err_def)
qed

end

interpretation sample_codec: exact_codec sample_codec is_finite
  by unfold_locales (auto simp: sample_codec_def split: if_splits)

section \<open>Lemmas\<close>

lemma keys_differ: "REPRICING_KEY \<noteq> THRESHOLDS_KEY"
  by (simp add: REPRICING_KEY_def THRESHOLDS_KEY_def)

lemma save_keeps_other:
  "save_repricing_config C st c = (st', r) \<Longrightarrow> load_confidence_thresholds C st' = load_confidence_thresholds C st"
  "save_confidence_thresholds C st u b = (st', r) \<Longrightarrow> load_repricing_config C st' = load_repricing_config C st"
  using keys_differ keys_differ[symmetric]
  by (auto simp: save_repricing_config_def save_confidence_thresholds_def load_confidence_thresholds_def
      load_repricing_config_def lock_storage_def Let_def split: result.splits option.splits)

text \<open>What the validator accepts, on every input: a NaN threshold passes, since no comparison with it holds.\<close>

lemma validate_repricing_iff:
  "is_ok (validate_repricing_config c) \<longleftrightarrow>
   (rc_reprice_threshold_bps c = NaN \<or> lit 1 \<le> rc_reprice_threshold_bps c \<and> rc_reprice_threshold_bps c \<le> lit 20) \<and>
   rc_max_reprices c \<in> {1..10} \<and> rc_reprice_interval_ms c \<in> {50..500} \<and> rc_total_timeout_seconds c \<in> {1..10} \<and>
   (rc_spread_collapse_threshold_bps c = NaN \<or>
     lit 20 \<le> rc_spread_collapse_threshold_bps c \<and> rc_spread_collapse_threshold_bps c \<le> lit 100)"
proof -
  have o: "\<not> (x < lit a \<or> x > lit b) \<longleftrightarrow> x = NaN \<or> lit a \<le> x \<and> x \<le> lit b" for x a b
    using f_not_less[of x "lit a"] f_not_less[of "lit b" x] f_less_not_nan[of x "lit a"] f_less_not_nan[of "lit b" x] by auto
  have w: "1 \<le> x \<longleftrightarrow> x \<noteq> 0" for x :: "'a :: len word" using not_le[of 1 x] word_less_1[of x] by auto
  show ?thesis unfolding validate_repricing_config_def
    using o[of "rc_reprice_threshold_bps c" 1 20] o[of "rc_spread_collapse_threshold_bps c" 20 100]
    by (auto simp: not_less w simp del: lit_numeral lit_1)
qed

lemma presets_valid:
  "is_ok (validate_repricing_config RepricingConfig_ultra_fast)"
  "is_ok (validate_repricing_config RepricingConfig_balanced)"
  "is_ok (validate_repricing_config RepricingConfig_safe)"
  by (simp_all add: validate_repricing_config_def RepricingConfig_ultra_fast_def RepricingConfig_balanced_def
      RepricingConfig_safe_def one_f64_def)

text \<open>The thresholds that pass are in order and not NaN, because there the comparison has to hold.\<close>

lemma validate_thresholds_iff:
  "is_ok (validate_confidence_thresholds u b) \<longleftrightarrow> lit 0 \<le> b \<and> b < u \<and> u \<le> lit 100"
  using f_not_le[of u b] f_le_trans[of "lit 0" b u] f_le_trans[of b u "lit 100"] f_less_imp_le[of b u]
    f_less_not_le[of b u] f_le_not_nan[of "lit 0" u] f_le_not_nan[of "lit 0" b]
  by (auto simp: validate_confidence_thresholds_def simp del: lit_0 lit_numeral)

lemma from_env_defaults: "SyntheticConfig_from_env Map.empty = Ok SyntheticConfig_default"
proof -
  have "\<not> lit 0.01 \<le> Fin 0" by code_simp
  then show ?thesis
    by (simp add: SyntheticConfig_from_env_def env_f64_def SyntheticConfig_validate_def SyntheticConfig_default_def
        Let_def zero_f64_def)
qed

text \<open>A list of symbols from the environment is never empty: of no text there is one symbol without a name.\<close>

lemma env_symbols_never_empty:
  "SyntheticConfig_from_env var \<noteq> Err ''symbols_to_trade cannot be empty''"
  by (auto simp: SyntheticConfig_from_env_def SyntheticConfig_validate_def Let_def split_on_not_empty split: option.splits)

lemma empty_symbol_accepted:
  "\<exists>c. SyntheticConfig_from_env [''SYMBOLS_TO_TRADE'' \<mapsto> []] = Ok c \<and> symbols_to_trade c = [[]]"
proof -
  have "\<not> lit 0.01 \<le> Fin 0" by code_simp
  then show ?thesis
    by (simp add: SyntheticConfig_from_env_def env_f64_def SyntheticConfig_validate_def str_trim_def
        Let_def zero_f64_def)
qed

text \<open>An accepted configuration has positive numbers, or NaN.\<close>

lemma synthetic_config_positive:
  assumes "SyntheticConfig_from_env var = Ok c"
  shows "(synthetic_spread_bps c = NaN \<or> 0 < synthetic_spread_bps c) \<and>
    (synthetic_funding_delta c = NaN \<or> 0 < synthetic_funding_delta c) \<and>
    (estimated_position_size c = NaN \<or> 0 < estimated_position_size c) \<and>
    0 < max_concurrent_trades c \<and> symbols_to_trade c \<noteq> []"
proof -
  have "is_ok (SyntheticConfig_validate c)" using assms
    by (auto simp: SyntheticConfig_from_env_def Let_def split: result.splits)
  moreover have "\<not> x \<le> lit 0 \<Longrightarrow> x = NaN \<or> 0 < x" for x using f_not_le[of x 0] by auto
  ultimately show ?thesis by (auto simp: SyntheticConfig_validate_def split: if_splits)
qed

lemma nan_spread_accepted:
  "\<exists>c. SyntheticConfig_from_env [''SYNTHETIC_SPREAD_BPS'' \<mapsto> ''nan''] = Ok c \<and> synthetic_spread_bps c = NaN"
proof -
  have "\<not> lit 0.01 \<le> Fin 0" "std_parse ''nan'' = Some NaN" "\<not> NaN \<le> Fin 0" by code_simp+
  then show ?thesis
    by (simp add: SyntheticConfig_from_env_def env_f64_def SyntheticConfig_validate_def Let_def zero_f64_def)
qed

section \<open>Properties\<close>

text \<open>Settings read back.  After a successful save the setting is loaded as it was saved, when its numbers are
  ones that the JSON library reads back exactly, and the other setting is loaded as before; a new storage loads the
  defaults.\<close>

lemma config_roundtrip:
  assumes "exact_codec C exact" "save_repricing_config C st c = (st1, Ok ())" "save_confidence_thresholds C st1 u b = (st2, Ok ())"
    and "exact (rc_reprice_threshold_bps c)" "exact (rc_spread_collapse_threshold_bps c)" "exact u" "exact b"
  shows "load_repricing_config C st1 = Ok c \<and> load_confidence_thresholds C st1 = load_confidence_thresholds C st \<and>
    load_repricing_config C st2 = Ok c \<and> load_confidence_thresholds C st2 = Ok (u, b)"
  using exact_codec.load_saved_config[OF assms(1,4,5,2)] exact_codec.load_saved_thresholds[OF assms(1,6,7,3)]
    save_keeps_other(1)[OF assms(2)] save_keeps_other(2)[OF assms(3)] by simp

end
