(* ===== verification/Spec2Isabelle.thy ===== *)
theory Spec2Isabelle
  imports Branchless Exchange_Fees Market_Data Symbol_Map Pipeline Opportunity_Detector Confluence
    Positions Portfolio Fill_Probability Rate_Limiter Backend Depth_Checker Price_Chaser Hedging Entry
    Entry_Real Exchange_Parser Runner Monitor Bybit Testnet Program
    Connectors Measurement Config
begin

text \<open>
  The development verifies the core of a funding and spread arbitrage strategy, the Rust code under
  src/src/strategy.

  \<^bold>\<open>The program.\<close>  Exchange connectors turn WebSocket messages into market updates.  A lock-free queue
  carries them to the strategy thread, where a struct-of-arrays store keeps the latest quote per symbol
  ID and the detector looks for a pair of exchanges whose bid and ask cross far enough.  Opportunities
  pass through a second queue to the runner, which sizes a position, enters both legs through an
  execution backend, and books the trade in a portfolio.  Open trades are watched for exit conditions.
  The entry is the risky part: both legs are placed as limit orders, polled and repriced; when one fills
  alone, the other is hedged by market order under a per-symbol lock; when that fails, the filled leg is
  closed at once; when even that fails, trading is halted.

  \<^bold>\<open>Foundations.\<close>
  \<^item> \<open>Prelude\<close>: the result type, machine integers (\<open>u8\<close> to \<open>u64\<close> as words that wrap as in a release
    build, \<open>usize\<close> as \<open>nat\<close>), time (\<open>Instant\<close> and \<open>Duration\<close> in nanoseconds), strings, and the lemmas and
    simp collections that the components share.
  \<^item> \<open>F64\<close>: IEEE binary64 over the rationals: NaN, both infinities, negative zero and the rounded
    operations, with monotonicity, sign and exactness of rounding.  Every price, size and profit below is
    of this type, so the theorems hold of the rounded arithmetic the program runs.

  \<^bold>\<open>Components\<close>, one theory for each, with the file it models under src/src/strategy.
  \<^item> \<open>Types\<close> (types.rs, data of price_chaser.rs): the structs and enums as records and datatypes, with the
    order state machine, the confidence score and the trade statistics.
  \<^item> \<open>Branchless\<close> (branchless.rs, scanner.rs): predicates on quotes and exits, min, max, clamp.
  \<^item> \<open>Exchange_Fees\<close> (exchange_fees.rs): fee table and the two ID tables.
  \<^item> \<open>Market_Data\<close> (market_data.rs): \<open>market_data_store\<close> with update and look-up; an abstract store, the
    latest update per ID, and the refinement of it.
  \<^item> \<open>Symbol_Map\<close> (symbol_map.rs): the two maps and the counter, sequentially and as a step relation
    \<open>gstep\<close> over threads whose program counters are at the single accesses of \<open>get_or_insert\<close>.  DashMap is
    a record of operations, with its laws as a locale.
  \<^item> \<open>Array_Queue\<close>: the contract of crossbeam's ArrayQueue as a locale, with lists as the instance.
  \<^item> \<open>Pipeline\<close> (pipeline.rs, opportunity_queue.rs): the market, order and opportunity queues with their
    producers, consumers and counters, over any queue that meets that contract.
  \<^item> \<open>Opportunity_Detector\<close> (opportunity_detector.rs): one turn of the detector thread, all pairs of
    exchanges, filters, scoring and publication.
  \<^item> \<open>Confluence\<close> (confluence.rs), \<open>Positions\<close> (positions.rs), \<open>Fill_Probability\<close> (fill_probability.rs),
    \<open>Rate_Limiter\<close> (rate_limiter.rs): the calculations and the token bucket.
  \<^item> \<open>Portfolio\<close> (portfolio.rs): the state under its lock; the outcomes of the Redis commands are
    arguments.
  \<^item> \<open>Backend\<close> (execution_backend.rs, paper_trading_backend.rs): the trait as a record of operations on a
    state of the world, extended by clock, sleep and UUIDs, and the paper backend as its instance.  The
    contracts \<open>clocked\<close> (no call turns the clock back, a sleep advances it) and \<open>immediate_fill\<close> are
    locales, interpreted on the paper backend.
  \<^item> \<open>Depth_Checker\<close> (depth_checker.rs) and \<open>Price_Chaser\<close> (price_chaser.rs): order book check with its
    cache, and the repricing loop.
  \<^item> \<open>Hedging\<close> (atomic_execution.rs): timing metrics, the hedge locks with the interleavings of tasks as
    the relation \<open>lstep\<close>, the retrying market order placer, the trading halt, the simulated two-leg
    execution, the funding tracker.
  \<^item> \<open>Entry\<close> (entry.rs up to the live entry): harder leg, sizing, hedging with verified fills, emergency
    close, simulated entry.
  \<^item> \<open>Entry_Real\<close> (\<open>execute_atomic_entry_real\<close> of entry.rs): the live entry, step by step, on the state
    \<open>exec\<close> of world, hedge locks, halt flag and depth cache.
  \<^item> \<open>Exchange_Parser\<close> (src/src/exchange_parser.rs): decimal prices, quotes and funding rates out of JSON
    messages, symbol names and Redis keys.  The accessors of \<open>serde_json\<close> are a record of operations.
  \<^item> \<open>Runner\<close> (runner.rs): the runner's state, the prices it reads, \<open>execute_opportunity\<close> and
    \<open>check_exits\<close>, over the record \<open>libs\<close> of every library it calls; the laws of those libraries are the
    locale \<open>runner_libs\<close>, which extends the contracts of the maps and the clock.
  \<^item> \<open>Monitor\<close> (runner.rs): \<open>monitor_active_positions\<close> for live and simulated trades, the turn of the
    scanning loop, and the states reachable by such turns.
  \<^item> \<open>Bybit\<close> (testnet/bybit_testnet.rs): the client of the demo exchange over the record \<open>net\<close> of HTTP
    client, JSON, HMAC and clocks.  A request is a value, so that signatures and hosts can be stated.  The
    locale \<open>client_invariant\<close> has the steps of the client; what they preserve every operation preserves.
  \<^item> \<open>Testnet\<close> (testnet_backend.rs, testnet_config.rs): the demo backend as a second instance of the trait,
    \<open>demo_env\<close>, with its runs \<open>demo_step\<close>; the contract \<open>clocked\<close> is derived for it from that of the network.
  \<^item> \<open>Program\<close> (src/src/main.rs): the bridge from the connectors to the market pipeline and to Redis, the
    writer of the Redis queue, and the threads of the program on their shared state, \<open>system\<close>.
    \<open>main_reach\<close> are its states under every interleaving of whole steps.
  \<^item> \<open>Connectors\<close> (src/src/bybit.rs, okx.rs, kucoin.rs, bitget.rs, hyperliquid.rs, paradex.rs, binance.rs,
    utils.rs): the choice of instruments, their spread over workers, the subscriptions, what each frame of a
    connection does (\<open>bybit_bytes\<close> and its like), and the loops of the workers.  The record \<open>feed\<close> has the
    WebSocket, JSON values, the channel to the bridge and the clock; their contracts are the locales
    \<open>json_objects\<close>, \<open>channel\<close>, \<open>socket\<close> and \<open>feed_clock\<close>.
  \<^item> \<open>Measurement\<close> (latency_tracker.rs, latency.rs, test_metrics.rs, buffer_pool.rs, thread_pinning.rs): lock-free
    latency statistics, as single calls and as the relation \<open>rstep\<close> over calls at their atomic accesses;
    percentiles of test runs, the pool of string buffers, the cores of the threads.
  \<^item> \<open>Config\<close> (config_storage.rs, synthetic_config.rs): settings saved and loaded as JSON, which the locale
    \<open>exact_codec\<close> describes, their validation, and the configuration of the synthetic test.

  \<^bold>\<open>What is shown.\<close>  A live entry returns on every backend whose clock does not run backwards, releases
  the hedge lock on every path, and halts trading exactly when an emergency close failed; on the paper
  backend it yields legs of equal size.  No two hedges of a symbol run at once in any interleaving.  A
  hedge reported as placed covers its target, an emergency close is accepted or trading stops, and price
  chasing ends within its repricing limit.  Concurrent threads always get the same ID for the same key and
  different IDs for different keys.  The store returns the latest quote, queues keep order and account for
  every element, orders are never dropped by the order queue.  Whatever the detector publishes satisfies
  the thresholds, computed from current quotes.  Closing and opening trades conserves them.  A turn of the
  strategy returns; in every reachable state of the runner at most one live trade exists per symbol; an
  opportunity is entered completely or leaves the book as it was; monitoring only marks trades, and marks
  them for exit exactly under the stated conditions; an exited trade leaves the book and the portfolio.
  The fast price parser gives the correctly rounded value of every plain decimal.  The demo client signs
  every private request, sends nothing elsewhere, writes quantities as decimals that read back, and never
  loses an accepted order; hedges on an exchange it simulates cannot be verified, and exit orders placed
  through it never time out.  In every
  state of the running program each queued opportunity has positive prices and passes the filters, a message
  becomes an update only with a sane quote, messages reach Redis in order and only an overflow loses one;
  as \<open>main\<close> wires it, the runner never sees a quote and never trades.  What the bridge reads from a message of
  the Bybit connector is the latest bid and ask of the connection; every message of a connector carries the
  name of its exchange; every topic is subscribed once; reconnection backs off exponentially within its bound
  and the workers of Binance stay below its limit.  Concurrent calls never lose the maximal latency.  The
  remaining properties bound scores, sizes, slippage, tokens and ages, wrap-around included, and
  characterise exit conditions and look-ups on every input.  Lemmas with concrete runs show where the code
  departs from its documentation or its tests.

  \<^bold>\<open>Loops.\<close>  The two loops whose end depends on the clock, \<open>chase_loop\<close> and \<open>poll_loop\<close>, and the one that
  empties the Redis queue, \<open>writer_drain\<close>, are partial functions: \<open>None\<close> would be a run that does not end, and
  it is proved not to occur.  The pages of instruments, \<open>fetch_pages\<close>, are a partial function too, because the
  exchange decides whether there is another page.  A connection is a fold over the list of its events, and a
  worker over the list of its connections.  All other loops recurse
  on a list or a decreasing count.  No fuel is used.

  \<^bold>\<open>Conventions.\<close>  A clock is read from the state of the world; two readings with no call between them agree.
  \<open>tokio::join!\<close> runs its branches one after the other.  Error messages are strings where the
  code inspects or passes them on, and values of a datatype otherwise.  Log output is left out.  A result
  \<open>None\<close> of an operation of the runner is a panic or a deadlock.

  \<^bold>\<open>Not modelled.\<close>  The terminal programs do input and output through third-party libraries
  and hold no logic of the strategy.  gateio.rs is a single comment and lighter.rs belongs to no module.  The clients of Binance and Bitget are constructed nowhere.
  execute_opportunity_impl.rs is a draft of \<open>execute_opportunity\<close> that no module includes.
\<close>

section \<open>The demo backend and the monitoring of exits\<close>

lemma sample_place_ok:
  "\<exists>s' placed. BybitDemoClient_place_order sample_net sample_client paper_sample_order = (s', Ok placed)"
proof -
  have "std_parse ''0.5'' = Some (lit 0.5)" by code_simp
  then have "is_ok (snd (BybitDemoClient_place_order sample_net sample_client paper_sample_order))"
    by (simp add: BybitDemoClient_place_order_def BybitDemoClient_get_timestamp_def duration_since_def
        BybitDemoClient_get_qty_step_def create_order_def order_id_of_def ret_error_def fetch_json_def fetch_def
        first_result_def str_field_def f64_field_def nth_of_def vec_get_def ok_or_def sample_defs Let_def
        json_ops.truncate_def paper_sample_order_def)
  then show ?thesis by (metis is_ok.elims(2) prod.collapse)
qed

text \<open>C19. The timeout of exit orders on the demo exchange.  An order accepted by the Bybit client carries a time
  in milliseconds, while the monitoring compares it with the clock in seconds and lets the difference
  saturate: as long as the clock in seconds has not passed that number, which takes tens of thousands of
  years, the order's age is zero, and a trade with such an exit order never times out.\<close>

theorem demo_exits_never_time_out:
  assumes "BybitDemoClient_get_timestamp N s = (s1, Ok timestamp)"
    and "BybitDemoClient_place_order N s order = (s', Ok placed)"
    and "local_ms = int (n_unix_nanos N (c_net s1) div 1000000)" "local_ms < 2 ^ 62"
    and "offset = time_offset (c_client s1)" "\<bar>offset\<bar> < 2 ^ 62" "0 \<le> local_ms + offset"
    and "uint now \<le> local_ms + offset"
    and "pt_long_exit_order t = Some placed \<or> pt_short_exit_order t = Some placed"
  shows "uint (so_created_at placed) = local_ms + offset \<and> exit_age now (Some placed) = 0 \<and>
    \<not> exits_timed_out now t"
proof -
  have "unix_millis_i64 N (c_net s1) = local_ms"
    using assms(3,4) unfolding unix_millis_i64_def by (subst wrap_i64_id) auto
  then have "timestamp = int_str (local_ms + offset)"
    using get_timestamp_Ok[OF assms(1)] assms(3-7) wrap_i64_id[of "local_ms + offset"] by simp
  moreover have "so_created_at placed = timestamp_u64 timestamp"
    by (rule place_order_Ok[OF assms(2)]) (use assms(1) in simp)
  ultimately have c: "uint (so_created_at placed) = local_ms + offset"
    using parse_int_str(2)[of "local_ms + offset"] assms(4,6,7) by simp
  then have "now \<le> so_created_at placed" using assms(8) by (simp add: word_le_def)
  then have a: "exit_age now (Some placed) = 0" by (auto simp: exit_age_def)
  with assms(9) have "\<not> exits_timed_out now t" by (auto simp: exits_timed_out_def EXIT_TIMEOUT_SECONDS_def)
  with a c show ?thesis by blast
qed

theorem demo_exits_never_time_out_witness:
  "\<exists>placed. snd (BybitDemoClient_place_order sample_net sample_client paper_sample_order) = Ok placed \<and>
     so_created_at placed = 1700000000000 \<and>
     \<not> exits_timed_out 1700000100 (demo_trade\<lparr>pt_long_exit_order := Some placed\<rparr>)"
proof -
  obtain s' placed where p: "BybitDemoClient_place_order sample_net sample_client paper_sample_order = (s', Ok placed)"
    using sample_place_ok by blast
  obtain ts where t: "BybitDemoClient_get_timestamp sample_net sample_client = (sample_client, Ok ts)"
    by (simp add: BybitDemoClient_get_timestamp_def duration_since_def sample_defs Let_def)
  have "uint (so_created_at placed) = 1700000000000 \<and> exit_age 1700000100 (Some placed) = 0 \<and>
    \<not> exits_timed_out 1700000100 (demo_trade\<lparr>pt_long_exit_order := Some placed\<rparr>)"
    using demo_exits_never_time_out[OF t p, of 1700000000000 0 1700000100
        "demo_trade\<lparr>pt_long_exit_order := Some placed\<rparr>"] by (simp add: sample_defs)
  moreover from this have "so_created_at placed = 1700000000000"
    by (intro word_uint_eq_iff[THEN iffD2]) simp
  ultimately show ?thesis using p by simp
qed

end
